(* ===== verification/GoStd.thy ===== *)
theory GoStd
  imports Prelude "HOL-Library.Word"
begin

text \<open>
  The parts of Go's standard library that the sources compute with: \<^verbatim>\<open>net.ParseIP\<close> and
  \<^verbatim>\<open>net.IP.To4\<close> (as \<^verbatim>\<open>net/netip\<close> parses addresses), \<^verbatim>\<open>crypto/sha256\<close>, \<^verbatim>\<open>encoding/hex\<close> and
  \<^verbatim>\<open>sort.Strings\<close>, and the sources' idiom for names that must fit a length limit.
\<close>

unbundle bit_operations_syntax

type_synonym byte = "8 word"

definition byte_of_char :: "char \<Rightarrow> byte" where
  "byte_of_char c = of_nat (of_char c)"

definition bytes_of_string :: "string \<Rightarrow> byte list" where
  "bytes_of_string s = map byte_of_char s"

section \<open>net.ParseIP\<close>

text \<open>A parsed \<^verbatim>\<open>net.IP\<close> is its 16-byte form.\<close>

type_synonym ip = "byte list"

definition digit_val :: "char \<Rightarrow> nat" where
  "digit_val c = of_char c - 48"

fun ipv4_fields :: "string \<Rightarrow> byte list \<Rightarrow> nat \<Rightarrow> nat \<Rightarrow> byte list option" where
  "ipv4_fields [] acc val d = (if d = 0 \<or> length acc < 3 then None else Some (acc @ [of_nat val]))"
| "ipv4_fields (c # cs) acc val d =
     (if is_digit c then
        (if d = 1 \<and> val = 0 then None
         else let v = val * 10 + digit_val c in
              if v > 255 then None else ipv4_fields cs acc v (Suc d))
      else if c = CHR ''.'' then
        (if d = 0 \<or> length acc = 3 then None else ipv4_fields cs (acc @ [of_nat val]) 0 0)
      else None)"

definition hex_val :: "char \<Rightarrow> nat option" where
  "hex_val c =
     (let n = of_char c :: nat in
      if 48 \<le> n \<and> n \<le> 57 then Some (n - 48)
      else if 97 \<le> n \<and> n \<le> 102 then Some (n - 87)
      else if 65 \<le> n \<and> n \<le> 70 then Some (n - 55)
      else None)"

definition is_hex :: "char \<Rightarrow> bool" where
  "is_hex c \<longleftrightarrow> hex_val c \<noteq> None"

definition hex_number :: "string \<Rightarrow> nat" where
  "hex_number s = foldl (\<lambda>a c. 16 * a + (case hex_val c of None \<Rightarrow> 0 | Some v \<Rightarrow> v)) 0 s"

text \<open>One group of one to four hexadecimal digits, its value as two bytes and what follows.\<close>

definition hex_group :: "string \<Rightarrow> (byte list \<times> string) option" where
  "hex_group s =
     (let ds = takeWhile is_hex s; v = hex_number ds in
      if ds = [] \<or> length ds > 4 then None
      else Some ([of_nat (v div 256), of_nat (v mod 256)], drop (length ds) s))"

text \<open>The loop of \<^verbatim>\<open>netip.parseIPv6\<close>; the first argument counts the 16-bit groups left.\<close>

fun ipv6_loop ::
  "nat \<Rightarrow> string \<Rightarrow> byte list \<Rightarrow> nat option \<Rightarrow> (byte list \<times> nat option \<times> string) option" where
  "ipv6_loop 0 s acc el = Some (acc, el, s)"
| "ipv6_loop (Suc k) s acc el =
     (case hex_group s of
        None \<Rightarrow> None
      | Some (g, []) \<Rightarrow> Some (acc @ g, el, [])
      | Some (g, c # s1) \<Rightarrow>
          if c = CHR ''.'' then
            (if (el = None \<and> length acc \<noteq> 12) \<or> length acc + 4 > 16 then None
             else map_option (\<lambda>fs. (acc @ fs, el, [])) (ipv4_fields s [] 0 0))
          else if c \<noteq> CHR '':'' \<or> s1 = [] then None
          else if hd s1 = CHR '':'' then
            (if el \<noteq> None then None
             else if tl s1 = [] then Some (acc @ g, Some (length (acc @ g)), [])
             else ipv6_loop k (tl s1) (acc @ g) (Some (length (acc @ g))))
          else ipv6_loop k s1 (acc @ g) el)"

definition parseIPv6 :: "string \<Rightarrow> ip option" where
  "parseIPv6 s =
     (let lead = (take 2 s = ''::''); s1 = (if lead then drop 2 s else s);
          el = (if lead then Some 0 else None) in
      if lead \<and> s1 = [] then Some (replicate 16 0)
      else case ipv6_loop 8 s1 [] el of
        None \<Rightarrow> None
      | Some (acc, el, rest) \<Rightarrow>
          if rest \<noteq> [] then None
          else if length acc < 16 then
            (case el of None \<Rightarrow> None
             | Some e \<Rightarrow> Some (take e acc @ replicate (16 - length acc) 0 @ drop e acc))
          else if el \<noteq> None then None else Some acc)"

definition ParseIP :: "string \<Rightarrow> ip option" where
  "ParseIP s =
     (if CHR ''%'' \<in> set s then None
      else case find (\<lambda>c. c = CHR ''.'' \<or> c = CHR '':'') s of
        None \<Rightarrow> None
      | Some c \<Rightarrow>
          if c = CHR ''.'' then
            (case ipv4_fields s [] 0 0 of
               None \<Rightarrow> None
             | Some fs \<Rightarrow> Some (replicate 10 0 @ [255, 255] @ fs))
          else parseIPv6 s)"

definition To4 :: "ip \<Rightarrow> byte list option" where
  "To4 ip = (if length ip = 4 then Some ip
             else if length ip = 16 \<and> take 10 ip = replicate 10 0 \<and> ip ! 10 = 255 \<and> ip ! 11 = 255
               then Some (drop 12 ip)
             else None)"

definition To16 :: "ip \<Rightarrow> byte list option" where
  "To16 ip = (if length ip = 4 then Some (replicate 10 0 @ [255, 255] @ ip)
              else if length ip = 16 then Some ip else None)"

text \<open>The sources use \<^verbatim>\<open>net.ParseIP(s) != nil\<close> to tell addresses from DNS names.\<close>

definition is_ip :: "string \<Rightarrow> bool" where
  "is_ip s \<longleftrightarrow> ParseIP s \<noteq> None"

lemma ipv4_fields_length:
  "ipv4_fields s acc val d = Some fs \<Longrightarrow> length acc \<le> 3 \<Longrightarrow> length fs = 4"
  by (induction s acc val d rule: ipv4_fields.induct)
    (auto simp: Let_def split: if_splits)

lemma hex_group_length: "hex_group s = Some (g, r) \<Longrightarrow> length g = 2"
  by (auto simp: hex_group_def Let_def split: if_splits)

definition ellipsis_ok :: "nat option \<Rightarrow> nat \<Rightarrow> bool" where
  "ellipsis_ok el n \<longleftrightarrow> (case el of None \<Rightarrow> True | Some e \<Rightarrow> e \<le> n)"

lemma ellipsis_ok_simps [simp]: "ellipsis_ok None n" "ellipsis_ok (Some e) n \<longleftrightarrow> e \<le> n"
  by (simp_all add: ellipsis_ok_def)

lemma ellipsis_ok_mono: "ellipsis_ok el n \<Longrightarrow> n \<le> m \<Longrightarrow> ellipsis_ok el m"
  by (cases el) auto

lemma ipv6_loop_length:
  "ipv6_loop k s acc el = Some (acc', el', r) \<Longrightarrow> length acc + 2 * k = 16 \<Longrightarrow>
   ellipsis_ok el (length acc) \<Longrightarrow> length acc' \<le> 16 \<and> ellipsis_ok el' (length acc')"
proof (induction k arbitrary: s acc el)
  case (Suc k)
  show ?case
  proof (cases "hex_group s")
    case None
    with Suc.prems show ?thesis by simp
  next
    case (Some p)
    obtain g rest where p: "p = (g, rest)" by force
    with Some have g: "length g = 2" by (simp add: hex_group_length)
    have el: "ellipsis_ok el (length (acc @ g))" "ellipsis_ok el (length acc + 4)"
      using Suc.prems(3) by (auto intro: ellipsis_ok_mono)
    note IH = Suc.IH [where acc = "acc @ g"]
    show ?thesis
    proof (cases rest)
      case Nil
      with Suc.prems Some p g el show ?thesis by auto
    next
      case (Cons c s1)
      with Suc.prems(1) Some p g el Suc.prems(2) IH [of "tl s1" "Some (length (acc @ g))"] IH [of s1 el]
      show ?thesis
        by (auto dest: ipv4_fields_length split: if_splits)
    qed
  qed
qed auto

lemma parseIPv6_length: "parseIPv6 s = Some a \<Longrightarrow> length a = 16"
proof -
  assume p: "parseIPv6 s = Some a"
  let ?lead = "take 2 s = ''::''"
  let ?s = "if ?lead then drop 2 s else s" and ?el = "if ?lead then Some 0 else (None :: nat option)"
  show ?thesis
  proof (cases "?lead \<and> ?s = []")
    case True
    with p show ?thesis by (auto simp: parseIPv6_def)
  next
    case False
    with p obtain acc el where l: "ipv6_loop 8 ?s [] ?el = Some (acc, el, [])"
      and a: "a = (if length acc < 16 then take (the el) acc @ replicate (16 - length acc) 0 @ drop (the el) acc else acc)"
      by (auto simp: parseIPv6_def Let_def split: option.splits if_splits)
    from ipv6_loop_length [OF l] have "length acc \<le> 16" by simp
    with a show ?thesis by (auto simp: min_def)
  qed
qed

lemma ParseIP_length: "ParseIP s = Some a \<Longrightarrow> length a = 16"
  by (auto simp: ParseIP_def dest: ipv4_fields_length parseIPv6_length split: option.splits if_splits)

lemma ParseIP_empty [simp]: "ParseIP '''' = None"
  by (simp add: ParseIP_def)

section \<open>crypto/sha256 and encoding/hex\<close>

definition sha_k :: "32 word list" where
  "sha_k = [
    1116352408, 1899447441, 3049323471, 3921009573, 961987163, 1508970993, 2453635748, 2870763221,
    3624381080, 310598401, 607225278, 1426881987, 1925078388, 2162078206, 2614888103, 3248222580,
    3835390401, 4022224774, 264347078, 604807628, 770255983, 1249150122, 1555081692, 1996064986,
    2554220882, 2821834349, 2952996808, 3210313671, 3336571891, 3584528711, 113926993, 338241895,
    666307205, 773529912, 1294757372, 1396182291, 1695183700, 1986661051, 2177026350, 2456956037,
    2730485921, 2820302411, 3259730800, 3345764771, 3516065817, 3600352804, 4094571909, 275423344,
    430227734, 506948616, 659060556, 883997877, 958139571, 1322822218, 1537002063, 1747873779,
    1955562222, 2024104815, 2227730452, 2361852424, 2428436474, 2756734187, 3204031479,
    3329325298]"

definition sha_init :: "32 word list" where
  "sha_init = [1779033703, 3144134277, 1013904242, 2773480762,
               1359893119, 2600822924, 528734635, 1541459225]"

definition be_word32 :: "byte list \<Rightarrow> 32 word" where
  "be_word32 bs = foldl (\<lambda>a b. push_bit 8 a OR ucast b) 0 bs"

definition be_bytes :: "nat \<Rightarrow> int \<Rightarrow> byte list" where
  "be_bytes n x = map (\<lambda>i. word_of_int (x div 256 ^ i)) (rev [0..<n])"

definition sha_pad :: "byte list \<Rightarrow> byte list" where
  "sha_pad m = (let l = length m; z = (119 - l mod 64) mod 64 in
     m @ [0x80] @ replicate z 0 @ be_bytes 8 (8 * int l mod 2 ^ 64))"

fun chunks :: "nat \<Rightarrow> 'a list \<Rightarrow> 'a list list" where
  "chunks 0 xs = []"
| "chunks (Suc n) [] = []"
| "chunks (Suc n) (x # xs) = take (Suc n) (x # xs) # chunks (Suc n) (drop n xs)"

fun sha_schedule :: "nat \<Rightarrow> 32 word list \<Rightarrow> 32 word list" where
  \<comment> \<open>the last sixteen words decide the next one; the list is built back to front\<close>
  "sha_schedule 0 ws = ws"
| "sha_schedule (Suc k) ws =
     (let w15 = ws ! 14; w2 = ws ! 1;
          s0 = word_rotr 7 w15 XOR word_rotr 18 w15 XOR drop_bit 3 w15;
          s1 = word_rotr 17 w2 XOR word_rotr 19 w2 XOR drop_bit 10 w2
      in sha_schedule k ((ws ! 15 + s0 + ws ! 6 + s1) # ws))"

definition sha_round :: "32 word list \<Rightarrow> 32 word \<times> 32 word \<Rightarrow> 32 word list" where
  "sha_round st kw =
     (let a = st ! 0; b = st ! 1; c = st ! 2; d = st ! 3; e = st ! 4; f = st ! 5; g = st ! 6; h = st ! 7;
          s1 = word_rotr 6 e XOR word_rotr 11 e XOR word_rotr 25 e;
          ch = (e AND f) XOR ((NOT e) AND g);
          t1 = h + s1 + ch + fst kw + snd kw;
          s0 = word_rotr 2 a XOR word_rotr 13 a XOR word_rotr 22 a;
          maj = (a AND b) XOR (a AND c) XOR (b AND c);
          t2 = s0 + maj
      in [t1 + t2, a, b, c, d + t1, e, f, g])"

definition sha_block :: "32 word list \<Rightarrow> byte list \<Rightarrow> 32 word list" where
  "sha_block st blk =
     (let ws = rev (sha_schedule 48 (rev (map be_word32 (chunks 4 blk))))
      in map2 (+) st (foldl sha_round st (zip sha_k ws)))"

definition Sum256 :: "string \<Rightarrow> byte list" where
  "Sum256 s =
     concat (map (\<lambda>w. be_bytes 4 (uint w)) (foldl sha_block sha_init (chunks 64 (sha_pad (bytes_of_string s)))))"

definition hex_encode :: "byte list \<Rightarrow> string" where
  "hex_encode bs = concat (map (\<lambda>b. [hexdigit (unat b div 16), hexdigit (unat b mod 16)]) bs)"

lemma length_hex_encode [simp]: "length (hex_encode bs) = 2 * length bs"
  by (induction bs) (auto simp: hex_encode_def)

lemma length_sha_round: "length (sha_round st kw) = 8"
  by (simp add: sha_round_def Let_def)

lemma length_foldl_sha_round: "length st = 8 \<Longrightarrow> length (foldl sha_round st kws) = 8"
  by (induction kws arbitrary: st) (auto simp: length_sha_round)

lemma length_foldl_sha_block: "length st = 8 \<Longrightarrow> length (foldl sha_block st bs) = 8"
  by (induction bs arbitrary: st) (auto simp: sha_block_def Let_def length_foldl_sha_round)

lemma length_concat_const: "(\<And>x. length (f x) = n) \<Longrightarrow> length (concat (map f xs)) = n * length xs"
  by (induction xs) auto

lemma length_Sum256 [simp]: "length (Sum256 s) = 32"
  by (simp add: Sum256_def length_concat_const [where n = 4] be_bytes_def
      length_foldl_sha_block sha_init_def)

section \<open>Names with a length limit\<close>

text \<open>The sources shorten a name that exceeds a limit to a prefix, a dash and the first bytes of
  the name's SHA-256 in hexadecimal.  \<open>truncate_hashed\<close> is the common body.\<close>

definition truncate_hashed :: "nat \<Rightarrow> nat \<Rightarrow> string \<Rightarrow> string" where
  "truncate_hashed limit hashBytes s =
     (if length s \<le> limit then s
      else take (limit - 1 - 2 * hashBytes) s @ ''-'' @ hex_encode (take hashBytes (Sum256 s)))"

lemma truncate_hashed_length:
  "hashBytes \<le> 32 \<Longrightarrow> 2 * hashBytes < limit \<Longrightarrow> length (truncate_hashed limit hashBytes s) \<le> limit"
  by (simp add: truncate_hashed_def)

lemma truncate_hashed_short: "length s \<le> limit \<Longrightarrow> truncate_hashed limit hashBytes s = s"
  by (simp add: truncate_hashed_def)

section \<open>sort.Strings\<close>

fun insert_string :: "string \<Rightarrow> string list \<Rightarrow> string list" where
  "insert_string x [] = [x]"
| "insert_string x (y # ys) = (if str_less y x then y # insert_string x ys else x # y # ys)"

definition sort_strings :: "string list \<Rightarrow> string list" where
  "sort_strings xs = foldr insert_string xs []"

lemma set_insert_string [simp]: "set (insert_string x ys) = insert x (set ys)"
  by (induction ys) auto

lemma set_sort_strings [simp]: "set (sort_strings xs) = set xs"
  by (induction xs) (auto simp: sort_strings_def)

lemma length_insert_string [simp]: "length (insert_string x ys) = Suc (length ys)"
  by (induction ys) auto

lemma length_sort_strings [simp]: "length (sort_strings xs) = length xs"
  by (induction xs) (auto simp: sort_strings_def)

lemma sort_strings_Nil_iff [simp]: "sort_strings xs = [] \<longleftrightarrow> xs = []"
  by (metis length_0_conv length_sort_strings)

end
