(* ===== verification/Api.thy ===== *)
theory Api
  imports GoStd
begin

text \<open>
  The API types of \<^verbatim>\<open>src/api/v1alpha1\<close>: \<^verbatim>\<open>FailoverService\<close> (specification, status, the
  transition record the controller keeps between reconciles) and \<^verbatim>\<open>FailoverEvent\<close>.  A struct is a
  record with the source's field names behind a prefix of the struct, a pointer field is an
  option, a slice is a list, and a Go map is an association list.  The sources' string enumerations
  stay strings, since the code compares strings and has default branches for foreign values.
\<close>

section \<open>Object metadata and conditions\<close>

text \<open>The fields of \<^verbatim>\<open>metav1.ObjectMeta\<close>, \<^verbatim>\<open>OwnerReference\<close> and \<^verbatim>\<open>Condition\<close> the sources use.
  A time is its number of nanoseconds since the Unix epoch; \<open>zeroTime\<close> is Go's zero \<^verbatim>\<open>time.Time\<close>.\<close>

type_synonym time = int

definition zeroTime :: time where
  "zeroTime = - 62135596800 * 10 ^ 9"

definition second :: int where
  "second = 10 ^ 9"

record OwnerReference =
  or_APIVersion :: string
  or_Kind :: string
  or_Name :: string
  or_UID :: string

record ObjectMeta =
  m_Name :: string
  m_Namespace :: string
  m_UID :: string
  m_Generation :: int
  m_Labels :: "(string, string) gomap option"
  m_Annotations :: "(string, string) gomap option"
  m_Finalizers :: "string list"
  m_OwnerReferences :: "OwnerReference list"
  m_CreationTimestamp :: time
  m_DeletionTimestamp :: "time option"

definition emptyMeta :: ObjectMeta where
  "emptyMeta = \<lparr>m_Name = '''', m_Namespace = '''', m_UID = '''', m_Generation = 0, m_Labels = None,
     m_Annotations = None, m_Finalizers = [], m_OwnerReferences = [],
     m_CreationTimestamp = zeroTime, m_DeletionTimestamp = None\<rparr>"

record Condition =
  cond_Type :: string
  cond_Status :: string
  cond_ObservedGeneration :: int
  cond_LastTransitionTime :: time
  cond_Reason :: string
  cond_Message :: string

section \<open>Actions\<close>

record HTTPAction =
  ha_URL :: string
  ha_Method :: string
  ha_Headers :: "(string, string) gomap"
  ha_Body :: "string option"
  ha_TimeoutSeconds :: "int option"

record EnvVar =
  ev_Name :: string
  ev_Value :: string

record JobAction =
  ja_Image :: string
  ja_Command :: "string list"
  ja_Script :: "string option"
  ja_Env :: "EnvVar list"
  ja_ServiceAccountName :: string
  ja_ActiveDeadlineSeconds :: "int option"
  ja_MaxRetries :: "int option"

record ScaleAction =
  sa_Kind :: string
  sa_Name :: string
  sa_Replicas :: int
  sa_WaitReady :: bool
  sa_TimeoutSeconds :: "int option"

record WaitReadyAction =
  wra_Kind :: string
  wra_Name :: string
  wra_TimeoutSeconds :: "int option"

type_synonym FailoverPhase = string

record WaitRemoteAction =
  wrm_Phase :: "FailoverPhase option"
  wrm_ActionName :: "string option"
  wrm_ConnectTimeoutSeconds :: "int option"
  wrm_ActionTimeoutSeconds :: "int option"

record FailoverAction =
  fa_Name :: string
  fa_HTTP :: "HTTPAction option"
  fa_Job :: "JobAction option"
  fa_Scale :: "ScaleAction option"
  fa_WaitReady :: "WaitReadyAction option"
  fa_WaitRemote :: "WaitRemoteAction option"
  fa_IgnoreFailure :: bool
  fa_MaxRetries :: "int option"
  fa_RetryIntervalSeconds :: "int option"

record TransitionActions =
  ta_PreActions :: "FailoverAction list"
  ta_PostActions :: "FailoverAction list"

record ClusterTarget =
  ct_PrimaryModeAddress :: string
  ct_FailoverModeAddress :: string
  ct_OnFailover :: "TransitionActions option"
  ct_OnFailback :: "TransitionActions option"

record Port =
  p_Name :: string
  p_Port :: int
  p_Protocol :: string

section \<open>Phases\<close>

definition PhaseIdle :: FailoverPhase where "PhaseIdle = ''''"
definition PhaseExecutingPreActions :: FailoverPhase where
  "PhaseExecutingPreActions = ''ExecutingPreActions''"
definition PhaseUpdatingResources :: FailoverPhase where
  "PhaseUpdatingResources = ''UpdatingResources''"
definition PhaseFlushingConnections :: FailoverPhase where
  "PhaseFlushingConnections = ''FlushingConnections''"
definition PhaseExecutingPostActions :: FailoverPhase where
  "PhaseExecutingPostActions = ''ExecutingPostActions''"

lemmas phase_defs [go_consts] = PhaseIdle_def PhaseExecutingPreActions_def
  PhaseUpdatingResources_def PhaseFlushingConnections_def PhaseExecutingPostActions_def

definition PhaseOrder :: "FailoverPhase \<Rightarrow> int" where
  "PhaseOrder p =
     (if p = PhaseIdle then 0
      else if p = PhaseExecutingPreActions then 1
      else if p = PhaseUpdatingResources then 2
      else if p = PhaseFlushingConnections then 3
      else if p = PhaseExecutingPostActions then 4
      else -1)"

lemma phase_distinct [simp]:
  "PhaseIdle \<noteq> PhaseExecutingPreActions" "PhaseExecutingPreActions \<noteq> PhaseIdle"
  "PhaseIdle \<noteq> PhaseUpdatingResources" "PhaseUpdatingResources \<noteq> PhaseIdle"
  "PhaseIdle \<noteq> PhaseFlushingConnections" "PhaseFlushingConnections \<noteq> PhaseIdle"
  "PhaseIdle \<noteq> PhaseExecutingPostActions" "PhaseExecutingPostActions \<noteq> PhaseIdle"
  "PhaseExecutingPreActions \<noteq> PhaseUpdatingResources" "PhaseUpdatingResources \<noteq> PhaseExecutingPreActions"
  "PhaseExecutingPreActions \<noteq> PhaseFlushingConnections" "PhaseFlushingConnections \<noteq> PhaseExecutingPreActions"
  "PhaseExecutingPreActions \<noteq> PhaseExecutingPostActions" "PhaseExecutingPostActions \<noteq> PhaseExecutingPreActions"
  "PhaseUpdatingResources \<noteq> PhaseFlushingConnections" "PhaseFlushingConnections \<noteq> PhaseUpdatingResources"
  "PhaseUpdatingResources \<noteq> PhaseExecutingPostActions" "PhaseExecutingPostActions \<noteq> PhaseUpdatingResources"
  "PhaseFlushingConnections \<noteq> PhaseExecutingPostActions" "PhaseExecutingPostActions \<noteq> PhaseFlushingConnections"
  by (simp_all add: phase_defs)

lemma PhaseOrder_simps [simp]:
  "PhaseOrder PhaseIdle = 0" "PhaseOrder PhaseExecutingPreActions = 1"
  "PhaseOrder PhaseUpdatingResources = 2" "PhaseOrder PhaseFlushingConnections = 3"
  "PhaseOrder PhaseExecutingPostActions = 4"
  by (simp_all add: PhaseOrder_def)

lemma PhaseOrder_inj: "0 \<le> PhaseOrder p \<Longrightarrow> PhaseOrder p = PhaseOrder q \<Longrightarrow> p = q"
  by (simp add: PhaseOrder_def split: if_splits)

section \<open>Transition status\<close>

definition ActionStatusPending :: string where "ActionStatusPending = ''Pending''"
definition ActionStatusRunning :: string where "ActionStatusRunning = ''Running''"
definition ActionStatusSucceeded :: string where "ActionStatusSucceeded = ''Succeeded''"
definition ActionStatusFailed :: string where "ActionStatusFailed = ''Failed''"
definition ActionStatusSkipped :: string where "ActionStatusSkipped = ''Skipped''"

lemmas status_defs [go_consts] = ActionStatusPending_def ActionStatusRunning_def
  ActionStatusSucceeded_def ActionStatusFailed_def ActionStatusSkipped_def

lemma status_distinct [simp]:
  "ActionStatusPending \<noteq> ActionStatusRunning" "ActionStatusRunning \<noteq> ActionStatusPending"
  "ActionStatusPending \<noteq> ActionStatusSucceeded" "ActionStatusSucceeded \<noteq> ActionStatusPending"
  "ActionStatusPending \<noteq> ActionStatusFailed" "ActionStatusFailed \<noteq> ActionStatusPending"
  "ActionStatusPending \<noteq> ActionStatusSkipped" "ActionStatusSkipped \<noteq> ActionStatusPending"
  "ActionStatusRunning \<noteq> ActionStatusSucceeded" "ActionStatusSucceeded \<noteq> ActionStatusRunning"
  "ActionStatusRunning \<noteq> ActionStatusFailed" "ActionStatusFailed \<noteq> ActionStatusRunning"
  "ActionStatusRunning \<noteq> ActionStatusSkipped" "ActionStatusSkipped \<noteq> ActionStatusRunning"
  "ActionStatusSucceeded \<noteq> ActionStatusFailed" "ActionStatusFailed \<noteq> ActionStatusSucceeded"
  "ActionStatusSucceeded \<noteq> ActionStatusSkipped" "ActionStatusSkipped \<noteq> ActionStatusSucceeded"
  "ActionStatusFailed \<noteq> ActionStatusSkipped" "ActionStatusSkipped \<noteq> ActionStatusFailed"
  by (simp_all add: status_defs)

record ActionResult =
  ar_Name :: string
  ar_Status :: string
  ar_Message :: string
  ar_StartedAt :: "time option"
  ar_CompletedAt :: "time option"
  ar_JobName :: string
  ar_RetryCount :: int

record ConnectionKillStatus =
  ck_SignalSent :: bool
  ck_KillToken :: string
  ck_ExpectedNodes :: "string list"
  ck_AckedNodes :: "string list"
  ck_SignaledAt :: "time option"

record TransitionStatus =
  tr_Phase :: FailoverPhase
  tr_TargetDirection :: string
  tr_OldAddressSnapshot :: string
  tr_NewAddressSnapshot :: string
  tr_TransitionID :: string
  tr_CurrentActionIndex :: int
  tr_PreActionResults :: "ActionResult list"
  tr_PostActionResults :: "ActionResult list"
  tr_StartedAt :: "time option"
  tr_ConnectionKill :: "ConnectionKillStatus option"
  tr_EventName :: string

section \<open>FailoverService\<close>

record RemoteState =
  rs_FailoverActive :: bool
  rs_ActiveCluster :: string
  rs_ActiveGeneration :: int
  rs_LastSyncTime :: "time option"
  rs_ClusterID :: string
  rs_SpecChangeTime :: "time option"

record FailoverServiceSpec =
  sp_ServiceName :: string
  sp_Ports :: "Port list"
  sp_FailoverActive :: bool
  sp_PrimaryCluster :: ClusterTarget
  sp_FailoverCluster :: ClusterTarget

record ClusterStatus =
  cs_ClusterID :: string
  cs_AppliedGeneration :: int
  cs_LastAppliedTime :: "time option"
  cs_Phase :: FailoverPhase

record FailoverServiceStatus =
  st_ObservedGeneration :: int
  st_ActiveCluster :: string
  st_ActiveGeneration :: int
  st_LastTransitionTime :: "time option"
  st_LastKnownFailoverActive :: "bool option"
  st_SpecChangeTime :: "time option"
  st_Clusters :: "ClusterStatus list"
  st_RemoteState :: "RemoteState option"
  st_Transition :: "TransitionStatus option"
  st_Conditions :: "Condition list"

record FailoverService =
  fs_Meta :: ObjectMeta
  fs_Spec :: FailoverServiceSpec
  fs_Status :: FailoverServiceStatus

abbreviation fs_Name :: "FailoverService \<Rightarrow> string" where "fs_Name fs \<equiv> m_Name (fs_Meta fs)"
abbreviation fs_Namespace :: "FailoverService \<Rightarrow> string" where "fs_Namespace fs \<equiv> m_Namespace (fs_Meta fs)"
abbreviation fs_Generation :: "FailoverService \<Rightarrow> int" where "fs_Generation fs \<equiv> m_Generation (fs_Meta fs)"
abbreviation fs_Transition :: "FailoverService \<Rightarrow> TransitionStatus option" where
  "fs_Transition fs \<equiv> st_Transition (fs_Status fs)"

definition ConditionServiceReady :: string where "ConditionServiceReady = ''ServiceReady''"
definition ConditionRemoteSynced :: string where "ConditionRemoteSynced = ''RemoteSynced''"
definition ConditionConnectionsKilled :: string where "ConditionConnectionsKilled = ''ConnectionsKilled''"
definition ConditionTransitionInProgress :: string where
  "ConditionTransitionInProgress = ''TransitionInProgress''"
definition ConditionActionFailed :: string where "ConditionActionFailed = ''ActionFailed''"

lemmas condition_defs [go_consts] = ConditionServiceReady_def ConditionRemoteSynced_def
  ConditionConnectionsKilled_def ConditionTransitionInProgress_def ConditionActionFailed_def

section \<open>FailoverEvent\<close>

record FailoverEventSpec =
  es_FailoverServiceRef :: string
  es_Direction :: string
  es_TriggeredBy :: string

definition EventOutcomeSucceeded :: string where "EventOutcomeSucceeded = ''Succeeded''"
definition EventOutcomeFailed :: string where "EventOutcomeFailed = ''Failed''"
definition EventOutcomeForceAdvanced :: string where "EventOutcomeForceAdvanced = ''ForceAdvanced''"
definition EventOutcomeInProgress :: string where "EventOutcomeInProgress = ''InProgress''"

lemmas outcome_defs [go_consts] = EventOutcomeSucceeded_def EventOutcomeFailed_def
  EventOutcomeForceAdvanced_def EventOutcomeInProgress_def

record FailoverEventStatus =
  et_StartedAt :: "time option"
  et_CompletedAt :: "time option"
  et_Outcome :: string
  et_PreActionResults :: "ActionResult list"
  et_PostActionResults :: "ActionResult list"
  et_ConnectionKillResult :: "ConnectionKillStatus option"
  et_ActiveGenerationBefore :: int
  et_ActiveGenerationAfter :: int

definition emptyEventStatus :: FailoverEventStatus where
  "emptyEventStatus = \<lparr>et_StartedAt = None, et_CompletedAt = None, et_Outcome = '''',
     et_PreActionResults = [], et_PostActionResults = [], et_ConnectionKillResult = None,
     et_ActiveGenerationBefore = 0, et_ActiveGenerationAfter = 0\<rparr>"

record FailoverEvent =
  fe_Meta :: ObjectMeta
  fe_Spec :: FailoverEventSpec
  fe_Status :: FailoverEventStatus

text \<open>\<^verbatim>\<open>GroupVersion.WithKind\<close>: group, version and kind.\<close>

type_synonym gvk = "string \<times> string \<times> string"

definition GroupVersion :: "string \<times> string" where
  "GroupVersion = (''k8s-failover.zyno.io'', ''v1alpha1'')"

definition FailoverServiceKind :: gvk where
  "FailoverServiceKind = (fst GroupVersion, snd GroupVersion, ''FailoverService'')"

end
