(* ===== verification/World.thy ===== *)
theory World
  imports Api
begin

text \<open>
  The world outside the program.  The Kubernetes API servers (local and remote), HTTP endpoints and
  the clock are not part of the sources, so they are a parameter of the model: an \<open>env\<close> whose
  functions give the response to a call from the history of everything that happened before it.
  Any environment, however stateful, faulty or concurrent with other writers, is such a function,
  and nothing is assumed about it here; where a property relies on documented behaviour of the API
  server, that behaviour is one of the named predicates at the end of this theory and a hypothesis
  of the property.  The functions of third-party packages that compute without a call (condition
  and finalizer helpers of apimachinery and controller-runtime, owner references) are parameters in
  the same record.

  A program is a value of the library's state monad over \<open>world\<close>: the history, newest entry first,
  and the state the program keeps between calls (the remote client cache).  Every call, clock
  reading and metric appends one entry to the history, so a property can speak about which calls
  are made, with which arguments and in which order.  \<open>eff P m Q\<close> says that \<open>m\<close> appends only entries
  satisfying \<open>P\<close> and returns a value satisfying \<open>Q\<close>; its rules are collected in \<open>eff_rules\<close>.
\<close>

named_theorems eff_rules "effects of program constructs"

section \<open>Kubernetes objects\<close>

text \<open>The fields the sources read or write.\<close>

type_synonym nsname = "string \<times> string" \<comment> \<open>namespace, name\<close>

datatype IntOrString = IntVal int | StrVal string

record ServicePort =
  svp_Name :: string
  svp_Port :: int
  svp_TargetPort :: IntOrString
  svp_Protocol :: string

record Service =
  svc_Meta :: ObjectMeta
  svc_Type :: string
  svc_ExternalName :: string
  svc_ClusterIP :: string
  svc_Ports :: "ServicePort list"

record EndpointPort =
  ep_Name :: string
  ep_Port :: int
  ep_Protocol :: string

record Endpoint =
  end_Addresses :: "string list"
  end_Ready :: "bool option"

record EndpointSlice =
  sl_Meta :: ObjectMeta
  sl_AddressType :: string
  sl_Endpoints :: "Endpoint list"
  sl_Ports :: "EndpointPort list"

record Container =
  con_Name :: string
  con_Image :: string
  con_Command :: "string list"
  con_Env :: "EnvVar list"

record JobCondition =
  jc_Type :: string
  jc_Status :: string
  jc_Message :: string

record Job =
  job_Meta :: ObjectMeta
  job_ActiveDeadlineSeconds :: "int option"
  job_BackoffLimit :: "int option"
  job_RestartPolicy :: string
  job_ServiceAccountName :: string
  job_Containers :: "Container list"
  job_Conditions :: "JobCondition list"

text \<open>A Deployment or a StatefulSet.\<close>

record Workload =
  wl_Meta :: ObjectMeta
  wl_Replicas :: "int option"
  wl_ReadyReplicas :: int
  wl_UpdatedReplicas :: int
  wl_AvailableReplicas :: int
  wl_ObservedGeneration :: int

record Scale =
  scl_Replicas :: int

record ConfigMap =
  cm_Meta :: ObjectMeta
  cm_Data :: "(string, string) gomap option"

record PodCondition =
  pdc_Type :: string
  pdc_Status :: string

record Pod =
  pod_Meta :: ObjectMeta
  pod_NodeName :: string
  pod_Phase :: string
  pod_Conditions :: "PodCondition list"

record Node =
  node_Meta :: ObjectMeta
  node_Unschedulable :: bool
  node_Conditions :: "PodCondition list"

record Secret =
  sec_ResourceVersion :: string
  sec_Data :: "(string, string) gomap option"

text \<open>A REST configuration read from a kubeconfig, and a client built from one.\<close>

record rest_config =
  rcfg_Kubeconfig :: string
  rcfg_Timeout :: int
  rcfg_DialTimeout :: int
  rcfg_DialKeepAlive :: int

datatype rclient = RClient (rcl_config: rest_config)

record HttpRequest =
  hr_Method :: string
  hr_URL :: string
  hr_Headers :: "(string, string) gomap"
  hr_Body :: "string option"
  hr_Timeout :: int

section \<open>History\<close>

datatype metric =
    FailoverTransitionsTotal string string string
  | ReconcileErrorsTotal string string string
  | RemoteSyncDuration int
  | ConnectionsKilledTotal
  | FailoverActiveGauge string string int
  | ActionExecutionDuration string string string string int
  | ActionExecutionsTotal string string string string string
  | TransitionDuration string string string int

text \<open>Calls whose response is only an error or success.\<close>

datatype wcall =
    CreateService Service | UpdateService Service | DeleteService Service
  | CreateSlice EndpointSlice | UpdateSlice EndpointSlice | DeleteSlice EndpointSlice
  | CreateJob Job | DeleteJob Job
  | UpdateScale string Workload Scale
  | CreateConfigMap ConfigMap | UpdateConfigMap ConfigMap
  | CreateEvent FailoverEvent | UpdateEventStatus FailoverEvent
  | RemoteUpdateFS rclient FailoverService

text \<open>Calls to the kernel of a node, with their responses: file descriptors are integers, the directory
  listing gives each name with whether it is a directory, \<^verbatim>\<open>Recvfrom\<close> gives the bytes read into a buffer of
  the given size.\<close>

datatype kentry =
    ReadDir string "go_error + (string \<times> bool) list"
  | Stat string "go_error + 64 word"
  | Open string "go_error + int"
  | Close int
  | Setns int "go_error option"
  | Socket "go_error + int"
  | Bind int "go_error option"
  | SockWrite int "byte list" "go_error option"
  | SetRcvTimeout int int "go_error option"
  | Recvfrom int nat "go_error + byte list"

text \<open>What the watch loops receive: an event of some type, about an object if it is one, or that the watch
  channel is closed; a \<^verbatim>\<open>select\<close> may also find that the context is cancelled or that the ticker fired.\<close>

datatype channel_case = ChannelClosed | Event string "nsname option"

datatype select_case = Cancelled | Tick | Receive channel_case

text \<open>The calls of the watch loops.  \<open>Wait\<close> is a wait for a timer that may be cut short by the context (then the
  answer is \<open>False\<close>).\<close>

datatype sentry =
    WatchConfigMap nsname "go_error option"
  | StopWatch
  | ReceiveEvent "channel_case option"
  | Wait int bool
  | Select select_case
  | CtxDone bool
  | NewDynamic rest_config "go_error option"
  | ListRemote rclient "go_error + string \<times> nsname list"
  | RetryWatch rclient string "go_error option"
  | Enqueue nsname

datatype entry =
    Now time
  | GetFS nsname "go_error + FailoverService"
  | UpdateFS FailoverService "go_error + FailoverService"
  | UpdateFSStatus FailoverService "go_error + FailoverService"
  | GetEvent nsname "go_error + FailoverEvent"
  | GetService nsname "go_error + Service"
  | GetSlice nsname "go_error + EndpointSlice"
  | GetJob nsname "go_error + Job"
  | GetWorkload string nsname "go_error + Workload"
  | GetScale string Workload "go_error + Scale"
  | GetConfigMap nsname "go_error + ConfigMap"
  | ListPods string string string "go_error + Pod list"
  | ListNodes string string "go_error + Node list"
  | GetSecret nsname "go_error + Secret"
  | NewClient rest_config "go_error option"
  | RemoteGetFS rclient nsname "go_error + FailoverService"
  | RemoteListEvents rclient string "go_error + FailoverEvent list"
  | HttpDo HttpRequest "go_error + int"
  | Write wcall "go_error option"
  | Metric metric
  | Kernel kentry
  | Session sentry

type_synonym hist = "entry list"

text \<open>The state of \<^verbatim>\<open>remotecluster.ClientProvider\<close> that survives a call.\<close>

record provider_cache =
  pc_Client :: "rclient option"
  pc_Config :: "rest_config option"
  pc_ResourceVer :: string

record world =
  w_hist :: hist
  w_cache :: provider_cache

section \<open>The environment\<close>

record kernel =
  k_bigEndian :: bool \<comment> \<open>the byte order of the platform\<close>
  k_readDir :: "hist \<Rightarrow> string \<Rightarrow> go_error + (string \<times> bool) list"
  k_stat :: "hist \<Rightarrow> string \<Rightarrow> go_error + 64 word"
  k_open :: "hist \<Rightarrow> string \<Rightarrow> go_error + int"
  k_setns :: "hist \<Rightarrow> int \<Rightarrow> go_error option"
  k_socket :: "hist \<Rightarrow> go_error + int"
  k_bind :: "hist \<Rightarrow> int \<Rightarrow> go_error option"
  k_write :: "hist \<Rightarrow> int \<Rightarrow> byte list \<Rightarrow> go_error option"
  k_setRcvTimeout :: "hist \<Rightarrow> int \<Rightarrow> int \<Rightarrow> go_error option"
  k_recvfrom :: "hist \<Rightarrow> int \<Rightarrow> nat \<Rightarrow> go_error + byte list"

record watching =
  s_watchConfigMap :: "hist \<Rightarrow> nsname \<Rightarrow> go_error option"
  s_receive :: "hist \<Rightarrow> channel_case option" \<comment> \<open>\<open>None\<close> when the context is cancelled\<close>
  s_wait :: "hist \<Rightarrow> int \<Rightarrow> bool"
  s_select :: "hist \<Rightarrow> select_case"
  s_ctxDone :: "hist \<Rightarrow> bool"
  s_newDynamic :: "hist \<Rightarrow> rest_config \<Rightarrow> go_error option"
  s_listRemote :: "hist \<Rightarrow> rclient \<Rightarrow> go_error + string \<times> nsname list"
  s_retryWatch :: "hist \<Rightarrow> rclient \<Rightarrow> string \<Rightarrow> go_error option"

record env =
  o_now :: "hist \<Rightarrow> time"
  o_getFS :: "hist \<Rightarrow> nsname \<Rightarrow> go_error + FailoverService"
  o_updateFS :: "hist \<Rightarrow> FailoverService \<Rightarrow> go_error + FailoverService"
  o_updateFSStatus :: "hist \<Rightarrow> FailoverService \<Rightarrow> go_error + FailoverService"
  o_getEvent :: "hist \<Rightarrow> nsname \<Rightarrow> go_error + FailoverEvent"
  o_getService :: "hist \<Rightarrow> nsname \<Rightarrow> go_error + Service"
  o_getSlice :: "hist \<Rightarrow> nsname \<Rightarrow> go_error + EndpointSlice"
  o_getJob :: "hist \<Rightarrow> nsname \<Rightarrow> go_error + Job"
  o_getWorkload :: "hist \<Rightarrow> string \<Rightarrow> nsname \<Rightarrow> go_error + Workload"
  o_getScale :: "hist \<Rightarrow> string \<Rightarrow> Workload \<Rightarrow> go_error + Scale"
  o_getConfigMap :: "hist \<Rightarrow> nsname \<Rightarrow> go_error + ConfigMap"
  o_listPods :: "hist \<Rightarrow> string \<Rightarrow> string \<Rightarrow> string \<Rightarrow> go_error + Pod list"
  o_listNodes :: "hist \<Rightarrow> string \<Rightarrow> string \<Rightarrow> go_error + Node list"
  o_getSecret :: "hist \<Rightarrow> nsname \<Rightarrow> go_error + Secret"
  o_newClient :: "hist \<Rightarrow> rest_config \<Rightarrow> go_error option"
  o_remoteGetFS :: "hist \<Rightarrow> rclient \<Rightarrow> nsname \<Rightarrow> go_error + FailoverService"
  o_remoteListEvents :: "hist \<Rightarrow> rclient \<Rightarrow> string \<Rightarrow> go_error + FailoverEvent list"
  o_httpDo :: "hist \<Rightarrow> HttpRequest \<Rightarrow> go_error + int"
  o_write :: "hist \<Rightarrow> wcall \<Rightarrow> go_error option"
  o_kernel :: kernel
  o_watching :: watching
  \<comment> \<open>third-party functions without a call\<close>
  x_newRequest :: "string \<Rightarrow> string \<Rightarrow> go_error option"
  x_parseKubeconfig :: "string \<Rightarrow> go_error + rest_config"
  x_setStatusCondition :: "Condition list \<Rightarrow> Condition \<Rightarrow> Condition list"
  x_removeStatusCondition :: "Condition list \<Rightarrow> string \<Rightarrow> Condition list"
  x_containsFinalizer :: "string list \<Rightarrow> string \<Rightarrow> bool"
  x_addFinalizer :: "string list \<Rightarrow> string \<Rightarrow> string list"
  x_removeFinalizer :: "string list \<Rightarrow> string \<Rightarrow> string list"
  x_newControllerRef :: "ObjectMeta \<Rightarrow> gvk \<Rightarrow> OwnerReference"
  x_fromInt32 :: "int \<Rightarrow> IntOrString"
  x_retries :: nat \<comment> \<open>attempts after the first that \<^verbatim>\<open>retry.DefaultRetry\<close> allows\<close>

type_synonym 'a io = "(world, 'a) state"

section \<open>Calls\<close>

definition call :: "(hist \<Rightarrow> 'r) \<Rightarrow> ('r \<Rightarrow> entry) \<Rightarrow> 'r io" where
  "call f ent = State (\<lambda>w. let r = f (w_hist w) in (r, w\<lparr>w_hist := ent r # w_hist w\<rparr>))"

definition now :: "env \<Rightarrow> time io" where
  "now E = call (o_now E) Now"
definition getFS :: "env \<Rightarrow> nsname \<Rightarrow> (go_error + FailoverService) io" where
  "getFS E k = call (\<lambda>h. o_getFS E h k) (GetFS k)"
definition updateFS :: "env \<Rightarrow> FailoverService \<Rightarrow> (go_error + FailoverService) io" where
  "updateFS E fs = call (\<lambda>h. o_updateFS E h fs) (UpdateFS fs)"
definition updateFSStatus :: "env \<Rightarrow> FailoverService \<Rightarrow> (go_error + FailoverService) io" where
  "updateFSStatus E fs = call (\<lambda>h. o_updateFSStatus E h fs) (UpdateFSStatus fs)"
definition getEvent :: "env \<Rightarrow> nsname \<Rightarrow> (go_error + FailoverEvent) io" where
  "getEvent E k = call (\<lambda>h. o_getEvent E h k) (GetEvent k)"
definition getService :: "env \<Rightarrow> nsname \<Rightarrow> (go_error + Service) io" where
  "getService E k = call (\<lambda>h. o_getService E h k) (GetService k)"
definition getSlice :: "env \<Rightarrow> nsname \<Rightarrow> (go_error + EndpointSlice) io" where
  "getSlice E k = call (\<lambda>h. o_getSlice E h k) (GetSlice k)"
definition getJob :: "env \<Rightarrow> nsname \<Rightarrow> (go_error + Job) io" where
  "getJob E k = call (\<lambda>h. o_getJob E h k) (GetJob k)"
definition getWorkload :: "env \<Rightarrow> string \<Rightarrow> nsname \<Rightarrow> (go_error + Workload) io" where
  "getWorkload E kind k = call (\<lambda>h. o_getWorkload E h kind k) (GetWorkload kind k)"
definition getScale :: "env \<Rightarrow> string \<Rightarrow> Workload \<Rightarrow> (go_error + Scale) io" where
  "getScale E kind obj = call (\<lambda>h. o_getScale E h kind obj) (GetScale kind obj)"
definition getConfigMap :: "env \<Rightarrow> nsname \<Rightarrow> (go_error + ConfigMap) io" where
  "getConfigMap E k = call (\<lambda>h. o_getConfigMap E h k) (GetConfigMap k)"
definition listPods :: "env \<Rightarrow> string \<Rightarrow> string \<Rightarrow> string \<Rightarrow> (go_error + Pod list) io" where
  "listPods E ns lk lv = call (\<lambda>h. o_listPods E h ns lk lv) (ListPods ns lk lv)"
definition listNodes :: "env \<Rightarrow> string \<Rightarrow> string \<Rightarrow> (go_error + Node list) io" where
  "listNodes E lk lv = call (\<lambda>h. o_listNodes E h lk lv) (ListNodes lk lv)"
definition getSecret :: "env \<Rightarrow> nsname \<Rightarrow> (go_error + Secret) io" where
  "getSecret E k = call (\<lambda>h. o_getSecret E h k) (GetSecret k)"
definition newClient :: "env \<Rightarrow> rest_config \<Rightarrow> go_error option io" where
  "newClient E c = call (\<lambda>h. o_newClient E h c) (NewClient c)"
definition remoteGetFS :: "env \<Rightarrow> rclient \<Rightarrow> nsname \<Rightarrow> (go_error + FailoverService) io" where
  "remoteGetFS E c k = call (\<lambda>h. o_remoteGetFS E h c k) (RemoteGetFS c k)"
definition remoteListEvents :: "env \<Rightarrow> rclient \<Rightarrow> string \<Rightarrow> (go_error + FailoverEvent list) io" where
  "remoteListEvents E c ns = call (\<lambda>h. o_remoteListEvents E h c ns) (RemoteListEvents c ns)"
definition httpDo :: "env \<Rightarrow> HttpRequest \<Rightarrow> (go_error + int) io" where
  "httpDo E r = call (\<lambda>h. o_httpDo E h r) (HttpDo r)"
definition kwrite :: "env \<Rightarrow> wcall \<Rightarrow> go_error option io" where
  "kwrite E c = call (\<lambda>h. o_write E h c) (Write c)"
definition emit :: "metric \<Rightarrow> unit io" where
  "emit m = call (\<lambda>_. ()) (\<lambda>_. Metric m)"

definition getCache :: "provider_cache io" where
  "getCache = State (\<lambda>w. (w_cache w, w))"
definition setCache :: "provider_cache \<Rightarrow> unit io" where
  "setCache c = State (\<lambda>w. ((), w\<lparr>w_cache := c\<rparr>))"

lemmas call_defs = now_def getFS_def updateFS_def updateFSStatus_def getEvent_def getService_def
  getSlice_def getJob_def getWorkload_def getScale_def getConfigMap_def listPods_def listNodes_def
  getSecret_def newClient_def remoteGetFS_def remoteListEvents_def httpDo_def kwrite_def emit_def

lemma wp_call [wp_rules]:
  "wp (call f ent) Q w = (let r = f (w_hist w) in Q r (w\<lparr>w_hist := ent r # w_hist w\<rparr>))"
  by (simp add: wp_def call_def Let_def)

lemma wp_getCache [wp_rules]: "wp getCache Q w = Q (w_cache w) w"
  by (simp add: wp_def getCache_def)

lemma wp_setCache [wp_rules]: "wp (setCache c) Q w = Q () (w\<lparr>w_cache := c\<rparr>)"
  by (simp add: wp_def setCache_def)

text \<open>\<^verbatim>\<open>retry.OnError\<close> and \<^verbatim>\<open>retry.RetryOnConflict\<close> of client-go: run again while the error is
  retryable, at most \<open>n\<close> further times, and return the last error.\<close>

fun OnError :: "nat \<Rightarrow> (go_error \<Rightarrow> bool) \<Rightarrow> go_error option io \<Rightarrow> go_error option io" where
  "OnError 0 retryable fn = fn"
| "OnError (Suc n) retryable fn =
     do { r \<leftarrow> fn;
          case r of None \<Rightarrow> ret None
          | Some e \<Rightarrow> if retryable e then OnError n retryable fn else ret (Some e) }"

section \<open>Effects\<close>

definition eff :: "(entry \<Rightarrow> bool) \<Rightarrow> 'a io \<Rightarrow> ('a \<Rightarrow> bool) \<Rightarrow> bool" where
  "eff P m Q \<longleftrightarrow> (\<forall>w. wp m (\<lambda>a w'. \<exists>es. w_hist w' = es @ w_hist w \<and> (\<forall>e \<in> set es. P e) \<and> Q a) w)"

abbreviation emits :: "(entry \<Rightarrow> bool) \<Rightarrow> 'a io \<Rightarrow> bool" where
  "emits P m \<equiv> eff P m (\<lambda>_. True)"

text \<open>The entries a program appends, oldest first.\<close>

definition calls :: "'a io \<Rightarrow> world \<Rightarrow> entry list" where
  "calls m w =
     (let h = w_hist (snd (run_state m w)) in rev (take (length h - length (w_hist w)) h))"

definition result :: "'a io \<Rightarrow> world \<Rightarrow> 'a" where
  "result m w = fst (run_state m w)"

definition final :: "'a io \<Rightarrow> world \<Rightarrow> world" where
  "final m w = snd (run_state m w)"

lemma wp_result_final: "wp m Q w \<longleftrightarrow> Q (result m w) (final m w)"
  by (simp add: wp_run result_def final_def)

lemma runsI:
  assumes "wp m (\<lambda>r w'. r = x \<and> w_hist w' = rev cs @ w_hist w) w"
  shows "result m w = x \<and> calls m w = cs"
  using assms by (simp add: wp_run result_def calls_def)

lemma eff_calls: "eff P m Q \<Longrightarrow> e \<in> set (calls m w) \<Longrightarrow> P e"
  unfolding eff_def wp_run calls_def by (auto simp: Let_def dest!: spec [of _ w])

lemma eff_result: "eff P m Q \<Longrightarrow> Q (result m w)"
  unfolding eff_def wp_run result_def by blast

lemma eff_ret [eff_rules, intro]: "Q x \<Longrightarrow> eff P (ret x) Q"
  by (simp add: eff_def)

lemma eff_bind [eff_rules]:
  assumes "eff P m Q" and "\<And>a. Q a \<Longrightarrow> eff P (f a) R"
  shows "eff P (m \<bind> f) R"
  unfolding eff_def wp_bind
proof (rule allI)
  fix w :: world
  have "wp m (\<lambda>a w'. \<exists>es. w_hist w' = es @ w_hist w \<and> (\<forall>e \<in> set es. P e) \<and> Q a) w"
    using assms(1) by (simp add: eff_def)
  then show "wp m (\<lambda>a. wp (f a) (\<lambda>a w'. \<exists>es. w_hist w' = es @ w_hist w \<and> (\<forall>e \<in> set es. P e) \<and> R a)) w"
  proof (rule wp_mono)
    fix a and w1 :: world
    assume "\<exists>es. w_hist w1 = es @ w_hist w \<and> (\<forall>e \<in> set es. P e) \<and> Q a"
    then obtain es where es: "w_hist w1 = es @ w_hist w" "\<forall>e \<in> set es. P e" "Q a" by blast
    from assms(2) [OF es(3)]
    have "wp (f a) (\<lambda>a w'. \<exists>es. w_hist w' = es @ w_hist w1 \<and> (\<forall>e \<in> set es. P e) \<and> R a) w1"
      by (simp add: eff_def)
    then show "wp (f a) (\<lambda>a w'. \<exists>es. w_hist w' = es @ w_hist w \<and> (\<forall>e \<in> set es. P e) \<and> R a) w1"
    proof (rule wp_mono)
      fix b and w2 :: world
      assume "\<exists>fs. w_hist w2 = fs @ w_hist w1 \<and> (\<forall>e \<in> set fs. P e) \<and> R b"
      then obtain fs where "w_hist w2 = fs @ w_hist w1" "\<forall>e \<in> set fs. P e" "R b" by blast
      with es show "\<exists>es. w_hist w2 = es @ w_hist w \<and> (\<forall>e \<in> set es. P e) \<and> R b"
        by (intro exI [of _ "fs @ es"]) auto
    qed
  qed
qed

lemma eff_weaken:
  "eff P m Q \<Longrightarrow> (\<And>e. P e \<Longrightarrow> P' e) \<Longrightarrow> (\<And>a. Q a \<Longrightarrow> Q' a) \<Longrightarrow> eff P' m Q'"
  unfolding eff_def by (fast elim: wp_mono)

lemma emits_weaken: "emits P m \<Longrightarrow> (\<And>e. P e \<Longrightarrow> P' e) \<Longrightarrow> emits P' m"
  by (erule eff_weaken) auto

lemma eff_emits: "eff P m Q \<Longrightarrow> emits P m"
  by (erule eff_weaken) auto

lemma eff_call [eff_rules]: "(\<And>r. P (ent r)) \<Longrightarrow> (\<And>h. Q (f h)) \<Longrightarrow> eff P (call f ent) Q"
  unfolding eff_def wp_call Let_def by (auto intro!: exI [of _ "[_]"])

lemma emits_call: "(\<And>r. P (ent r)) \<Longrightarrow> emits P (call f ent)"
  by (rule eff_call) simp_all

lemma eff_getCache [eff_rules]: "(\<And>c. Q c) \<Longrightarrow> eff P getCache Q"
  by (simp add: eff_def wp_getCache)

lemma eff_setCache [eff_rules]: "Q () \<Longrightarrow> eff P (setCache c) Q"
  by (simp add: eff_def wp_setCache)

lemma eff_if [eff_rules]:
  "(b \<Longrightarrow> eff P m Q) \<Longrightarrow> (\<not> b \<Longrightarrow> eff P n Q) \<Longrightarrow> eff P (if b then m else n) Q"
  by simp

lemma eff_case_option [eff_rules]:
  "(x = None \<Longrightarrow> eff P m Q) \<Longrightarrow> (\<And>a. x = Some a \<Longrightarrow> eff P (f a) Q) \<Longrightarrow>
   eff P (case x of None \<Rightarrow> m | Some a \<Rightarrow> f a) Q"
  by (cases x) auto

lemma eff_case_sum [eff_rules]:
  "(\<And>a. x = Inl a \<Longrightarrow> eff P (f a) Q) \<Longrightarrow> (\<And>a. x = Inr a \<Longrightarrow> eff P (g a) Q) \<Longrightarrow>
   eff P (case x of Inl a \<Rightarrow> f a | Inr a \<Rightarrow> g a) Q"
  by (cases x) auto

lemma eff_case_prod [eff_rules]:
  "(\<And>a b. x = (a, b) \<Longrightarrow> eff P (f a b) Q) \<Longrightarrow> eff P (case x of (a, b) \<Rightarrow> f a b) Q"
  by (cases x) auto

lemma eff_Let [eff_rules]: "(\<And>a. a = x \<Longrightarrow> eff P (f a) Q) \<Longrightarrow> eff P (Let x f) Q"
  by simp

lemma eff_OnError [eff_rules]: "eff P fn Q \<Longrightarrow> Q None \<Longrightarrow> (\<And>e. Q (Some e)) \<Longrightarrow> eff P (OnError n p fn) Q"
proof (induction n)
  case (Suc n)
  then show ?case by (auto intro!: eff_bind [OF Suc.prems(1)] split: option.split)
qed simp

lemmas eff_intros = eff_bind eff_ret eff_call eff_if eff_case_option eff_case_sum eff_case_prod

section \<open>Specifications over the calls of a program\<close>

text \<open>\<open>tspec m R\<close>: whatever the world, \<open>m\<close> only appends to the history, and its value and the calls it
  makes, oldest first, are related by \<open>R\<close>.  The rules run a program symbolically.\<close>

named_theorems tspec_rules "symbolic execution of programs"

definition tspec :: "'a io \<Rightarrow> ('a \<Rightarrow> entry list \<Rightarrow> bool) \<Rightarrow> bool" where
  "tspec m R \<longleftrightarrow> (\<forall>w. wp m (\<lambda>a w'. \<exists>cs. w_hist w' = rev cs @ w_hist w \<and> R a cs) w)"

lemma tspec_calls: "tspec m R \<Longrightarrow> R (result m w) (calls m w)"
  unfolding tspec_def wp_run calls_def result_def by (auto simp: Let_def dest!: spec [of _ w])

lemma tspec_ret [tspec_rules]: "R x [] \<Longrightarrow> tspec (ret x) R"
  by (simp add: tspec_def)

lemma tspec_call [tspec_rules]: "(\<And>h. R (f h) [ent (f h)]) \<Longrightarrow> tspec (call f ent) R"
  unfolding tspec_def wp_call Let_def by (auto intro!: exI [of _ "[_]"])

lemma tspec_bind_call [tspec_rules]:
  assumes "\<And>h. tspec (k (f h)) (\<lambda>x cs. R x (ent (f h) # cs))"
  shows "tspec (call f ent \<bind> k) R"
  unfolding tspec_def wp_bind wp_call Let_def
proof
  fix w :: world
  let ?w = "w\<lparr>w_hist := ent (f (w_hist w)) # w_hist w\<rparr>"
  have "wp (k (f (w_hist w))) (\<lambda>a w'. \<exists>cs. w_hist w' = rev cs @ w_hist ?w \<and> R a (ent (f (w_hist w)) # cs)) ?w"
    using assms [of "w_hist w"] unfolding tspec_def by blast
  then show "wp (k (f (w_hist w))) (\<lambda>a w'. \<exists>cs. w_hist w' = rev cs @ w_hist w \<and> R a cs) ?w"
    by (rule wp_mono) (auto intro: exI [of _ "ent (f (w_hist w)) # _"])
qed

lemma tspec_bind:
  assumes "tspec m S" and "\<And>a cs. S a cs \<Longrightarrow> tspec (k a) (\<lambda>x ds. R x (cs @ ds))"
  shows "tspec (m \<bind> k) R"
  unfolding tspec_def wp_bind
proof
  fix w :: world
  from assms(1) have "wp m (\<lambda>a w'. \<exists>cs. w_hist w' = rev cs @ w_hist w \<and> S a cs) w"
    by (simp add: tspec_def)
  then show "wp m (\<lambda>a. wp (k a) (\<lambda>a w'. \<exists>cs. w_hist w' = rev cs @ w_hist w \<and> R a cs)) w"
  proof (rule wp_mono)
    fix a and w1 :: world
    assume "\<exists>cs. w_hist w1 = rev cs @ w_hist w \<and> S a cs"
    then obtain cs where cs: "w_hist w1 = rev cs @ w_hist w" "S a cs" by blast
    from assms(2) [OF cs(2)]
    have "wp (k a) (\<lambda>x w'. \<exists>ds. w_hist w' = rev ds @ w_hist w1 \<and> R x (cs @ ds)) w1"
      by (simp add: tspec_def)
    then show "wp (k a) (\<lambda>a w'. \<exists>cs. w_hist w' = rev cs @ w_hist w \<and> R a cs) w1"
      by (rule wp_mono) (auto simp: cs intro: exI [of _ "cs @ _"])
  qed
qed

lemma tspec_weaken: "tspec m S \<Longrightarrow> (\<And>a cs. S a cs \<Longrightarrow> R a cs) \<Longrightarrow> tspec m R"
  unfolding tspec_def by (fast elim: wp_mono)

lemma tspec_conj: "tspec m R \<Longrightarrow> tspec m S \<Longrightarrow> tspec m (\<lambda>a cs. R a cs \<and> S a cs)"
  unfolding tspec_def wp_run by (metis append_same_eq rev_rev_ident)

lemma tspec_eff: "eff P m Q \<Longrightarrow> tspec m (\<lambda>a cs. (\<forall>e \<in> set cs. P e) \<and> Q a)"
  unfolding tspec_def eff_def
proof (intro allI)
  fix w :: world
  assume "\<forall>w. wp m (\<lambda>a w'. \<exists>es. w_hist w' = es @ w_hist w \<and> (\<forall>e \<in> set es. P e) \<and> Q a) w"
  then have "wp m (\<lambda>a w'. \<exists>es. w_hist w' = es @ w_hist w \<and> (\<forall>e \<in> set es. P e) \<and> Q a) w" by blast
  then show "wp m (\<lambda>a w'. \<exists>cs. w_hist w' = rev cs @ w_hist w \<and> (\<forall>e \<in> set cs. P e) \<and> Q a) w"
    by (rule wp_mono) (metis rev_rev_ident set_rev)
qed

lemma eff_tspec: "tspec m (\<lambda>a cs. (\<forall>e \<in> set cs. P e) \<and> Q a) \<Longrightarrow> eff P m Q"
  unfolding tspec_def eff_def
proof (intro allI)
  fix w :: world
  assume "\<forall>w. wp m (\<lambda>a w'. \<exists>cs. w_hist w' = rev cs @ w_hist w \<and> (\<forall>e \<in> set cs. P e) \<and> Q a) w"
  then have "wp m (\<lambda>a w'. \<exists>cs. w_hist w' = rev cs @ w_hist w \<and> (\<forall>e \<in> set cs. P e) \<and> Q a) w" by blast
  then show "wp m (\<lambda>a w'. \<exists>es. w_hist w' = es @ w_hist w \<and> (\<forall>e \<in> set es. P e) \<and> Q a) w"
    by (rule wp_mono) (metis set_rev)
qed

lemma tspec_getCache [tspec_rules]: "(\<And>c. tspec (k c) R) \<Longrightarrow> tspec (getCache \<bind> k) R"
  by (simp add: tspec_def wp_getCache)

lemma tspec_setCache [tspec_rules]: "tspec (k ()) R \<Longrightarrow> tspec (setCache c \<bind> k) R"
  unfolding tspec_def wp_bind wp_setCache
proof
  fix w :: world
  assume "\<forall>w. wp (k ()) (\<lambda>a w'. \<exists>cs. w_hist w' = rev cs @ w_hist w \<and> R a cs) w"
  from this [THEN spec, of "w\<lparr>w_cache := c\<rparr>"]
  show "wp (k ()) (\<lambda>a w'. \<exists>cs. w_hist w' = rev cs @ w_hist w \<and> R a cs) (w\<lparr>w_cache := c\<rparr>)" by simp
qed

lemma tspec_if [tspec_rules]:
  "(b \<Longrightarrow> tspec m R) \<Longrightarrow> (\<not> b \<Longrightarrow> tspec n R) \<Longrightarrow> tspec (if b then m else n) R"
  by simp

lemma tspec_case_option [tspec_rules]:
  "(x = None \<Longrightarrow> tspec m R) \<Longrightarrow> (\<And>a. x = Some a \<Longrightarrow> tspec (f a) R) \<Longrightarrow>
   tspec (case x of None \<Rightarrow> m | Some a \<Rightarrow> f a) R"
  by (cases x) auto

lemma tspec_case_sum [tspec_rules]:
  "(\<And>a. x = Inl a \<Longrightarrow> tspec (f a) R) \<Longrightarrow> (\<And>a. x = Inr a \<Longrightarrow> tspec (g a) R) \<Longrightarrow>
   tspec (case x of Inl a \<Rightarrow> f a | Inr a \<Rightarrow> g a) R"
  by (cases x) auto

lemma tspec_case_prod [tspec_rules]:
  "(\<And>a b. x = (a, b) \<Longrightarrow> tspec (f a b) R) \<Longrightarrow> tspec (case x of (a, b) \<Rightarrow> f a b) R"
  by (cases x) auto

lemma tspec_Let [tspec_rules]: "(\<And>a. a = x \<Longrightarrow> tspec (f a) R) \<Longrightarrow> tspec (Let x f) R"
  by simp

text \<open>An attempt that is repeated: the calls of all attempts, the result of the last.\<close>

lemma tspec_OnError:
  assumes "tspec fn R" and "\<And>a b cs ds. R a cs \<Longrightarrow> R b ds \<Longrightarrow> R b (cs @ ds)"
  shows "tspec (OnError n p fn) R"
proof (induction n)
  case 0
  show ?case using assms(1) by simp
next
  case (Suc n)
  show ?case
    unfolding OnError.simps
  proof (rule tspec_bind [OF assms(1)])
    fix a cs
    assume a: "R a cs"
    have "tspec (OnError n p fn) (\<lambda>b ds. R b (cs @ ds))"
      by (rule tspec_weaken [OF Suc.IH]) (rule assms(2) [OF a])
    with a show "tspec (case a of None \<Rightarrow> ret None
        | Some e \<Rightarrow> if p e then OnError n p fn else ret (Some e)) (\<lambda>x ds. R x (cs @ ds))"
      by (auto intro: tspec_ret split: option.split)
  qed
qed

lemma calls_bind_call:
  assumes "tspec (k (f (w_hist w))) (\<lambda>_ cs. R cs)"
  shows "\<exists>cs. calls (call f ent \<bind> k) w = ent (f (w_hist w)) # cs \<and> R cs"
proof -
  let ?w = "w\<lparr>w_hist := ent (f (w_hist w)) # w_hist w\<rparr>"
  have "wp (k (f (w_hist w))) (\<lambda>_ w'. \<exists>cs. w_hist w' = rev cs @ w_hist ?w \<and> R cs) ?w"
    using assms unfolding tspec_def by blast
  then obtain cs where "w_hist (snd (run_state (k (f (w_hist w))) ?w)) = rev (ent (f (w_hist w)) # cs) @ w_hist w" "R cs"
    unfolding wp_run by auto
  then show ?thesis
    by (simp add: calls_def call_def Let_def State_Monad.bind_def split: prod.split)
qed

text \<open>Running two programs in sequence.\<close>

lemma run_bind:
  "result (m \<bind> k) w = result (k (result m w)) (final m w)" "final (m \<bind> k) w = final (k (result m w)) (final m w)"
  by (simp_all add: result_def final_def split: prod.split)

lemma run_ret: "result (ret x) w = x" "final (ret x) w = w"
  by (simp_all add: result_def final_def)

lemma run_call: "result (call f ent) w = f (w_hist w)" "final (call f ent) w = w\<lparr>w_hist := ent (f (w_hist w)) # w_hist w\<rparr>"
  by (simp_all add: result_def final_def call_def Let_def)

lemma final_hist:
  assumes "tspec m R"
  shows "w_hist (final m w) = rev (calls m w) @ w_hist w"
proof -
  from assms have "\<exists>cs. w_hist (final m w) = rev cs @ w_hist w"
    unfolding tspec_def wp_run final_def by blast
  then show ?thesis by (auto simp: calls_def final_def)
qed

lemma calls_bind:
  assumes "tspec m R" and "tspec (k (result m w)) S"
  shows "calls (m \<bind> k) w = calls m w @ calls (k (result m w)) (final m w)"
proof -
  have final: "calls n w = (let h = w_hist (final n w) in rev (take (length h - length (w_hist w)) h))" for n :: "'b io"
    by (simp add: calls_def final_def)
  show ?thesis
    using final_hist [OF assms(1), of w] final_hist [OF assms(2), of "final m w"]
    by (simp add: final [of "m \<bind> k"] run_bind)
qed

text \<open>Further rules for effects.\<close>

lemma eff_returns: "emits P m \<Longrightarrow> (\<And>w. wp m (\<lambda>r _. Q r) w) \<Longrightarrow> eff P m Q"
  unfolding eff_def wp_run by simp

lemma any_call: "emits (\<lambda>_. True) (call f ent)"
  by (rule emits_call) simp

lemma eff_fmap: "emits P m \<Longrightarrow> emits P (m \<bind> (\<lambda>x. ret (f x)))"
  by (erule eff_bind) auto

lemma tspec_case_list:
  "(xs = [] \<Longrightarrow> tspec m R) \<Longrightarrow> (\<And>y ys. xs = y # ys \<Longrightarrow> tspec (k y ys) R) \<Longrightarrow>
   tspec (case xs of [] \<Rightarrow> m | y # ys \<Rightarrow> k y ys) R"
  by (cases xs) simp_all

end
