(* ===== verification/Fixtures.thy ===== *)
theory Fixtures
  imports World
begin

text \<open>
  A concrete environment and a concrete FailoverService, the inputs at which the witnesses of the
  properties are evaluated.  The environment is a quiet cluster: reads find nothing, writes succeed,
  an update echoes the object that was sent, the clock stands at ten seconds.  The kernel of the node has no processes and every call
  but a receive succeeds; the watch loops are cancelled.  Witnesses override single responses.
\<close>

definition notFound :: go_error where
  "notFound = GoError NotFound ''not found''"

definition setCondition :: "Condition list \<Rightarrow> Condition \<Rightarrow> Condition list" where
  "setCondition cs c = filter (\<lambda>d. cond_Type d \<noteq> cond_Type c) cs @ [c]"

definition removeCondition :: "Condition list \<Rightarrow> string \<Rightarrow> Condition list" where
  "removeCondition cs t = filter (\<lambda>d. cond_Type d \<noteq> t) cs"

definition controllerRef :: "ObjectMeta \<Rightarrow> gvk \<Rightarrow> OwnerReference" where
  "controllerRef m g = \<lparr>or_APIVersion = fst g @ ''/'' @ fst (snd g), or_Kind = snd (snd g),
     or_Name = m_Name m, or_UID = m_UID m\<rparr>"

definition quietKernel :: kernel where
  "quietKernel = \<lparr>k_bigEndian = False, k_readDir = (\<lambda>_ _. Inr []), k_stat = (\<lambda>_ _. Inl notFound),
     k_open = (\<lambda>_ _. Inr 3), k_setns = (\<lambda>_ _. None), k_socket = (\<lambda>_. Inr 4), k_bind = (\<lambda>_ _. None),
     k_write = (\<lambda>_ _ _. None), k_setRcvTimeout = (\<lambda>_ _ _. None), k_recvfrom = (\<lambda>_ _ _. Inl notFound)\<rparr>"

definition quietWatching :: watching where
  "quietWatching = \<lparr>s_watchConfigMap = (\<lambda>_ _. None), s_receive = (\<lambda>_. None), s_wait = (\<lambda>_ _. False), s_select = (\<lambda>_. Cancelled),
     s_ctxDone = (\<lambda>_. True), s_newDynamic = (\<lambda>_ _. None), s_listRemote = (\<lambda>_ _. Inr ([], [])), s_retryWatch = (\<lambda>_ _ _. None)\<rparr>"

definition quietEnv :: env where
  "quietEnv = \<lparr>o_now = (\<lambda>_. 10 * 10 ^ 9), o_getFS = (\<lambda>_ _. Inl notFound),
     o_updateFS = (\<lambda>_ fs. Inr fs), o_updateFSStatus = (\<lambda>_ fs. Inr fs),
     o_getEvent = (\<lambda>_ _. Inl notFound), o_getService = (\<lambda>_ _. Inl notFound),
     o_getSlice = (\<lambda>_ _. Inl notFound), o_getJob = (\<lambda>_ _. Inl notFound),
     o_getWorkload = (\<lambda>_ _ _. Inl notFound), o_getScale = (\<lambda>_ _ _. Inl notFound),
     o_getConfigMap = (\<lambda>_ _. Inl notFound), o_listPods = (\<lambda>_ _ _ _. Inr []),
     o_listNodes = (\<lambda>_ _ _. Inr []), o_getSecret = (\<lambda>_ _. Inl notFound),
     o_newClient = (\<lambda>_ _. None), o_remoteGetFS = (\<lambda>_ _ _. Inl notFound),
     o_remoteListEvents = (\<lambda>_ _ _. Inr []), o_httpDo = (\<lambda>_ _. Inr 200),
     o_write = (\<lambda>_ _. None), o_kernel = quietKernel, o_watching = quietWatching, x_newRequest = (\<lambda>_ _. None),
     x_parseKubeconfig = (\<lambda>s. Inr \<lparr>rcfg_Kubeconfig = s, rcfg_Timeout = 0, rcfg_DialTimeout = 0,
       rcfg_DialKeepAlive = 0\<rparr>),
     x_setStatusCondition = setCondition, x_removeStatusCondition = removeCondition,
     x_containsFinalizer = (\<lambda>l f. f \<in> set l), x_addFinalizer = (\<lambda>l f. l @ [f]),
     x_removeFinalizer = (\<lambda>l f. filter (\<lambda>g. g \<noteq> f) l), x_newControllerRef = controllerRef,
     x_fromInt32 = IntVal, x_retries = 4\<rparr>"

lemma quietEnv_simps [simp]:
  "o_now quietEnv h = 10 * 10 ^ 9" "o_getFS quietEnv h k = Inl notFound"
  "o_updateFS quietEnv h fs = Inr fs" "o_updateFSStatus quietEnv h fs = Inr fs"
  "o_getEvent quietEnv h k = Inl notFound" "o_getService quietEnv h k = Inl notFound"
  "o_getSlice quietEnv h k = Inl notFound" "o_getJob quietEnv h k = Inl notFound"
  "o_getWorkload quietEnv h t k = Inl notFound" "o_getScale quietEnv h t x = Inl notFound"
  "o_getConfigMap quietEnv h k = Inl notFound" "o_listPods quietEnv h a b c = Inr []"
  "o_listNodes quietEnv h a b = Inr []" "o_getSecret quietEnv h k = Inl notFound"
  "o_newClient quietEnv h c2 = None" "o_remoteGetFS quietEnv h c3 k = Inl notFound"
  "o_remoteListEvents quietEnv h c3 a = Inr []" "o_httpDo quietEnv h r = Inr 200"
  "o_write quietEnv h c4 = None" "o_kernel quietEnv = quietKernel" "o_watching quietEnv = quietWatching"
  "x_newRequest quietEnv a b = None"
  "x_setStatusCondition quietEnv = setCondition" "x_removeStatusCondition quietEnv = removeCondition"
  "x_containsFinalizer quietEnv l f = (f \<in> set l)" "x_addFinalizer quietEnv l f = l @ [f]"
  "x_removeFinalizer quietEnv l f = filter (\<lambda>g. g \<noteq> f) l"
  "x_newControllerRef quietEnv = controllerRef" "x_fromInt32 quietEnv = IntVal" "x_retries quietEnv = 4"
  by (simp_all add: quietEnv_def)

definition world0 :: world where
  "world0 = \<lparr>w_hist = [], w_cache = \<lparr>pc_Client = None, pc_Config = None, pc_ResourceVer = ''''\<rparr>\<rparr>"

definition sampleAction :: FailoverAction where
  "sampleAction = \<lparr>fa_Name = ''drain'',
     fa_HTTP = Some \<lparr>ha_URL = ''http://db/drain'', ha_Method = ''POST'', ha_Headers = [],
       ha_Body = None, ha_TimeoutSeconds = None\<rparr>,
     fa_Job = None, fa_Scale = None, fa_WaitReady = None, fa_WaitRemote = None,
     fa_IgnoreFailure = False, fa_MaxRetries = None, fa_RetryIntervalSeconds = None\<rparr>"

definition sampleTarget :: ClusterTarget where
  "sampleTarget = \<lparr>ct_PrimaryModeAddress = ''10.0.0.1'', ct_FailoverModeAddress = ''db.example.org'',
     ct_OnFailover = Some \<lparr>ta_PreActions = [sampleAction], ta_PostActions = []\<rparr>,
     ct_OnFailback = None\<rparr>"

definition sampleStatus :: FailoverServiceStatus where
  "sampleStatus = \<lparr>st_ObservedGeneration = 1, st_ActiveCluster = ''a'', st_ActiveGeneration = 3,
     st_LastTransitionTime = None, st_LastKnownFailoverActive = Some False, st_SpecChangeTime = None,
     st_Clusters = [], st_RemoteState = None, st_Transition = None, st_Conditions = []\<rparr>"

definition sampleFS :: FailoverService where
  "sampleFS = \<lparr>fs_Meta = emptyMeta\<lparr>m_Name := ''db'', m_Namespace := ''default'', m_UID := ''u1'',
       m_Generation := 1, m_Annotations := Some [(''k8s-failover.zyno.io/cluster-id'', ''a'')],
       m_Finalizers := [''k8s-failover.zyno.io/finalizer'']\<rparr>,
     fs_Spec = \<lparr>sp_ServiceName = ''db-alias'', sp_Ports = [\<lparr>p_Name = ''sql'', p_Port = 3306,
         p_Protocol = ''''\<rparr>],
       sp_FailoverActive = True, sp_PrimaryCluster = sampleTarget, sp_FailoverCluster = sampleTarget\<rparr>,
     fs_Status = sampleStatus\<rparr>"

lemmas fixture_defs = notFound_def setCondition_def removeCondition_def controllerRef_def world0_def
  sampleAction_def sampleTarget_def sampleStatus_def sampleFS_def emptyMeta_def

end
