(* ===== verification/ServiceManager.thy ===== *)
theory ServiceManager
  imports Fixtures
begin

text \<open>
  \<^verbatim>\<open>src/internal/service/manager.go\<close>: the managed Service and its EndpointSlice.  An address that
  parses as an IP gives a ClusterIP Service without selector and an EndpointSlice; any other
  address gives an ExternalName Service.  Objects not owned by the FailoverService are refused.
\<close>

section \<open>Address selection\<close>

record Manager =
  mgr_ClusterRole :: string

definition selectTarget :: "string \<Rightarrow> FailoverService \<Rightarrow> ClusterTarget" where
  "selectTarget role fs =
     (if role = ''primary'' then sp_PrimaryCluster (fs_Spec fs) else sp_FailoverCluster (fs_Spec fs))"

definition ResolveActiveAddressWithDirection :: "Manager \<Rightarrow> FailoverService \<Rightarrow> bool \<Rightarrow> string" where
  "ResolveActiveAddressWithDirection m fs failoverActive =
     (let target = selectTarget (mgr_ClusterRole m) fs in
      if failoverActive then ct_FailoverModeAddress target else ct_PrimaryModeAddress target)"

definition ResolveActiveAddress :: "Manager \<Rightarrow> FailoverService \<Rightarrow> string" where
  "ResolveActiveAddress m fs = ResolveActiveAddressWithDirection m fs (sp_FailoverActive (fs_Spec fs))"

section \<open>Desired objects\<close>

definition isOwnedBy :: "OwnerReference list \<Rightarrow> FailoverService \<Rightarrow> bool" where
  "isOwnedBy refs fs \<longleftrightarrow> (\<exists>ref \<in> set refs. or_UID ref = m_UID (fs_Meta fs))"

definition managedByLabel :: "string \<times> string" where
  "managedByLabel = (''app.kubernetes.io/managed-by'', ''k8s-failover-manager'')"

definition ServiceTypeExternalName :: string where "ServiceTypeExternalName = ''ExternalName''"
definition ServiceTypeClusterIP :: string where "ServiceTypeClusterIP = ''ClusterIP''"

definition buildExternalNameService :: "env \<Rightarrow> FailoverService \<Rightarrow> string \<Rightarrow> Service" where
  "buildExternalNameService E fs dnsName =
     \<lparr>svc_Meta = emptyMeta\<lparr>m_Name := sp_ServiceName (fs_Spec fs), m_Namespace := fs_Namespace fs,
        m_Labels := Some [managedByLabel],
        m_OwnerReferences := [x_newControllerRef E (fs_Meta fs) FailoverServiceKind]\<rparr>,
      svc_Type = ServiceTypeExternalName, svc_ExternalName = dnsName, svc_ClusterIP = '''',
      svc_Ports = []\<rparr>"

definition defaultProtocol :: "string \<Rightarrow> string" where
  "defaultProtocol p = (if p = '''' then ''TCP'' else p)"

definition buildClusterIPService :: "env \<Rightarrow> FailoverService \<Rightarrow> Service" where
  "buildClusterIPService E fs =
     \<lparr>svc_Meta = emptyMeta\<lparr>m_Name := sp_ServiceName (fs_Spec fs), m_Namespace := fs_Namespace fs,
        m_Labels := Some [managedByLabel],
        m_OwnerReferences := [x_newControllerRef E (fs_Meta fs) FailoverServiceKind]\<rparr>,
      svc_Type = ServiceTypeClusterIP, svc_ExternalName = '''', svc_ClusterIP = '''',
      svc_Ports = map (\<lambda>p. \<lparr>svp_Name = p_Name p, svp_Port = p_Port p,
         svp_TargetPort = x_fromInt32 E (p_Port p), svp_Protocol = defaultProtocol (p_Protocol p)\<rparr>)
        (sp_Ports (fs_Spec fs))\<rparr>"

definition sliceName :: "FailoverService \<Rightarrow> string" where
  "sliceName fs = sp_ServiceName (fs_Spec fs) @ ''-failover''"

definition addressTypeOf :: "string \<Rightarrow> string" where
  "addressTypeOf ip =
     (case ParseIP ip of None \<Rightarrow> ''IPv6'' | Some a \<Rightarrow> if To4 a = None then ''IPv6'' else ''IPv4'')"

definition desiredSlice :: "env \<Rightarrow> FailoverService \<Rightarrow> string \<Rightarrow> EndpointSlice" where
  "desiredSlice E fs ip =
     \<lparr>sl_Meta = emptyMeta\<lparr>m_Name := sliceName fs, m_Namespace := fs_Namespace fs,
        m_Labels := Some [(''kubernetes.io/service-name'', sp_ServiceName (fs_Spec fs)),
          (''endpointslice.kubernetes.io/managed-by'', ''k8s-failover-manager.zyno.io''),
          managedByLabel],
        m_OwnerReferences := [x_newControllerRef E (fs_Meta fs) FailoverServiceKind]\<rparr>,
      sl_AddressType = addressTypeOf ip,
      sl_Endpoints = [\<lparr>end_Addresses = [ip], end_Ready = Some True\<rparr>],
      sl_Ports = map (\<lambda>p. \<lparr>ep_Name = p_Name p, ep_Port = p_Port p,
         ep_Protocol = defaultProtocol (p_Protocol p)\<rparr>) (sp_Ports (fs_Spec fs))\<rparr>"

section \<open>Reconciliation\<close>

definition notOwned :: "string \<Rightarrow> string \<Rightarrow> string \<Rightarrow> string \<Rightarrow> FailoverService \<Rightarrow> go_error" where
  "notOwned kind ns name what fs = Errorf (kind @ '' '' @ ns @ ''/'' @ name @
     '' exists but is not owned by FailoverService '' @ fs_Name fs @ ''; refusing to '' @ what)"

definition reconcileEndpointSlice :: "env \<Rightarrow> FailoverService \<Rightarrow> string \<Rightarrow> go_error option io" where
  "reconcileEndpointSlice E fs ip =
     (let ns = fs_Namespace fs; desired = desiredSlice E fs ip in
      do { r \<leftarrow> getSlice E (ns, sliceName fs);
           case r of
             Inl e \<Rightarrow>
               if IsNotFound e then kwrite E (CreateSlice desired)
               else ret (Some (Errorf_w ''getting endpoint slice'' e))
           | Inr existing \<Rightarrow>
               if \<not> isOwnedBy (m_OwnerReferences (sl_Meta existing)) fs
               then ret (Some (notOwned ''endpointslice'' ns (sliceName fs) ''modify'' fs))
               else kwrite E (UpdateSlice (existing\<lparr>
                 sl_AddressType := addressTypeOf ip,
                 sl_Endpoints := sl_Endpoints desired,
                 sl_Ports := sl_Ports desired,
                 sl_Meta := (sl_Meta existing)\<lparr>m_Labels := m_Labels (sl_Meta desired),
                   m_OwnerReferences := m_OwnerReferences (sl_Meta desired)\<rparr>\<rparr>)) })"

definition deleteEndpointSlice :: "env \<Rightarrow> FailoverService \<Rightarrow> go_error option io" where
  "deleteEndpointSlice E fs =
     (let ns = fs_Namespace fs in
      do { r \<leftarrow> getSlice E (ns, sliceName fs);
           case r of
             Inl e \<Rightarrow>
               if IsNotFound e then ret None
               else ret (Some (Errorf_w ''getting endpoint slice for deletion'' e))
           | Inr existing \<Rightarrow>
               if \<not> isOwnedBy (m_OwnerReferences (sl_Meta existing)) fs
               then ret (Some (notOwned ''endpointslice'' ns (sliceName fs) ''delete'' fs))
               else kwrite E (DeleteSlice existing) })"

definition reconcileExternalNameService :: "env \<Rightarrow> FailoverService \<Rightarrow> string \<Rightarrow> go_error option io" where
  "reconcileExternalNameService E fs dnsName =
     (let svcName = sp_ServiceName (fs_Spec fs); ns = fs_Namespace fs;
          desired = buildExternalNameService E fs dnsName in
      do { r \<leftarrow> getService E (ns, svcName);
           case r of
             Inl e \<Rightarrow>
               if \<not> IsNotFound e then ret (Some (Errorf_w ''getting service'' e))
               else kwrite E (CreateService desired)
           | Inr existing \<Rightarrow>
               if \<not> isOwnedBy (m_OwnerReferences (svc_Meta existing)) fs
               then ret (Some (notOwned ''service'' ns svcName ''modify'' fs))
               else if svc_Type existing = ServiceTypeExternalName then
                 (if svc_ExternalName existing = dnsName then ret None
                  else kwrite E (UpdateService (existing\<lparr>svc_ExternalName := dnsName, svc_Ports := []\<rparr>)))
               else do {
                 de \<leftarrow> deleteEndpointSlice E fs;
                 case de of
                   Some e \<Rightarrow> ret (Some e)
                 | None \<Rightarrow> do {
                     ds \<leftarrow> kwrite E (DeleteService existing);
                     case ds of
                       Some e \<Rightarrow> ret (Some (Errorf_w ''deleting old service'' e))
                     | None \<Rightarrow> kwrite E (CreateService desired) } } })"

definition reconcileClusterIPService :: "env \<Rightarrow> FailoverService \<Rightarrow> string \<Rightarrow> go_error option io" where
  "reconcileClusterIPService E fs ip =
     (let svcName = sp_ServiceName (fs_Spec fs); ns = fs_Namespace fs;
          desired = buildClusterIPService E fs;
          createThenSlice = do {
            c \<leftarrow> kwrite E (CreateService desired);
            case c of Some e \<Rightarrow> ret (Some e) | None \<Rightarrow> reconcileEndpointSlice E fs ip } in
      do { r \<leftarrow> getService E (ns, svcName);
           case r of
             Inl e \<Rightarrow>
               if \<not> IsNotFound e then ret (Some (Errorf_w ''getting service'' e))
               else createThenSlice
           | Inr existing \<Rightarrow>
               if \<not> isOwnedBy (m_OwnerReferences (svc_Meta existing)) fs
               then ret (Some (notOwned ''service'' ns svcName ''modify'' fs))
               else if svc_Type existing = ServiceTypeExternalName then do {
                 ds \<leftarrow> kwrite E (DeleteService existing);
                 case ds of
                   Some e \<Rightarrow> ret (Some (Errorf_w ''deleting old service'' e))
                 | None \<Rightarrow> createThenSlice }
               else do {
                 us \<leftarrow> kwrite E (UpdateService (existing\<lparr>svc_Ports := svc_Ports desired,
                    svc_Meta := (svc_Meta existing)\<lparr>m_OwnerReferences :=
                      m_OwnerReferences (svc_Meta desired)\<rparr>\<rparr>));
                 case us of
                   Some e \<Rightarrow> ret (Some (Errorf_w ''updating service'' e))
                 | None \<Rightarrow> reconcileEndpointSlice E fs ip } })"

definition ReconcileWithAddress :: "env \<Rightarrow> FailoverService \<Rightarrow> string \<Rightarrow> go_error option io" where
  "ReconcileWithAddress E fs address =
     (if is_ip address then reconcileClusterIPService E fs address
      else reconcileExternalNameService E fs address)"

definition ReconcileWithDirection :: "env \<Rightarrow> Manager \<Rightarrow> FailoverService \<Rightarrow> bool \<Rightarrow> go_error option io" where
  "ReconcileWithDirection E m fs failoverActive =
     ReconcileWithAddress E fs (ResolveActiveAddressWithDirection m fs failoverActive)"

definition ServiceReconcile :: "env \<Rightarrow> Manager \<Rightarrow> FailoverService \<Rightarrow> go_error option io" where
  "ServiceReconcile E m fs = ReconcileWithDirection E m fs (sp_FailoverActive (fs_Spec fs))"

lemmas service_defs = ReconcileWithAddress_def reconcileClusterIPService_def
  reconcileExternalNameService_def reconcileEndpointSlice_def deleteEndpointSlice_def

section \<open>What the history knows about the managed objects\<close>

text \<open>The state of an object as of the last call that read or successfully changed it: \<open>None\<close> when
  no call did, \<open>Some None\<close> when it is absent.\<close>

definition svc_key :: "Service \<Rightarrow> nsname" where
  "svc_key s = (m_Namespace (svc_Meta s), m_Name (svc_Meta s))"

definition slice_key :: "EndpointSlice \<Rightarrow> nsname" where
  "slice_key s = (m_Namespace (sl_Meta s), m_Name (sl_Meta s))"

fun service_event :: "entry \<Rightarrow> nsname \<Rightarrow> Service option option" where
  "service_event (Write (CreateService s) None) k = (if svc_key s = k then Some (Some s) else None)"
| "service_event (Write (UpdateService s) None) k = (if svc_key s = k then Some (Some s) else None)"
| "service_event (Write (DeleteService s) None) k = (if svc_key s = k then Some None else None)"
| "service_event (GetService k' (Inr s)) k = (if k' = k then Some (Some s) else None)"
| "service_event (GetService k' (Inl e)) k = (if k' = k \<and> IsNotFound e then Some None else None)"
| "service_event _ k = None"

fun slice_event :: "entry \<Rightarrow> nsname \<Rightarrow> EndpointSlice option option" where
  "slice_event (Write (CreateSlice s) None) k = (if slice_key s = k then Some (Some s) else None)"
| "slice_event (Write (UpdateSlice s) None) k = (if slice_key s = k then Some (Some s) else None)"
| "slice_event (Write (DeleteSlice s) None) k = (if slice_key s = k then Some None else None)"
| "slice_event (GetSlice k' (Inr s)) k = (if k' = k then Some (Some s) else None)"
| "slice_event (GetSlice k' (Inl e)) k = (if k' = k \<and> IsNotFound e then Some None else None)"
| "slice_event _ k = None"

fun last_known :: "(entry \<Rightarrow> nsname \<Rightarrow> 'o option option) \<Rightarrow> hist \<Rightarrow> nsname \<Rightarrow> 'o option option" where
  "last_known ev [] k = None"
| "last_known ev (e # h) k = (case ev e k of Some o1 \<Rightarrow> Some o1 | None \<Rightarrow> last_known ev h k)"

abbreviation known_service :: "hist \<Rightarrow> nsname \<Rightarrow> Service option option" where
  "known_service \<equiv> last_known service_event"
abbreviation known_slice :: "hist \<Rightarrow> nsname \<Rightarrow> EndpointSlice option option" where
  "known_slice \<equiv> last_known slice_event"

text \<open>The contract of the component: the managed objects route to the address.\<close>

definition routes_to :: "env \<Rightarrow> FailoverService \<Rightarrow> string \<Rightarrow> hist \<Rightarrow> bool" where
  "routes_to E fs address h \<longleftrightarrow>
     (\<exists>s. known_service h (fs_Namespace fs, sp_ServiceName (fs_Spec fs)) = Some (Some s) \<and>
       (if is_ip address then
          svc_Type s \<noteq> ServiceTypeExternalName \<and>
          svc_Ports s = svc_Ports (buildClusterIPService E fs) \<and>
          (\<exists>sl. known_slice h (fs_Namespace fs, sliceName fs) = Some (Some sl) \<and>
             sl_Endpoints sl = [\<lparr>end_Addresses = [address], end_Ready = Some True\<rparr>] \<and>
             sl_AddressType sl = addressTypeOf address \<and>
             sl_Ports sl = sl_Ports (desiredSlice E fs address))
        else svc_Type s = ServiceTypeExternalName \<and> svc_ExternalName s = address))"


section \<open>Documented behaviour of the API server\<close>

text \<open>A read returns the object that was asked for.\<close>

definition gets_named :: "env \<Rightarrow> bool" where
  "gets_named E \<longleftrightarrow>
     (\<forall>h k s. o_getService E h k = Inr s \<longrightarrow> svc_key s = k) \<and>
     (\<forall>h k s. o_getSlice E h k = Inr s \<longrightarrow> slice_key s = k)"

text \<open>\<^verbatim>\<open>metav1.NewControllerRef\<close> refers to the given object.\<close>

definition controller_refs :: "env \<Rightarrow> bool" where
  "controller_refs E \<longleftrightarrow>
     (\<forall>m g. or_UID (x_newControllerRef E m g) = m_UID m \<and> or_Name (x_newControllerRef E m g) = m_Name m)"

lemma gets_namedD:
  "gets_named E \<Longrightarrow> o_getService E h k = Inr s \<Longrightarrow> svc_key s = k"
  "gets_named E \<Longrightarrow> o_getSlice E h k = Inr sl \<Longrightarrow> slice_key sl = k"
  by (auto simp: gets_named_def simp del: split_paired_All)

lemma controller_refsD: "controller_refs E \<Longrightarrow> isOwnedBy [x_newControllerRef E (fs_Meta fs) g] fs"
  by (simp add: controller_refs_def isOwnedBy_def del: split_paired_All)

section \<open>Facts about the desired objects\<close>

lemma desired_keys [simp]:
  "svc_key (buildExternalNameService E fs a) = (fs_Namespace fs, sp_ServiceName (fs_Spec fs))"
  "svc_key (buildClusterIPService E fs) = (fs_Namespace fs, sp_ServiceName (fs_Spec fs))"
  "slice_key (desiredSlice E fs a) = (fs_Namespace fs, sliceName fs)"
  by (simp_all add: svc_key_def slice_key_def buildExternalNameService_def buildClusterIPService_def
      desiredSlice_def emptyMeta_def)

lemma desired_content [simp]:
  "svc_Type (buildExternalNameService E fs a) = ServiceTypeExternalName"
  "svc_ExternalName (buildExternalNameService E fs a) = a"
  "svc_Type (buildClusterIPService E fs) = ServiceTypeClusterIP"
  "sl_Endpoints (desiredSlice E fs a) = [\<lparr>end_Addresses = [a], end_Ready = Some True\<rparr>]"
  "sl_AddressType (desiredSlice E fs a) = addressTypeOf a"
  "m_OwnerReferences (svc_Meta (buildExternalNameService E fs a)) =
     [x_newControllerRef E (fs_Meta fs) FailoverServiceKind]"
  "m_OwnerReferences (svc_Meta (buildClusterIPService E fs)) =
     [x_newControllerRef E (fs_Meta fs) FailoverServiceKind]"
  "m_OwnerReferences (sl_Meta (desiredSlice E fs a)) =
     [x_newControllerRef E (fs_Meta fs) FailoverServiceKind]"
  by (simp_all add: buildExternalNameService_def buildClusterIPService_def desiredSlice_def)

lemma service_types_distinct [simp]:
  "ServiceTypeClusterIP \<noteq> ServiceTypeExternalName" "ServiceTypeExternalName \<noteq> ServiceTypeClusterIP"
  by (simp_all add: ServiceTypeClusterIP_def ServiceTypeExternalName_def)

lemma key_updates [simp]:
  "svc_key (s\<lparr>svc_Ports := p\<rparr>) = svc_key s"
  "svc_key (s\<lparr>svc_ExternalName := n\<rparr>) = svc_key s"
  "svc_key (s\<lparr>svc_Meta := (svc_Meta s)\<lparr>m_OwnerReferences := r\<rparr>\<rparr>) = svc_key s"
  "slice_key (sl\<lparr>sl_AddressType := t\<rparr>) = slice_key sl"
  "slice_key (sl\<lparr>sl_Endpoints := ds\<rparr>) = slice_key sl"
  "slice_key (sl\<lparr>sl_Ports := ps\<rparr>) = slice_key sl"
  "slice_key (sl\<lparr>sl_Meta := (sl_Meta sl)\<lparr>m_Labels := l, m_OwnerReferences := r\<rparr>\<rparr>) = slice_key sl"
  by (simp_all add: svc_key_def slice_key_def)

lemma key_update_meta [simp]:
  "slice_key (sl\<lparr>sl_AddressType := t, sl_Endpoints := ds, sl_Ports := ps,
      sl_Meta := (sl_Meta sl)\<lparr>m_Labels := l, m_OwnerReferences := r\<rparr>\<rparr>) = slice_key sl"
  "svc_key (s\<lparr>svc_Ports := p, svc_Meta := (svc_Meta s)\<lparr>m_OwnerReferences := r\<rparr>\<rparr>) = svc_key s"
  by (simp_all add: svc_key_def slice_key_def)

section \<open>Functional correctness\<close>

definition slice_routes_to :: "env \<Rightarrow> FailoverService \<Rightarrow> string \<Rightarrow> hist \<Rightarrow> bool" where
  "slice_routes_to E fs a h \<longleftrightarrow>
     (\<exists>sl. known_slice h (fs_Namespace fs, sliceName fs) = Some (Some sl) \<and>
        sl_Endpoints sl = [\<lparr>end_Addresses = [a], end_Ready = Some True\<rparr>] \<and>
        sl_AddressType sl = addressTypeOf a \<and> sl_Ports sl = sl_Ports (desiredSlice E fs a))"

lemma reconcileEndpointSlice_ok:
  assumes "gets_named E"
  shows "wp (reconcileEndpointSlice E fs a)
    (\<lambda>r w'. (r = None \<longrightarrow> slice_routes_to E fs a (w_hist w')) \<and>
      known_service (w_hist w') k = known_service (w_hist w) k) w"
  using assms
  by (simp add: reconcileEndpointSlice_def call_defs wp_call Let_def slice_routes_to_def gets_namedD
      split: sum.split)

lemma deleteEndpointSlice_service:
  "wp (deleteEndpointSlice E fs) (\<lambda>r w'. known_service (w_hist w') k = known_service (w_hist w) k) w"
  by (simp add: deleteEndpointSlice_def call_defs wp_call Let_def split: sum.split option.split)

lemma reconcileClusterIPService_ok:
  assumes "gets_named E" and "is_ip a"
  shows "wp (reconcileClusterIPService E fs a) (\<lambda>r w'. r = None \<longrightarrow> routes_to E fs a (w_hist w')) w"
proof -
  have slice: "wp (reconcileEndpointSlice E fs a) (\<lambda>r w'. r = None \<longrightarrow> routes_to E fs a (w_hist w')) w1"
    if "known_service (w_hist w1) (fs_Namespace fs, sp_ServiceName (fs_Spec fs)) = Some (Some s)"
      "svc_Type s \<noteq> ServiceTypeExternalName" "svc_Ports s = svc_Ports (buildClusterIPService E fs)"
    for w1 s
    by (rule wp_mono [OF reconcileEndpointSlice_ok
        [OF assms(1), where k = "(fs_Namespace fs, sp_ServiceName (fs_Spec fs))"]])
      (use that assms(2) in \<open>auto simp: routes_to_def slice_routes_to_def\<close>)
  show ?thesis
    unfolding reconcileClusterIPService_def Let_def call_defs
    by (simp add: wp_call Let_def call_defs slice gets_namedD [OF assms(1)] split: sum.split option.split)
qed

lemma reconcileExternalNameService_ok:
  assumes "gets_named E" and "\<not> is_ip a"
  shows "wp (reconcileExternalNameService E fs a) (\<lambda>r w'. r = None \<longrightarrow> routes_to E fs a (w_hist w')) w"
  using assms
  by (simp add: reconcileExternalNameService_def routes_to_def call_defs wp_call Let_def gets_namedD
      deleteEndpointSlice_def split: sum.split option.split)

section \<open>Which calls the component makes\<close>

fun is_service_entry :: "entry \<Rightarrow> bool" where
  "is_service_entry (GetService _ _) = True"
| "is_service_entry (GetSlice _ _) = True"
| "is_service_entry (Write (CreateService _) _) = True"
| "is_service_entry (Write (UpdateService _) _) = True"
| "is_service_entry (Write (DeleteService _) _) = True"
| "is_service_entry (Write (CreateSlice _) _) = True"
| "is_service_entry (Write (UpdateSlice _) _) = True"
| "is_service_entry (Write (DeleteSlice _) _) = True"
| "is_service_entry _ = False"

fun owned_write :: "FailoverService \<Rightarrow> entry \<Rightarrow> bool" where
  "owned_write fs (Write (CreateService s) _) = isOwnedBy (m_OwnerReferences (svc_Meta s)) fs"
| "owned_write fs (Write (UpdateService s) _) = isOwnedBy (m_OwnerReferences (svc_Meta s)) fs"
| "owned_write fs (Write (DeleteService s) _) = isOwnedBy (m_OwnerReferences (svc_Meta s)) fs"
| "owned_write fs (Write (CreateSlice s) _) = isOwnedBy (m_OwnerReferences (sl_Meta s)) fs"
| "owned_write fs (Write (UpdateSlice s) _) = isOwnedBy (m_OwnerReferences (sl_Meta s)) fs"
| "owned_write fs (Write (DeleteSlice s) _) = isOwnedBy (m_OwnerReferences (sl_Meta s)) fs"
| "owned_write fs _ = True"

lemma ReconcileWithAddress_confined: "emits is_service_entry (ReconcileWithAddress E fs a)"
  unfolding service_defs Let_def call_defs
  by (intro eff_intros TrueI) simp_all

lemma ReconcileWithAddress_owned:
  "controller_refs E \<Longrightarrow> emits (owned_write fs) (ReconcileWithAddress E fs a)"
  unfolding service_defs Let_def call_defs
  by (intro eff_intros TrueI) (simp_all add: controller_refsD)

lemma last_known_frame:
  "(\<And>e. e \<in> set es \<Longrightarrow> ev e k = None) \<Longrightarrow> last_known ev (es @ h) k = last_known ev h k"
  by (induction es) auto

lemma non_service_events: "\<not> is_service_entry e \<Longrightarrow> service_event e k = None \<and> slice_event e k = None"
  by (cases "(e, k)" rule: service_event.cases; cases "(e, k)" rule: slice_event.cases) auto

lemma routes_to_frame:
  assumes "\<And>e. e \<in> set es \<Longrightarrow> \<not> is_service_entry e"
  shows "routes_to E fs a (es @ h) = routes_to E fs a h"
proof -
  have "known_service (es @ h) k = known_service h k" "known_slice (es @ h) k = known_slice h k" for k
    using assms by (auto intro!: last_known_frame simp: non_service_events)
  then show ?thesis by (simp add: routes_to_def)
qed


section \<open>The interface to the controller\<close>

text \<open>What a client relies on: the calls stay within Services and EndpointSlices, and success means
  that the managed objects route to the address.\<close>

locale service_switch =
  fixes switch :: "env \<Rightarrow> FailoverService \<Rightarrow> string \<Rightarrow> go_error option io"
  assumes confined: "emits is_service_entry (switch E fs a)"
    and routes: "gets_named E \<Longrightarrow>
      wp (switch E fs a) (\<lambda>r w'. r = None \<longrightarrow> routes_to E fs a (w_hist w')) w"
begin

lemma switched_then:
  assumes "gets_named E" and "\<And>e. emits (\<lambda>e. \<not> is_service_entry e) (err e)"
    and "emits (\<lambda>e. \<not> is_service_entry e) m"
  shows "wp (switch E fs a \<bind> (\<lambda>r. case r of Some e \<Rightarrow> err e | None \<Rightarrow> m))
     (\<lambda>_ w'. result (switch E fs a) w = None \<longrightarrow> routes_to E fs a (w_hist w')) w"
proof (cases "result (switch E fs a) w")
  case None
  let ?w = "final (switch E fs a) w"
  have "routes_to E fs a (w_hist ?w)"
    using routes [OF assms(1)] None by (simp add: wp_result_final)
  moreover from assms(3)
  have "\<exists>es. w_hist (final m ?w) = es @ w_hist ?w \<and> (\<forall>e \<in> set es. \<not> is_service_entry e)"
    by (simp add: eff_def wp_result_final)
  ultimately have "routes_to E fs a (w_hist (final m ?w))"
    by (metis routes_to_frame)
  then show ?thesis
    unfolding wp_bind wp_result_final [of "switch E fs a"] by (simp add: None wp_result_final)
next
  case Some
  then show ?thesis by (simp add: wp_result_final)
qed

end

interpretation svc: service_switch ReconcileWithAddress
proof unfold_locales
  show "emits is_service_entry (ReconcileWithAddress E fs a)" for E fs a
    by (rule ReconcileWithAddress_confined)
  show "gets_named E \<Longrightarrow>
      wp (ReconcileWithAddress E fs a) (\<lambda>r w'. r = None \<longrightarrow> routes_to E fs a (w_hist w')) w" for E fs a w
    by (simp add: ReconcileWithAddress_def reconcileClusterIPService_ok reconcileExternalNameService_ok)
qed

section \<open>Properties\<close>

text \<open>C6: When \<^verbatim>\<open>ReconcileWithAddress\<close> returns without error, the last thing known about the
  managed objects is that they route to the address: an ExternalName Service with that name for a
  DNS name, and for an IP a Service of another type with the ports of the specification together
  with an EndpointSlice holding exactly that IP.\<close>

theorem reconcile_routes_to_address:
  assumes "gets_named E" and "result (ReconcileWithAddress E fs a) w = None"
  shows "routes_to E fs a (w_hist (final (ReconcileWithAddress E fs a) w))"
  using svc.routes [OF assms(1), of fs a w] assms(2) by (simp add: wp_result_final)

theorem reconcile_routes_to_address_witness:
  "routes_to quietEnv sampleFS ''10.0.0.1'' (w_hist (final (ReconcileWithAddress quietEnv sampleFS ''10.0.0.1'') world0))"
proof (rule reconcile_routes_to_address)
  show "gets_named quietEnv" by (simp add: gets_named_def)
  have "is_ip ''10.0.0.1''" by code_simp
  then show "result (ReconcileWithAddress quietEnv sampleFS ''10.0.0.1'') world0 = None"
    by (simp add: result_def service_defs call_defs call_def Let_def notFound_def IsNotFound_def)
qed

text \<open>C37: Every Service and EndpointSlice the manager creates, updates or deletes carries an owner
  reference to the FailoverService it works for.\<close>

theorem reconcile_writes_owned:
  assumes "controller_refs E" and "Write c r \<in> set (calls (ReconcileWithAddress E fs a) w)"
  shows "owned_write fs (Write c r)"
  using eff_calls [OF ReconcileWithAddress_owned [OF assms(1)] assms(2)] .

theorem reconcile_writes_owned_witness:
  "owned_write sampleFS (Write (CreateService (buildExternalNameService quietEnv sampleFS ''db.local'')) None)"
proof (rule reconcile_writes_owned [where E = quietEnv and a = "''db.local''" and w = world0])
  show "controller_refs quietEnv" by (simp add: controller_refs_def controllerRef_def)
  have "\<not> is_ip ''db.local''" by code_simp
  then show "Write (CreateService (buildExternalNameService quietEnv sampleFS ''db.local'')) None
      \<in> set (calls (ReconcileWithAddress quietEnv sampleFS ''db.local'') world0)"
    by (simp add: calls_def service_defs call_defs call_def Let_def notFound_def IsNotFound_def world0_def)
qed

text \<open>A Service of that name that the FailoverService does not own is never touched: the call
  reads it, returns the refusal and makes no further call.\<close>

theorem foreign_service_refused:
  assumes "o_getService E (w_hist w) (fs_Namespace fs, sp_ServiceName (fs_Spec fs)) = Inr s"
    and "\<not> isOwnedBy (m_OwnerReferences (svc_Meta s)) fs"
  shows "result (ReconcileWithAddress E fs a) w =
      Some (notOwned ''service'' (fs_Namespace fs) (sp_ServiceName (fs_Spec fs)) ''modify'' fs) \<and>
    calls (ReconcileWithAddress E fs a) w =
      [GetService (fs_Namespace fs, sp_ServiceName (fs_Spec fs)) (Inr s)]"
  by (rule runsI)
    (simp add: assms ReconcileWithAddress_def reconcileClusterIPService_def
      reconcileExternalNameService_def call_defs wp_call Let_def)

end
