(* ===== verification/RemoteCluster.thy ===== *)
theory RemoteCluster
  imports Fixtures
begin

text \<open>
  \<^verbatim>\<open>src/internal/remotecluster\<close>: the cached client of the other cluster (\<^verbatim>\<open>client.go\<close>) and the
  push-based synchronisation of \<^verbatim>\<open>spec.failoverActive\<close> with its conflict resolution (\<^verbatim>\<open>syncer.go\<close>).
\<close>

section \<open>ClientProvider\<close>

record ClientProvider =
  cp_SecretName :: string
  cp_SecretNamespace :: string

definition tuneRESTConfig :: "rest_config \<Rightarrow> rest_config" where
  "tuneRESTConfig cfg =
     (let cfg = cfg\<lparr>rcfg_DialTimeout := 5 * second, rcfg_DialKeepAlive := 10 * second\<rparr> in
      if rcfg_Timeout cfg = 0 then cfg\<lparr>rcfg_Timeout := 30 * second\<rparr> else cfg)"

definition GetClient :: "env \<Rightarrow> ClientProvider \<Rightarrow> (go_error + rclient) io" where
  "GetClient E p =
     do { r \<leftarrow> getSecret E (cp_SecretNamespace p, cp_SecretName p);
          case r of
            Inl e \<Rightarrow> ret (Inl (Errorf_w ''getting remote kubeconfig secret'' e))
          | Inr secret \<Rightarrow> do {
              c \<leftarrow> getCache;
              if pc_Client c \<noteq> None \<and> pc_ResourceVer c = sec_ResourceVersion secret
              then ret (Inr (the (pc_Client c)))
              else case Option.bind (sec_Data secret) (\<lambda>d. mlookup d ''kubeconfig'') of
                None \<Rightarrow> ret (Inl (Errorf (''secret '' @ cp_SecretNamespace p @ ''/'' @ cp_SecretName p
                   @ '' missing 'kubeconfig' key'')))
              | Some kubeconfigData \<Rightarrow>
                  case x_parseKubeconfig E kubeconfigData of
                    Inl e \<Rightarrow> ret (Inl (Errorf_w ''parsing remote kubeconfig'' e))
                  | Inr restConfig \<Rightarrow> do {
                      let cfg = tuneRESTConfig restConfig;
                      n \<leftarrow> newClient E cfg;
                      case n of
                        Some e \<Rightarrow> ret (Inl (Errorf_w ''creating remote client'' e))
                      | None \<Rightarrow> do {
                          setCache \<lparr>pc_Client = Some (RClient cfg), pc_Config = Some cfg,
                             pc_ResourceVer = sec_ResourceVersion secret\<rparr>;
                          ret (Inr (RClient cfg)) } } } }"

definition SecretResourceVersion :: "env \<Rightarrow> ClientProvider \<Rightarrow> (go_error + string) io" where
  "SecretResourceVersion E p =
     do { r \<leftarrow> getSecret E (cp_SecretNamespace p, cp_SecretName p);
          case r of
            Inl e \<Rightarrow> ret (Inl (Errorf_w ''getting remote kubeconfig secret'' e))
          | Inr secret \<Rightarrow> ret (Inr (sec_ResourceVersion secret)) }"

section \<open>Syncer\<close>

record SyncResult =
  sr_RemoteWins :: bool
  sr_RemoteState :: RemoteState

record Syncer =
  sy_ClientProvider :: ClientProvider
  sy_ClusterID :: string
  sy_SyncTimeout :: int

definition clusterIDAnnotation :: string where
  "clusterIDAnnotation = ''k8s-failover.zyno.io/cluster-id''"

definition DefaultSyncTimeout :: int where
  "DefaultSyncTimeout = 30 * second"

definition syncTimeout :: "Syncer \<Rightarrow> int" where
  "syncTimeout s = (if sy_SyncTimeout s > 0 then sy_SyncTimeout s else DefaultSyncTimeout)"

definition remoteClusterID :: "FailoverService \<Rightarrow> string" where
  "remoteClusterID remote = mget (m_Annotations (fs_Meta remote)) clusterIDAnnotation"

definition SetClusterIDAnnotation :: "FailoverService \<Rightarrow> string \<Rightarrow> FailoverService" where
  "SetClusterIDAnnotation fs clusterID =
     fs\<lparr>fs_Meta := (fs_Meta fs)\<lparr>m_Annotations := Some (mupdate clusterIDAnnotation clusterID
        (case m_Annotations (fs_Meta fs) of None \<Rightarrow> [] | Some a \<Rightarrow> a))\<rparr>\<rparr>"

text \<open>The conflict resolution of \<^verbatim>\<open>Sync\<close>, reached when the two specifications disagree.\<close>

definition remoteWins :: "string \<Rightarrow> FailoverService \<Rightarrow> FailoverService \<Rightarrow> bool" where
  "remoteWins clusterID remote local =
     (let rg = st_ActiveGeneration (fs_Status remote); lg = st_ActiveGeneration (fs_Status local) in
      if rg > lg then True
      else if rg = lg then
        (case (st_SpecChangeTime (fs_Status remote), st_SpecChangeTime (fs_Status local)) of
           (Some remoteTime, Some localTime) \<Rightarrow>
             if remoteTime > localTime then True
             else if localTime > remoteTime then False
             else str_less clusterID (remoteClusterID remote)
         | _ \<Rightarrow> str_less clusterID (remoteClusterID remote))
      else False)"

definition pushState :: "env \<Rightarrow> rclient \<Rightarrow> FailoverService \<Rightarrow> go_error option io" where
  "pushState E c local =
     OnError (x_retries E) IsConflict
       (do { r \<leftarrow> remoteGetFS E c (fs_Namespace local, fs_Name local);
             case r of
               Inl e \<Rightarrow> ret (Some e)
             | Inr remote \<Rightarrow>
                 kwrite E (RemoteUpdateFS c (remote\<lparr>fs_Spec := (fs_Spec remote)\<lparr>sp_FailoverActive :=
                   sp_FailoverActive (fs_Spec local)\<rparr>\<rparr>)) })"

definition syncBody :: "env \<Rightarrow> Syncer \<Rightarrow> FailoverService \<Rightarrow> (go_error + SyncResult) io" where
  "syncBody E s local =
     do { cl \<leftarrow> GetClient E (sy_ClientProvider s);
          case cl of
            Inl e \<Rightarrow> ret (Inl (Errorf_w ''getting remote client'' e))
          | Inr c \<Rightarrow> do {
              r \<leftarrow> remoteGetFS E c (fs_Namespace local, fs_Name local);
              case r of
                Inl e \<Rightarrow> ret (Inl (Errorf_w ''getting remote FailoverService'' e))
              | Inr remote \<Rightarrow> do {
                  t \<leftarrow> now E;
                  let state = \<lparr>rs_FailoverActive = sp_FailoverActive (fs_Spec remote),
                    rs_ActiveCluster = st_ActiveCluster (fs_Status remote),
                    rs_ActiveGeneration = st_ActiveGeneration (fs_Status remote),
                    rs_LastSyncTime = Some t, rs_ClusterID = remoteClusterID remote,
                    rs_SpecChangeTime = st_SpecChangeTime (fs_Status remote)\<rparr>;
                  if sp_FailoverActive (fs_Spec remote) = sp_FailoverActive (fs_Spec local)
                  then ret (Inr \<lparr>sr_RemoteWins = False, sr_RemoteState = state\<rparr>)
                  else if remoteWins (sy_ClusterID s) remote local
                  then ret (Inr \<lparr>sr_RemoteWins = True, sr_RemoteState = state\<rparr>)
                  else do {
                    p \<leftarrow> pushState E c local;
                    case p of
                      Some e \<Rightarrow> ret (Inl (Errorf_w (if IsConflict e
                        then ''pushing state to remote (conflict)'' else ''pushing state to remote'') e))
                    | None \<Rightarrow> ret (Inr \<lparr>sr_RemoteWins = False,
                        sr_RemoteState = state\<lparr>rs_FailoverActive := sp_FailoverActive (fs_Spec local),
                          rs_LastSyncTime := Some t\<rparr>\<rparr>) } } } }"

text \<open>The deferred observation of the duration runs on every return.\<close>

definition Sync :: "env \<Rightarrow> Syncer \<Rightarrow> FailoverService \<Rightarrow> (go_error + SyncResult) io" where
  "Sync E s local =
     do { start \<leftarrow> now E;
          r \<leftarrow> syncBody E s local;
          t \<leftarrow> now E;
          emit (RemoteSyncDuration (t - start));
          ret r }"


section \<open>Conflict resolution\<close>

text \<open>Two parties that disagree, each deciding from its own side whether the other one wins.\<close>

locale tie_breaker =
  fixes eligible :: "'s \<Rightarrow> 's \<Rightarrow> bool" and beaten_by :: "'s \<Rightarrow> 's \<Rightarrow> bool" and val :: "'s \<Rightarrow> 'v"
  assumes eligible_sym: "eligible a b \<Longrightarrow> eligible b a"
    and beaten_asym: "eligible a b \<Longrightarrow> beaten_by a b \<Longrightarrow> \<not> beaten_by b a"
    and beaten_total: "eligible a b \<Longrightarrow> beaten_by a b \<or> beaten_by b a"
begin

definition settled :: "'s \<Rightarrow> 's \<Rightarrow> 'v" where
  "settled a b = (if beaten_by a b then val b else val a)"

lemma one_winner: "eligible a b \<Longrightarrow> beaten_by a b \<longleftrightarrow> \<not> beaten_by b a"
  using beaten_asym beaten_total by blast

lemma settled_agree: "eligible a b \<Longrightarrow> settled a b = settled b a"
  using one_winner [of a b] by (simp add: settled_def)

end

text \<open>From the side of \<open>a\<close>, which is annotated with its own cluster ID.\<close>

definition beatenBy :: "FailoverService \<Rightarrow> FailoverService \<Rightarrow> bool" where
  "beatenBy a b = remoteWins (remoteClusterID a) b a"

definition distinctIDs :: "FailoverService \<Rightarrow> FailoverService \<Rightarrow> bool" where
  "distinctIDs a b \<longleftrightarrow> remoteClusterID a \<noteq> remoteClusterID b"

interpretation tb: tie_breaker distinctIDs beatenBy "\<lambda>fs. sp_FailoverActive (fs_Spec fs)"
proof unfold_locales
  show "distinctIDs a b \<Longrightarrow> distinctIDs b a" for a b by (simp add: distinctIDs_def)
  show "distinctIDs a b \<Longrightarrow> beatenBy a b \<Longrightarrow> \<not> beatenBy b a" for a b
    by (auto simp: beatenBy_def remoteWins_def Let_def dest: str_less_antisym
        split: if_splits option.splits)
  show "distinctIDs a b \<Longrightarrow> beatenBy a b \<or> beatenBy b a" for a b
    using str_less_total [of "remoteClusterID a" "remoteClusterID b"]
    by (auto simp: beatenBy_def distinctIDs_def remoteWins_def Let_def split: option.splits)
qed

text \<open>When both objects carry the time of their last change, the conflict resolution compares priorities: the
  generation, then the time, then the cluster ID.  Priorities are linearly ordered, so among any number of clusters
  with different IDs one state prevails.\<close>

datatype priority = Priority (pr_generation: int) (pr_time: time) (pr_id: string)

instantiation priority :: linorder
begin

definition less_priority :: "priority \<Rightarrow> priority \<Rightarrow> bool" where
  "p < q \<longleftrightarrow> pr_generation p < pr_generation q \<or> pr_generation p = pr_generation q \<and>
     (pr_time p < pr_time q \<or> pr_time p = pr_time q \<and> str_less (pr_id p) (pr_id q))"

definition less_eq_priority :: "priority \<Rightarrow> priority \<Rightarrow> bool" where
  "p \<le> q \<longleftrightarrow> p = q \<or> p < q" for p q :: priority

instance
proof
  fix x y z :: priority
  show "(x < y) = (x \<le> y \<and> \<not> y \<le> x)"
    by (auto simp: less_eq_priority_def less_priority_def dest: str_less_antisym)
  show "x \<le> y \<Longrightarrow> y \<le> z \<Longrightarrow> x \<le> z"
    by (auto simp: less_eq_priority_def less_priority_def intro: str_less_trans)
  show "x \<le> y \<Longrightarrow> y \<le> x \<Longrightarrow> x = y"
    by (auto simp: less_eq_priority_def less_priority_def dest: str_less_antisym)
  show "x \<le> y \<or> y \<le> x"
    using str_less_total [of "pr_id x" "pr_id y"]
    by (cases x; cases y) (auto simp: less_eq_priority_def less_priority_def)
qed (simp add: less_eq_priority_def)

end

definition priorityOf :: "string \<Rightarrow> FailoverService \<Rightarrow> time \<Rightarrow> priority" where
  "priorityOf clusterID fs t = Priority (st_ActiveGeneration (fs_Status fs)) t clusterID"

lemma remoteWins_priority:
  assumes "st_SpecChangeTime (fs_Status remote) = Some t1" "st_SpecChangeTime (fs_Status local) = Some t2"
  shows "remoteWins clusterID remote local \<longleftrightarrow> priorityOf clusterID local t2 < priorityOf (remoteClusterID remote) remote t1"
  using assms by (auto simp: remoteWins_def priorityOf_def less_priority_def Let_def)

text \<open>What a successful \<^verbatim>\<open>Sync\<close> means: the relation between its result and its calls.\<close>

fun is_push :: "entry \<Rightarrow> bool" where
  "is_push (Write (RemoteUpdateFS _ _) _) = True"
| "is_push _ = False"

text \<open>A push carries the value \<open>v\<close> and goes through the client \<open>c\<close>; a successful one is in the calls.\<close>

fun push_ok :: "rclient \<Rightarrow> bool \<Rightarrow> entry \<Rightarrow> bool" where
  "push_ok c v (Write (RemoteUpdateFS c' f) _) = (c' = c \<and> sp_FailoverActive (fs_Spec f) = v)"
| "push_ok c v _ = True"

definition pushed :: "rclient \<Rightarrow> bool \<Rightarrow> entry list \<Rightarrow> bool" where
  "pushed c v cs \<longleftrightarrow> (\<exists>f. sp_FailoverActive (fs_Spec f) = v \<and> Write (RemoteUpdateFS c f) None \<in> set cs)"

lemma pushed_append [simp]: "pushed c v (cs @ ds) \<longleftrightarrow> pushed c v cs \<or> pushed c v ds"
  by (auto simp: pushed_def)

lemma pushed_ConsI [simp]: "pushed c v cs \<Longrightarrow> pushed c v (e # cs)"
  by (auto simp: pushed_def)

lemma not_push_ok [simp]: "\<not> is_push e \<Longrightarrow> push_ok c v e"
  by (cases "(c, v, e)" rule: push_ok.cases) auto

definition observed :: "FailoverService \<Rightarrow> RemoteState \<Rightarrow> bool" where
  "observed remote st \<longleftrightarrow> rs_ActiveCluster st = st_ActiveCluster (fs_Status remote) \<and>
     rs_ActiveGeneration st = st_ActiveGeneration (fs_Status remote) \<and>
     rs_ClusterID st = remoteClusterID remote \<and> rs_SpecChangeTime st = st_SpecChangeTime (fs_Status remote)"

definition specs_differ :: "FailoverService \<Rightarrow> FailoverService \<Rightarrow> bool" where
  "specs_differ a b \<longleftrightarrow> sp_FailoverActive (fs_Spec a) \<noteq> sp_FailoverActive (fs_Spec b)"

text \<open>Either no push was made, and then the result says whether the remote won a disagreement; or the
  remote object read through \<open>c\<close> disagrees and loses, every push goes to \<open>c\<close> with the local value,
  and a result without error means that a push succeeded.\<close>

definition sync_kept :: "Syncer \<Rightarrow> FailoverService \<Rightarrow> FailoverService \<Rightarrow> SyncResult \<Rightarrow> bool" where
  "sync_kept s local remote x \<longleftrightarrow> observed remote (sr_RemoteState x) \<and>
     rs_FailoverActive (sr_RemoteState x) = sp_FailoverActive (fs_Spec remote) \<and>
     sr_RemoteWins x = specs_differ remote local \<and>
     (specs_differ remote local \<longrightarrow> remoteWins (sy_ClusterID s) remote local)"

definition sync_pushed :: "Syncer \<Rightarrow> FailoverService \<Rightarrow> FailoverService \<Rightarrow> go_error + SyncResult \<Rightarrow> bool" where
  "sync_pushed s local remote r \<longleftrightarrow>
     specs_differ remote local \<and> \<not> remoteWins (sy_ClusterID s) remote local \<and>
     (\<forall>x. r = Inr x \<longrightarrow> \<not> sr_RemoteWins x \<and> observed remote (sr_RemoteState x) \<and>
        rs_FailoverActive (sr_RemoteState x) = sp_FailoverActive (fs_Spec local))"

definition sync_contract ::
    "Syncer \<Rightarrow> FailoverService \<Rightarrow> go_error + SyncResult \<Rightarrow> entry list \<Rightarrow> bool" where
  "sync_contract s local r cs \<longleftrightarrow>
     ((\<forall>e \<in> set cs. \<not> is_push e) \<and>
      (\<forall>x. r = Inr x \<longrightarrow>
        (\<exists>c remote. RemoteGetFS c (fs_Namespace local, fs_Name local) (Inr remote) \<in> set cs \<and>
          sync_kept s local remote x))) \<or>
     (\<exists>c remote. RemoteGetFS c (fs_Namespace local, fs_Name local) (Inr remote) \<in> set cs \<and>
        sync_pushed s local remote r \<and>
        (\<forall>e \<in> set cs. push_ok c (sp_FailoverActive (fs_Spec local)) e) \<and>
        (\<forall>x. r = Inr x \<longrightarrow> pushed c (sp_FailoverActive (fs_Spec local)) cs))"

lemma GetClient_calls: "emits (\<lambda>e. (\<exists>k r. e = GetSecret k r) \<or> (\<exists>c r. e = NewClient c r)) (GetClient E p)"
  unfolding GetClient_def Let_def call_defs
  by (intro eff_intros eff_getCache eff_setCache TrueI) simp_all

lemma pushState_contract:
  "tspec (pushState E c local) (\<lambda>r cs.
     (\<forall>e \<in> set cs. push_ok c (sp_FailoverActive (fs_Spec local)) e) \<and>
     (r = None \<longrightarrow> pushed c (sp_FailoverActive (fs_Spec local)) cs))"
  unfolding pushState_def call_defs
  by (rule tspec_OnError; (intro tspec_rules)?) (auto simp: pushed_def)

lemma syncBody_contract: "tspec (syncBody E s local) (sync_contract s local)"
  unfolding syncBody_def
proof (rule tspec_bind [OF tspec_eff [OF GetClient_calls]], goal_cases)
  case (1 cl cs)
  then have cs: "\<forall>e \<in> set cs. \<not> is_push e" by auto
  show ?case
    unfolding Let_def now_def remoteGetFS_def
  proof (intro tspec_case_sum tspec_bind_call tspec_if tspec_ret tspec_bind [OF pushState_contract]
      tspec_case_option, goal_cases)
    case (6 c h remote h' p ds e)
    with cs show ?case
      unfolding sync_contract_def
      by (intro disjI2 exI [of _ c] exI [of _ remote]) (auto simp: sync_pushed_def specs_differ_def)
  next
    case (5 c h remote h' p ds)
    with cs show ?case
      unfolding sync_contract_def
      by (intro disjI2 exI [of _ c] exI [of _ remote]) (auto simp: sync_pushed_def specs_differ_def observed_def)
  qed (use cs in \<open>auto simp: sync_contract_def sync_kept_def specs_differ_def observed_def\<close>)
qed

lemma Sync_contract: "tspec (Sync E s local) (sync_contract s local)"
proof -
  have quiet: "sync_contract s local r (ds @ cs @ es)"
    if sc: "sync_contract s local r cs" and q: "\<forall>e \<in> set ds \<union> set es. \<not> is_push e" for r cs ds es
    using sc [unfolded sync_contract_def]
  proof (elim disjE)
    assume "\<exists>c remote. RemoteGetFS c (fs_Namespace local, fs_Name local) (Inr remote) \<in> set cs \<and>
        sync_pushed s local remote r \<and>
        (\<forall>e \<in> set cs. push_ok c (sp_FailoverActive (fs_Spec local)) e) \<and>
        (\<forall>x. r = Inr x \<longrightarrow> pushed c (sp_FailoverActive (fs_Spec local)) cs)"
    with q show ?thesis unfolding sync_contract_def by (intro disjI2) fastforce
  qed (use q in \<open>unfold sync_contract_def, intro disjI1, fastforce\<close>)
  show ?thesis
    unfolding Sync_def now_def emit_def
    by (intro tspec_bind_call tspec_bind [OF syncBody_contract] tspec_ret)
      (use quiet [of _ _ "[Now _]" "[Now _, Metric _]"] in simp)
qed

section \<open>The cached client\<close>

text \<open>The client a Secret stands for, and the invariant of the cache: it holds the client of some
  earlier state of the Secret, under that state's resource version.\<close>

definition clientOf :: "env \<Rightarrow> Secret \<Rightarrow> rclient option" where
  "clientOf E secret =
     (case Option.bind (sec_Data secret) (\<lambda>d. mlookup d ''kubeconfig'') of None \<Rightarrow> None
      | Some d \<Rightarrow> (case x_parseKubeconfig E d of Inl _ \<Rightarrow> None | Inr c \<Rightarrow> Some (RClient (tuneRESTConfig c))))"

definition cache_ok :: "env \<Rightarrow> ClientProvider \<Rightarrow> provider_cache \<Rightarrow> bool" where
  "cache_ok E p c \<longleftrightarrow> (\<forall>cl. pc_Client c = Some cl \<longrightarrow>
     (\<exists>h secret. o_getSecret E h (cp_SecretNamespace p, cp_SecretName p) = Inr secret \<and>
        sec_ResourceVersion secret = pc_ResourceVer c \<and> clientOf E secret = Some cl))"

text \<open>Documented behaviour of the API server: a resource version identifies one state of an object.\<close>

definition versions_identify :: "env \<Rightarrow> bool" where
  "versions_identify E \<longleftrightarrow> (\<forall>h h' k s s'. o_getSecret E h k = Inr s \<longrightarrow> o_getSecret E h' k = Inr s' \<longrightarrow>
     sec_ResourceVersion s = sec_ResourceVersion s' \<longrightarrow> sec_Data s = sec_Data s')"

lemma versions_identifyD:
  "versions_identify E \<Longrightarrow> o_getSecret E h k = Inr s \<Longrightarrow> o_getSecret E h' k = Inr s' \<Longrightarrow>
   sec_ResourceVersion s = sec_ResourceVersion s' \<Longrightarrow> clientOf E s = clientOf E s'"
  unfolding versions_identify_def clientOf_def by (metis (mono_tags, lifting))

lemma GetClient_current:
  assumes "versions_identify E" and "cache_ok E p (w_cache w)"
  shows "wp (GetClient E p) (\<lambda>r w'. cache_ok E p (w_cache w') \<and>
     (\<forall>cl. r = Inr cl \<longrightarrow> (\<exists>secret. o_getSecret E (w_hist w) (cp_SecretNamespace p, cp_SecretName p) = Inr secret \<and>
        clientOf E secret = Some cl))) w"
proof (cases "o_getSecret E (w_hist w) (cp_SecretNamespace p, cp_SecretName p)")
  case (Inl e)
  with assms(2) show ?thesis by (simp add: GetClient_def call_defs wp_rules Let_def)
next
  case (Inr secret)
  have cached: "clientOf E secret = Some cl"
    if "pc_Client (w_cache w) = Some cl" "pc_ResourceVer (w_cache w) = sec_ResourceVersion secret" for cl
    using assms(2) that versions_identifyD [OF assms(1) Inr] unfolding cache_ok_def by metis
  have fresh: "cache_ok E p \<lparr>pc_Client = Some cl, pc_Config = g, pc_ResourceVer = sec_ResourceVersion secret\<rparr>"
    if "clientOf E secret = Some cl" for cl g
    using Inr that by (auto simp: cache_ok_def simp del: split_paired_Ex)
  show ?thesis
  proof (cases "pc_Client (w_cache w) \<noteq> None \<and> pc_ResourceVer (w_cache w) = sec_ResourceVersion secret")
    case True
    with Inr assms(2) cached show ?thesis by (auto simp: GetClient_def call_defs wp_rules Let_def)
  next
    case False
    show ?thesis
      unfolding GetClient_def getSecret_def newClient_def wp_bind wp_call wp_getCache wp_case_sum wp_if
        Let_def Inr sum.case world.simps
      by (use assms(2) fresh False in \<open>auto simp: clientOf_def wp_rules Let_def Inr split: option.split sum.split\<close>)
  qed
qed


text \<open>The direction a cluster acts on after a successful \<^verbatim>\<open>Sync\<close>.\<close>

definition adopted :: "FailoverService \<Rightarrow> SyncResult \<Rightarrow> bool" where
  "adopted local x = (if sr_RemoteWins x then rs_FailoverActive (sr_RemoteState x) else sp_FailoverActive (fs_Spec local))"

lemma Sync_adopted:
  assumes "\<And>h c k. o_remoteGetFS E h c k = Inr remote" and "sy_ClusterID s = remoteClusterID local"
  shows "tspec (Sync E s local) (\<lambda>r _. \<forall>x. r = Inr x \<longrightarrow> adopted local x = tb.settled local remote)"
proof -
  have "tspec (syncBody E s local) (\<lambda>r _. \<forall>x. r = Inr x \<longrightarrow> adopted local x = tb.settled local remote)"
    unfolding syncBody_def now_def remoteGetFS_def Let_def
    by (intro tspec_bind [OF tspec_eff [OF GetClient_calls]] tspec_case_sum tspec_bind_call tspec_if
        tspec_ret tspec_bind [OF pushState_contract] tspec_case_option)
      (auto simp: assms adopted_def tb.settled_def beatenBy_def)
  then show ?thesis
    unfolding Sync_def now_def emit_def
    by (intro tspec_bind_call tspec_ret) (erule tspec_bind, intro tspec_bind_call tspec_ret)
qed

section \<open>Properties\<close>

text \<open>When the two clusters carry different IDs and disagree, exactly one of them loses: the one
  finds that the other wins if and only if the other does not find the same.\<close>

theorem conflict_has_one_winner:
  assumes "remoteClusterID a \<noteq> remoteClusterID b"
  shows "remoteWins (remoteClusterID a) b a \<longleftrightarrow> \<not> remoteWins (remoteClusterID b) a b"
  using tb.one_winner [of a b] assms by (simp add: distinctIDs_def beatenBy_def)

text \<open>C7: If each cluster synchronises against the other one's object and both succeed, they act on
  the same \<^verbatim>\<open>failoverActive\<close> afterwards, whichever environments, caches and retries were involved.\<close>

theorem clusters_agree_after_sync:
  assumes "\<And>h c k. o_remoteGetFS EA h c k = Inr b" and "\<And>h c k. o_remoteGetFS EB h c k = Inr a"
    and "sy_ClusterID sa = remoteClusterID a" and "sy_ClusterID sb = remoteClusterID b"
    and "remoteClusterID a \<noteq> remoteClusterID b"
    and "result (Sync EA sa a) wa = Inr x" and "result (Sync EB sb b) wb = Inr y"
  shows "adopted a x = adopted b y"
proof -
  have "adopted a x = tb.settled a b" "adopted b y = tb.settled b a"
    using tspec_calls [OF Sync_adopted [OF assms(1) assms(3)], of wa]
      tspec_calls [OF Sync_adopted [OF assms(2) assms(4)], of wb] assms(6,7) by simp_all
  moreover have "tb.settled a b = tb.settled b a"
    by (rule tb.settled_agree) (simp add: distinctIDs_def assms(5))
  ultimately show ?thesis by simp
qed

definition otherFS :: FailoverService where
  "otherFS = SetClusterIDAnnotation (sampleFS\<lparr>fs_Spec := (fs_Spec sampleFS)\<lparr>sp_FailoverActive := False\<rparr>\<rparr>) ''b''"

definition secretEnv :: "FailoverService \<Rightarrow> env" where
  "secretEnv remote = quietEnv\<lparr>o_getSecret := \<lambda>_ _. Inr \<lparr>sec_ResourceVersion = ''7'',
     sec_Data = Some [(''kubeconfig'', ''cfg'')]\<rparr>, o_remoteGetFS := \<lambda>_ _ _. Inr remote\<rparr>"

definition sampleSyncer :: "string \<Rightarrow> Syncer" where
  "sampleSyncer i = \<lparr>sy_ClientProvider = \<lparr>cp_SecretName = ''remote'', cp_SecretNamespace = ''kfm''\<rparr>,
     sy_ClusterID = i, sy_SyncTimeout = 0\<rparr>"

theorem clusters_agree_after_sync_witness:
  "\<exists>x y. result (Sync (secretEnv otherFS) (sampleSyncer ''a'') sampleFS) world0 = Inr x \<and>
     result (Sync (secretEnv sampleFS) (sampleSyncer ''b'') otherFS) world0 = Inr y \<and>
     adopted sampleFS x = adopted otherFS y \<and> adopted sampleFS x = False"
proof -
  have ids: "remoteClusterID sampleFS = ''a''" "remoteClusterID otherFS = ''b''"
    "sp_FailoverActive (fs_Spec otherFS) = False" "sp_FailoverActive (fs_Spec sampleFS) = True"
    "remoteWins ''a'' otherFS sampleFS" "\<not> remoteWins ''b'' sampleFS otherFS"
    by (simp_all add: otherFS_def SetClusterIDAnnotation_def remoteWins_def remoteClusterID_def
        clusterIDAnnotation_def mget_def fixture_defs)
  obtain x where x: "result (Sync (secretEnv otherFS) (sampleSyncer ''a'') sampleFS) world0 = Inr x" "adopted sampleFS x = False"
    by (simp add: result_def Sync_def syncBody_def GetClient_def call_defs call_def getCache_def setCache_def Let_def
        secretEnv_def sampleSyncer_def world0_def ids adopted_def quietEnv_def)
  obtain y where y: "result (Sync (secretEnv sampleFS) (sampleSyncer ''b'') otherFS) world0 = Inr y"
    by (simp add: result_def Sync_def syncBody_def GetClient_def call_defs call_def getCache_def setCache_def Let_def
        secretEnv_def sampleSyncer_def world0_def ids pushState_def quietEnv_def numeral_eq_Suc)
  from clusters_agree_after_sync [OF _ _ _ _ _ x(1) y] x y show ?thesis
    by (simp add: secretEnv_def ids sampleSyncer_def)
qed

text \<open>C20: What \<^verbatim>\<open>Sync\<close> does.  Without an update of the remote object, its result describes the remote
  object it read and declares the remote the winner exactly when the two disagree.  With one, the
  remote object it read disagreed and lost the conflict resolution, every update carries the local
  value, and success means that an update was accepted.\<close>

theorem sync_meets_contract:
  "sync_contract s local (result (Sync E s local) w) (calls (Sync E s local) w)"
  by (rule tspec_calls [OF Sync_contract])

text \<open>The client that \<^verbatim>\<open>GetClient\<close> returns is the one built from the kubeconfig that the Secret
  holds at the time of the call, cached or not, and the cache invariant is kept.\<close>

theorem client_is_current:
  assumes "versions_identify E" and "cache_ok E p (w_cache w)"
  shows "cache_ok E p (w_cache (final (GetClient E p) w)) \<and>
    (case result (GetClient E p) w of Inl _ \<Rightarrow> True
     | Inr cl \<Rightarrow> (\<exists>secret. o_getSecret E (w_hist w) (cp_SecretNamespace p, cp_SecretName p) = Inr secret \<and>
         clientOf E secret = Some cl))"
  using GetClient_current [OF assms] by (auto simp: wp_result_final split: sum.split)

end
