(* ===== verification/Actions.thy ===== *)
theory Actions
  imports RemoteCluster
begin

text \<open>
  \<^verbatim>\<open>src/internal/action\<close>: the executors of the pre- and post-actions of a transition.  An executor
  is a function from the calling context, the action, the namespace, a name prefix and the action's
  index to a program; its result says whether the action is done and whether it succeeded, an error
  is a transient failure that the controller may retry.  The value fields the sources put into a
  \<^verbatim>\<open>context.Context\<close> are the record \<open>ExecCtx\<close>; its deadlines are not modelled, since a call that runs
  into one is a call that returns an error.
\<close>

section \<open>Context and results\<close>

record ExecCtx =
  ec_OwnerRef :: "OwnerReference option"
  ec_StartedAt :: "time option"
  ec_Direction :: "string option"

definition ContextWithOwnerRef :: "ExecCtx \<Rightarrow> OwnerReference option \<Rightarrow> ExecCtx" where
  "ContextWithOwnerRef ctx ref = ctx\<lparr>ec_OwnerRef := ref\<rparr>"

definition OwnerRefFromContext :: "ExecCtx \<Rightarrow> OwnerReference option" where
  "OwnerRefFromContext ctx = ec_OwnerRef ctx"

definition ContextWithTransitionStartedAt :: "ExecCtx \<Rightarrow> time \<Rightarrow> ExecCtx" where
  "ContextWithTransitionStartedAt ctx t = ctx\<lparr>ec_StartedAt := Some t\<rparr>"

definition TransitionStartedAtFromContext :: "ExecCtx \<Rightarrow> time \<times> bool" where
  "TransitionStartedAtFromContext ctx =
     (case ec_StartedAt ctx of None \<Rightarrow> (zeroTime, False) | Some t \<Rightarrow> (t, True))"

definition ContextWithTransitionDirection :: "ExecCtx \<Rightarrow> string \<Rightarrow> ExecCtx" where
  "ContextWithTransitionDirection ctx d = ctx\<lparr>ec_Direction := Some d\<rparr>"

definition TransitionDirectionFromContext :: "ExecCtx \<Rightarrow> string \<times> bool" where
  "TransitionDirectionFromContext ctx =
     (case ec_Direction ctx of None \<Rightarrow> ('''', False) | Some d \<Rightarrow> (d, True))"

definition backgroundCtx :: ExecCtx where
  "backgroundCtx = \<lparr>ec_OwnerRef = None, ec_StartedAt = None, ec_Direction = None\<rparr>"

record ExecResult =
  ex_Completed :: bool
  ex_Succeeded :: bool
  ex_Message :: string
  ex_JobName :: string

definition succeeded :: "string \<Rightarrow> ExecResult" where
  "succeeded msg = \<lparr>ex_Completed = True, ex_Succeeded = True, ex_Message = msg, ex_JobName = ''''\<rparr>"

definition failed :: "string \<Rightarrow> ExecResult" where
  "failed msg = \<lparr>ex_Completed = True, ex_Succeeded = False, ex_Message = msg, ex_JobName = ''''\<rparr>"

definition running :: "string \<Rightarrow> ExecResult" where
  "running msg = \<lparr>ex_Completed = False, ex_Succeeded = False, ex_Message = msg, ex_JobName = ''''\<rparr>"

type_synonym executor =
  "env \<Rightarrow> ExecCtx \<Rightarrow> FailoverAction \<Rightarrow> string \<Rightarrow> string \<Rightarrow> int \<Rightarrow> (go_error + ExecResult) io"

type_synonym cleaner = "env \<Rightarrow> string \<Rightarrow> string \<Rightarrow> go_error option io"

section \<open>HTTP\<close>

definition defaultHTTPTimeout :: int where
  "defaultHTTPTimeout = 30 * second"

definition HTTPExecute :: executor where
  "HTTPExecute E ctx action namespace namePrefix actionIndex =
     (case fa_HTTP action of None \<Rightarrow> ret (Inl nil_dereference)
      | Some spec \<Rightarrow>
          (let method = (if ha_Method spec = '''' then ''GET'' else ha_Method spec);
               timeout = (case ha_TimeoutSeconds spec of None \<Rightarrow> defaultHTTPTimeout
                          | Some s \<Rightarrow> wrap64 (s * second)) in
           case x_newRequest E method (ha_URL spec) of
             Some e \<Rightarrow> ret (Inr (failed (''building request: '' @ err_msg e)))
           | None \<Rightarrow> do {
               resp \<leftarrow> httpDo E \<lparr>hr_Method = method, hr_URL = ha_URL spec, hr_Headers = ha_Headers spec,
                 hr_Body = ha_Body spec, hr_Timeout = timeout\<rparr>;
               case resp of
                 Inl e \<Rightarrow> ret (Inl (Errorf_w ''request failed'' e))
               | Inr code \<Rightarrow>
                   if 200 \<le> code \<and> code < 300
                   then ret (Inr (succeeded (''HTTP '' @ show_int code)))
                   else ret (Inr (failed (''HTTP '' @ show_int code))) }))"

section \<open>Job\<close>

definition maxJobNameLen :: nat where "maxJobNameLen = 63"
definition maxLabelValueLen :: nat where "maxLabelValueLen = 63"
definition defaultActiveDeadlineSeconds :: int where "defaultActiveDeadlineSeconds = 300"
definition defaultBackoffLimit :: int where "defaultBackoffLimit = 0"

definition jobName :: "string \<Rightarrow> int \<Rightarrow> string" where
  "jobName namePrefix actionIndex =
     truncate_hashed maxJobNameLen 4 (namePrefix @ ''-action-'' @ show_int actionIndex)"

definition truncateLabel :: "string \<Rightarrow> string" where
  "truncateLabel v = truncate_hashed maxLabelValueLen 4 v"

definition buildJob ::
    "string \<Rightarrow> string \<Rightarrow> JobAction \<Rightarrow> string \<Rightarrow> OwnerReference option \<Rightarrow> Job" where
  "buildJob name namespace spec ownerPrefix ownerRef =
     \<lparr>job_Meta = emptyMeta\<lparr>m_Name := name, m_Namespace := namespace,
        m_Labels := Some [(''app.kubernetes.io/managed-by'', ''k8s-failover-manager''),
          (''k8s-failover.zyno.io/owner'', truncateLabel ownerPrefix)],
        m_OwnerReferences := (case ownerRef of None \<Rightarrow> [] | Some r \<Rightarrow> [r])\<rparr>,
      job_ActiveDeadlineSeconds = Some (case ja_ActiveDeadlineSeconds spec of
         None \<Rightarrow> defaultActiveDeadlineSeconds | Some s \<Rightarrow> s),
      job_BackoffLimit = Some (case ja_MaxRetries spec of None \<Rightarrow> defaultBackoffLimit | Some n \<Rightarrow> n),
      job_RestartPolicy = ''Never'', job_ServiceAccountName = ja_ServiceAccountName spec,
      job_Containers = [\<lparr>con_Name = ''action'', con_Image = ja_Image spec,
         con_Command = (case ja_Script spec of None \<Rightarrow> ja_Command spec
            | Some s \<Rightarrow> [''/bin/sh'', ''-c'', s]),
         con_Env = map (\<lambda>e. \<lparr>ev_Name = ev_Name e, ev_Value = ev_Value e\<rparr>) (ja_Env spec)\<rparr>],
      job_Conditions = []\<rparr>"

fun checkConditions :: "JobCondition list \<Rightarrow> string \<Rightarrow> ExecResult" where
  "checkConditions [] name = (running ''Job running'')\<lparr>ex_JobName := name\<rparr>"
| "checkConditions (cond # conds) name =
     (if jc_Type cond = ''Complete'' \<and> jc_Status cond = ''True''
      then (succeeded ''Job completed successfully'')\<lparr>ex_JobName := name\<rparr>
      else if jc_Type cond = ''Failed'' \<and> jc_Status cond = ''True''
      then (failed (''Job failed: '' @ jc_Message cond))\<lparr>ex_JobName := name\<rparr>
      else checkConditions conds name)"

definition checkJobStatus :: "Job \<Rightarrow> string \<Rightarrow> ExecResult" where
  "checkJobStatus job name = checkConditions (job_Conditions job) name"

definition JobExecute :: executor where
  "JobExecute E ctx action namespace namePrefix actionIndex =
     (let name = jobName namePrefix actionIndex in
      do { r \<leftarrow> getJob E (namespace, name);
           case r of
             Inl e \<Rightarrow>
               if \<not> IsNotFound e then ret (Inl (Errorf_w (''checking job '' @ name) e))
               else (case fa_Job action of None \<Rightarrow> ret (Inl nil_dereference)
                 | Some spec \<Rightarrow> do {
                     c \<leftarrow> kwrite E (CreateJob (buildJob name namespace spec namePrefix (OwnerRefFromContext ctx)));
                     case c of
                       Some e \<Rightarrow> ret (Inl (Errorf_w (''creating job '' @ name) e))
                     | None \<Rightarrow> ret (Inr ((running ''Job created'')\<lparr>ex_JobName := name\<rparr>)) })
           | Inr existing \<Rightarrow> ret (Inr (checkJobStatus existing name)) })"

definition JobCleanup :: cleaner where
  "JobCleanup E name namespace =
     do { r \<leftarrow> getJob E (namespace, name);
          case r of
            Inl e \<Rightarrow> if IsNotFound e then ret None
              else ret (Some (Errorf_w ''getting job for cleanup'' e))
          | Inr job \<Rightarrow> kwrite E (DeleteJob job) }"

section \<open>WaitReady and Scale\<close>

text \<open>\<^verbatim>\<open>checkDeployment\<close> and \<^verbatim>\<open>checkStatefulSet\<close> differ in the kind they read and name.\<close>

definition desiredReplicas :: "Workload \<Rightarrow> int" where
  "desiredReplicas obj = (case wl_Replicas obj of None \<Rightarrow> 1 | Some n \<Rightarrow> n)"

definition workloadReady :: "Workload \<Rightarrow> bool" where
  "workloadReady obj \<longleftrightarrow>
     wl_ReadyReplicas obj = desiredReplicas obj \<and> wl_UpdatedReplicas obj = desiredReplicas obj \<and>
     wl_AvailableReplicas obj = desiredReplicas obj \<and>
     wl_ObservedGeneration obj = m_Generation (wl_Meta obj)"

definition checkWorkload ::
    "env \<Rightarrow> string \<Rightarrow> string \<Rightarrow> nsname \<Rightarrow> (go_error + ExecResult) io" where
  "checkWorkload E kind lower key =
     do { r \<leftarrow> getWorkload E kind key;
          case r of
            Inl e \<Rightarrow>
              if IsNotFound e then ret (Inr (failed (kind @ '' '' @ snd key @ '' not found'')))
              else ret (Inl (Errorf_w (''getting '' @ lower @ '' '' @ snd key) e))
          | Inr obj \<Rightarrow>
              (let counts = '' ('' @ show_int (wl_ReadyReplicas obj) @ ''/'' @ show_int (desiredReplicas obj) @ '')'' in
               if workloadReady obj
               then ret (Inr (succeeded (kind @ '' '' @ snd key @ '' is ready'' @ counts)))
               else ret (Inr (running (kind @ '' '' @ snd key @ '' not ready yet'' @ counts)))) }"

definition checkDeployment :: "env \<Rightarrow> nsname \<Rightarrow> (go_error + ExecResult) io" where
  "checkDeployment E key = checkWorkload E ''Deployment'' ''deployment'' key"

definition checkStatefulSet :: "env \<Rightarrow> nsname \<Rightarrow> (go_error + ExecResult) io" where
  "checkStatefulSet E key = checkWorkload E ''StatefulSet'' ''statefulset'' key"

definition WaitReadyExecute :: executor where
  "WaitReadyExecute E ctx action namespace namePrefix actionIndex =
     (case fa_WaitReady action of None \<Rightarrow> ret (Inl nil_dereference)
      | Some spec \<Rightarrow>
          (let key = (namespace, wra_Name spec) in
           if wra_Kind spec = ''Deployment'' then checkDeployment E key
           else if wra_Kind spec = ''StatefulSet'' then checkStatefulSet E key
           else ret (Inr (failed (''unsupported kind '' @ quote (wra_Kind spec))))))"

definition CheckTimeout :: "env \<Rightarrow> time option \<Rightarrow> int \<Rightarrow> bool io" where
  "CheckTimeout E startedAt timeoutSec =
     (case startedAt of None \<Rightarrow> ret False
      | Some t \<Rightarrow> do {
          n \<leftarrow> now E;
          ret (n > t + wrap64 (timeoutSec * second)) })"

definition getScalableObject ::
    "env \<Rightarrow> string \<Rightarrow> string \<Rightarrow> string \<Rightarrow> (go_error + Workload) io" where
  "getScalableObject E kind name namespace =
     (if kind = ''Deployment'' \<or> kind = ''StatefulSet'' then getWorkload E kind (namespace, name)
      else ret (Inl (Errorf (''unsupported kind '' @ quote kind @ '', must be Deployment or StatefulSet''))))"

definition waitActionOf :: "FailoverAction \<Rightarrow> ScaleAction \<Rightarrow> FailoverAction" where
  "waitActionOf action spec =
     \<lparr>fa_Name = fa_Name action, fa_HTTP = None, fa_Job = None, fa_Scale = None,
      fa_WaitReady = Some \<lparr>wra_Kind = sa_Kind spec, wra_Name = sa_Name spec, wra_TimeoutSeconds = None\<rparr>,
      fa_WaitRemote = None, fa_IgnoreFailure = False, fa_MaxRetries = None,
      fa_RetryIntervalSeconds = None\<rparr>"

text \<open>The field \<^verbatim>\<open>WaitReady\<close> of \<^verbatim>\<open>ScaleExecutor\<close>, a pointer to the one other executor, is an option.\<close>

definition ScaleExecute :: "executor option \<Rightarrow> executor" where
  "ScaleExecute waitReady E ctx action namespace namePrefix actionIndex =
     (case fa_Scale action of None \<Rightarrow> ret (Inl nil_dereference)
      | Some spec \<Rightarrow>
         (let what = sa_Kind spec @ '' '' @ sa_Name spec;
              finish = (if sa_WaitReady spec then
                  (case waitReady of
                     None \<Rightarrow> ret (Inr (failed (''scale.waitReady requested for '' @ what @
                       '' but WaitReady executor is not configured'')))
                   | Some exec \<Rightarrow>
                       exec E ctx (waitActionOf action spec) namespace namePrefix actionIndex)
                else ret (Inr (succeeded (''Scaled '' @ what @ '' to '' @ show_int (sa_Replicas spec))))) in
          do { r \<leftarrow> getScalableObject E (sa_Kind spec) (sa_Name spec) namespace;
               case r of
                 Inl e \<Rightarrow>
                   if IsNotFound e then ret (Inr (failed (what @ '' not found'')))
                   else ret (Inl (Errorf_w (''getting '' @ what) e))
               | Inr obj \<Rightarrow> do {
                   g \<leftarrow> getScale E (sa_Kind spec) obj;
                   case g of
                     Inl e \<Rightarrow> ret (Inl (Errorf_w (''getting scale for '' @ what) e))
                   | Inr scale \<Rightarrow>
                       if scl_Replicas scale \<noteq> sa_Replicas spec then do {
                         u \<leftarrow> kwrite E (UpdateScale (sa_Kind spec) obj (scale\<lparr>scl_Replicas := sa_Replicas spec\<rparr>));
                         case u of
                           Some e \<Rightarrow> ret (Inl (Errorf_w (''updating scale for '' @ what) e))
                         | None \<Rightarrow> finish }
                       else finish } }))"



section \<open>WaitRemote\<close>

definition defaultActionTimeout :: int where "defaultActionTimeout = 300"

definition isTerminalRemoteEvent :: "FailoverEvent option \<Rightarrow> bool" where
  "isTerminalRemoteEvent event \<longleftrightarrow>
     (case event of None \<Rightarrow> False
      | Some ev \<Rightarrow> et_Outcome (fe_Status ev) \<noteq> '''' \<and> et_Outcome (fe_Status ev) \<noteq> EventOutcomeInProgress)"

definition transitionMatchesDirection :: "TransitionStatus option \<Rightarrow> string \<Rightarrow> bool" where
  "transitionMatchesDirection transition expectedDirection \<longleftrightarrow> expectedDirection = '''' \<or>
     (case transition of None \<Rightarrow> False | Some t \<Rightarrow> tr_TargetDirection t = expectedDirection)"

definition eventTimestamp :: "FailoverEvent \<Rightarrow> time" where
  "eventTimestamp event =
     (case et_CompletedAt (fe_Status event) of Some t \<Rightarrow> t
      | None \<Rightarrow> (case et_StartedAt (fe_Status event) of Some t \<Rightarrow> t
      | None \<Rightarrow> m_CreationTimestamp (fe_Meta event)))"

definition eventMatchesTransition :: "FailoverEvent \<Rightarrow> time \<Rightarrow> string \<Rightarrow> bool" where
  "eventMatchesTransition event localStartedAt expectedDirection =
     (if expectedDirection \<noteq> '''' \<and> es_Direction (fe_Spec event) \<noteq> expectedDirection then False
      else if localStartedAt = zeroTime then True
      else case et_StartedAt (fe_Status event) of Some t \<Rightarrow> \<not> t < localStartedAt
      | None \<Rightarrow> (case et_CompletedAt (fe_Status event) of Some t \<Rightarrow> \<not> t < localStartedAt
      | None \<Rightarrow> \<not> m_CreationTimestamp (fe_Meta event) < localStartedAt))"

text \<open>The loop over the listed events: \<^verbatim>\<open>best\<close> and \<^verbatim>\<open>bestTime\<close> are its state.\<close>

fun bestEvent ::
    "string \<Rightarrow> time \<Rightarrow> string \<Rightarrow> FailoverEvent list \<Rightarrow> FailoverEvent option \<Rightarrow> time \<Rightarrow> FailoverEvent option" where
  "bestEvent fsName localStartedAt expectedDirection [] best bestTime = best"
| "bestEvent fsName localStartedAt expectedDirection (event # events) best bestTime =
     (if es_FailoverServiceRef (fe_Spec event) \<noteq> fsName
      then bestEvent fsName localStartedAt expectedDirection events best bestTime
      else if \<not> eventMatchesTransition event localStartedAt expectedDirection
      then bestEvent fsName localStartedAt expectedDirection events best bestTime
      else if best = None \<or> eventTimestamp event > bestTime
      then bestEvent fsName localStartedAt expectedDirection events (Some event) (eventTimestamp event)
      else bestEvent fsName localStartedAt expectedDirection events best bestTime)"

definition findRecentRemoteEvent ::
    "env \<Rightarrow> rclient \<Rightarrow> string \<Rightarrow> string \<Rightarrow> time \<Rightarrow> string \<Rightarrow> (go_error + FailoverEvent option) io" where
  "findRecentRemoteEvent E remoteClient namespace fsName localStartedAt expectedDirection =
     do { r \<leftarrow> remoteListEvents E remoteClient namespace;
          case r of
            Inl e \<Rightarrow> ret (Inl e)
          | Inr events \<Rightarrow> ret (Inr (bestEvent fsName localStartedAt expectedDirection events None zeroTime)) }"

definition remoteTransitionStartedAfter :: "FailoverService \<Rightarrow> time \<Rightarrow> bool" where
  "remoteTransitionStartedAfter remote localStartedAt =
     (if localStartedAt = zeroTime then True
      else case Option.bind (fs_Transition remote) tr_StartedAt of
        None \<Rightarrow> False
      | Some t \<Rightarrow> \<not> t < localStartedAt)"

text \<open>The direction printed in messages; the transition is present wherever it is printed.\<close>

definition directionOf :: "TransitionStatus option \<Rightarrow> string" where
  "directionOf transition = (case transition of None \<Rightarrow> '''' | Some t \<Rightarrow> tr_TargetDirection t)"

definition checkPhase ::
    "env \<Rightarrow> rclient \<Rightarrow> FailoverService \<Rightarrow> string \<Rightarrow> string \<Rightarrow> FailoverPhase \<Rightarrow> time \<Rightarrow> string \<Rightarrow> ExecResult io" where
  "checkPhase E remoteClient remote namespace fsName targetPhase localStartedAt expectedDirection =
     (let transition = fs_Transition remote;
          remotePhase = (case transition of None \<Rightarrow> PhaseIdle | Some t \<Rightarrow> tr_Phase t);
          targetOrder = PhaseOrder targetPhase; remoteOrder = PhaseOrder remotePhase in
      if targetPhase = PhaseIdle then
        (if remotePhase \<noteq> PhaseIdle then
           (if \<not> transitionMatchesDirection transition expectedDirection
            then ret (running (''Waiting for remote '' @ expectedDirection @ '' transition to start (currently ''
              @ directionOf transition @ '')''))
            else ret (running (''Waiting for remote to become idle (currently '' @ remotePhase @ '')'')))
         else do {
           r \<leftarrow> findRecentRemoteEvent E remoteClient namespace fsName localStartedAt expectedDirection;
           case r of
             Inl e \<Rightarrow> ret (running (''listing remote FailoverEvents: '' @ err_msg e))
           | Inr event \<Rightarrow>
               if isTerminalRemoteEvent event
               then ret (succeeded ''Remote cluster is idle (completed matching transition after local transition started)'')
               else ret (running ''Waiting for remote to participate in transition (currently idle)'') })
      else if remotePhase = PhaseIdle then do {
        r \<leftarrow> findRecentRemoteEvent E remoteClient namespace fsName localStartedAt expectedDirection;
        case r of
          Inl e \<Rightarrow> ret (running (''listing remote FailoverEvents: '' @ err_msg e))
        | Inr event \<Rightarrow>
            if isTerminalRemoteEvent event
            then ret (succeeded (''Remote cluster has completed matching transition (target was '' @ targetPhase @ '')''))
            else ret (running (''Waiting for remote to start transition (target phase: '' @ targetPhase @ '')'')) }
      else if \<not> transitionMatchesDirection transition expectedDirection
      then ret (running (''Waiting for remote '' @ expectedDirection @ '' transition (currently ''
        @ directionOf transition @ '')''))
      else if remoteOrder \<ge> targetOrder then
        (if remoteTransitionStartedAfter remote localStartedAt
         then ret (succeeded (''Remote cluster is at phase '' @ remotePhase @ '' (target: '' @ targetPhase @ '')''))
         else ret (running (''Remote is at phase '' @ remotePhase @
           '' but transition predates local start; waiting for current transition'')))
      else ret (running (''Waiting for remote to reach phase '' @ targetPhase @ '' (currently '' @ remotePhase @ '')'')))"

text \<open>One loop of \<^verbatim>\<open>findActionResult\<close>: \<open>None\<close> is the early return on a second match.\<close>

fun scanResults :: "ActionResult list \<Rightarrow> string \<Rightarrow> ActionResult option \<Rightarrow> ActionResult option option" where
  "scanResults [] actionName match = Some match"
| "scanResults (r # rs) actionName match =
     (if ar_Name r = actionName then
        (if match \<noteq> None then None else scanResults rs actionName (Some r))
      else scanResults rs actionName match)"

definition findActionResult ::
    "ActionResult list \<Rightarrow> ActionResult list \<Rightarrow> string \<Rightarrow> ActionResult option \<times> bool \<times> bool" where
  "findActionResult preResults postResults actionName =
     (case Option.bind (scanResults preResults actionName None) (scanResults postResults actionName) of
        None \<Rightarrow> (None, False, True)
      | Some None \<Rightarrow> (None, False, False)
      | Some (Some m) \<Rightarrow> (Some m, True, False))"

definition resultForAction :: "string \<Rightarrow> ActionResult \<Rightarrow> ExecResult" where
  "resultForAction actionName actionResult =
     (let action = ''Remote action '' @ quote actionName in
      if ar_Status actionResult = ActionStatusSucceeded then succeeded (action @ '' succeeded'')
      else if ar_Status actionResult = ActionStatusFailed
      then failed (action @ '' failed: '' @ ar_Message actionResult)
      else if ar_Status actionResult = ActionStatusSkipped then succeeded (action @ '' was skipped'')
      else running (''Waiting for remote action '' @ quote actionName @ '' (status: ''
        @ ar_Status actionResult @ '')''))"

definition ambiguousAction :: "string \<Rightarrow> ExecResult" where
  "ambiguousAction actionName =
     failed (''Remote action '' @ quote actionName @ '' is ambiguous; action names must be unique'')"

definition checkActionName ::
    "env \<Rightarrow> rclient \<Rightarrow> FailoverService \<Rightarrow> string \<Rightarrow> string \<Rightarrow> string \<Rightarrow> time \<Rightarrow> string \<Rightarrow> ExecResult io" where
  "checkActionName E remoteClient remote namespace fsName actionName localStartedAt expectedDirection =
     (let waiting = ''Waiting for remote action '' @ quote actionName in
      case fs_Transition remote of
        None \<Rightarrow> do {
          r \<leftarrow> findRecentRemoteEvent E remoteClient namespace fsName localStartedAt expectedDirection;
          case r of
            Inl e \<Rightarrow> ret (running (''listing remote FailoverEvents: '' @ err_msg e))
          | Inr None \<Rightarrow> ret (running (waiting @ '' (remote has no active transition)''))
          | Inr (Some event) \<Rightarrow>
              (case findActionResult (et_PreActionResults (fe_Status event))
                  (et_PostActionResults (fe_Status event)) actionName of
                 (_, _, True) \<Rightarrow> ret (ambiguousAction actionName)
               | (Some res, True, False) \<Rightarrow> ret (resultForAction actionName res)
               | _ \<Rightarrow>
                   if et_Outcome (fe_Status event) \<noteq> '''' \<and>
                     et_Outcome (fe_Status event) \<noteq> EventOutcomeInProgress
                   then ret (failed (''Remote transition completed without action '' @ quote actionName))
                   else ret (running (waiting @ '' (remote event still in progress)''))) }
      | Some transition \<Rightarrow>
          if \<not> transitionMatchesDirection (Some transition) expectedDirection
          then ret (running (waiting @ '' on '' @ expectedDirection @ '' transition''))
          else if \<not> remoteTransitionStartedAfter remote localStartedAt
          then ret (running (waiting @ '' (remote transition predates local start)''))
          else (case findActionResult (tr_PreActionResults transition)
              (tr_PostActionResults transition) actionName of
             (_, _, True) \<Rightarrow> ret (ambiguousAction actionName)
           | (Some res, True, False) \<Rightarrow> ret (resultForAction actionName res)
           | _ \<Rightarrow> ret (running (waiting @ '' (not found in remote results)''))))"

definition WaitRemoteExecute :: "ClientProvider option \<Rightarrow> executor" where
  "WaitRemoteExecute clientProvider E ctx action namespace namePrefix actionIndex =
     (case clientProvider of
        None \<Rightarrow> ret (Inr (failed ''remote client provider not configured''))
      | Some provider \<Rightarrow>
        (case fa_WaitRemote action of None \<Rightarrow> ret (Inl nil_dereference)
         | Some spec \<Rightarrow> do {
           cl \<leftarrow> GetClient E provider;
           case cl of
             Inl e \<Rightarrow> ret (Inr (running (''connecting to remote cluster: '' @ err_msg e)))
           | Inr remoteClient \<Rightarrow>
               (case OwnerRefFromContext ctx of
                  None \<Rightarrow> ret (Inr (failed ''cannot determine FailoverService name for remote lookup''))
                | Some ownerRef \<Rightarrow> do {
                    g \<leftarrow> remoteGetFS E remoteClient (namespace, or_Name ownerRef);
                    case g of
                      Inl e \<Rightarrow> ret (Inr (running (''getting remote FailoverService: '' @ err_msg e)))
                    | Inr remote \<Rightarrow>
                        (let localStartedAt = fst (TransitionStartedAtFromContext ctx);
                             localDirection = fst (TransitionDirectionFromContext ctx) in
                         case wrm_Phase spec of
                           Some phase \<Rightarrow> do {
                             r \<leftarrow> checkPhase E remoteClient remote namespace (or_Name ownerRef) phase
                               localStartedAt localDirection;
                             ret (Inr r) }
                         | None \<Rightarrow> (case wrm_ActionName spec of
                             Some name \<Rightarrow> do {
                               r \<leftarrow> checkActionName E remoteClient remote namespace (or_Name ownerRef) name
                                 localStartedAt localDirection;
                               ret (Inr r) }
                           | None \<Rightarrow> ret (Inr (failed ''neither phase nor actionName specified'')))) }) }))"

section \<open>MultiExecutor\<close>

record JobExecutor =
  jx_Execute :: executor
  jx_Cleanup :: cleaner

record MultiExecutor =
  mx_HTTP :: "executor option"
  mx_Job :: "JobExecutor option"
  mx_Scale :: "executor option"
  mx_WaitReady :: "executor option"
  mx_WaitRemote :: "executor option"

definition notConfigured :: "FailoverAction \<Rightarrow> string \<Rightarrow> go_error" where
  "notConfigured action what = Errorf (''action '' @ quote (fa_Name action) @ '': '' @ what @ '' executor not configured'')"

definition MultiExecute :: "MultiExecutor \<Rightarrow> executor" where
  "MultiExecute m E ctx action namespace namePrefix actionIndex =
     (let dispatch = (\<lambda>what field. case field of
            None \<Rightarrow> ret (Inl (notConfigured action what))
          | Some exec \<Rightarrow> exec E ctx action namespace namePrefix actionIndex) in
      if fa_HTTP action \<noteq> None then dispatch ''HTTP'' (mx_HTTP m)
      else if fa_Job action \<noteq> None then dispatch ''Job'' (map_option jx_Execute (mx_Job m))
      else if fa_Scale action \<noteq> None then dispatch ''Scale'' (mx_Scale m)
      else if fa_WaitReady action \<noteq> None then dispatch ''WaitReady'' (mx_WaitReady m)
      else if fa_WaitRemote action \<noteq> None then dispatch ''WaitRemote'' (mx_WaitRemote m)
      else ret (Inl (Errorf (''action '' @ quote (fa_Name action) @ '' has no executor type set''))))"

definition MultiCleanup :: "MultiExecutor \<Rightarrow> cleaner" where
  "MultiCleanup m E name namespace =
     (case mx_Job m of
        None \<Rightarrow> ret (Some (Errorf (''cannot cleanup job '' @ quote name @ '': Job executor not configured'')))
      | Some j \<Rightarrow> jx_Cleanup j E name namespace)"


section \<open>The contract of an executor\<close>

text \<open>What an executor may do: HTTP requests, Jobs and workloads of the namespace it is given, and
  reads of the other cluster.  In particular it never writes a FailoverService, a FailoverEvent, a
  Service, an EndpointSlice or a ConfigMap.\<close>

fun action_entry :: "string \<Rightarrow> entry \<Rightarrow> bool" where
  "action_entry ns (HttpDo _ _) = True"
| "action_entry ns (GetJob k _) = (fst k = ns)"
| "action_entry ns (Write (CreateJob j) _) = (m_Namespace (job_Meta j) = ns)"
| "action_entry ns (GetWorkload _ k _) = (fst k = ns)"
| "action_entry ns (GetScale _ _ _) = True"
| "action_entry ns (Write (UpdateScale _ _ _) _) = True"
| "action_entry ns (GetSecret _ _) = True"
| "action_entry ns (NewClient _ _) = True"
| "action_entry ns (RemoteGetFS _ k _) = (fst k = ns)"
| "action_entry ns (RemoteListEvents _ n _) = (n = ns)"
| "action_entry ns _ = False"

fun sane_result :: "go_error + ExecResult \<Rightarrow> bool" where
  "sane_result (Inl e) = True"
| "sane_result (Inr x) = (ex_Succeeded x \<longrightarrow> ex_Completed x)"

locale action_executor =
  fixes exec :: executor
  assumes contract: "eff (action_entry ns) (exec E ctx a ns p i) sane_result"
begin

lemma calls_confined: "e \<in> set (calls (exec E ctx a ns p i) w) \<Longrightarrow> action_entry ns e"
  by (rule eff_calls [OF contract])

lemma result_sane: "sane_result (result (exec E ctx a ns p i) w)"
  by (rule eff_result [OF contract])

end

lemma result_simps [simp]:
  "ex_Succeeded (succeeded m)" "ex_Completed (succeeded m)" "\<not> ex_Succeeded (failed m)"
  "ex_Completed (failed m)" "\<not> ex_Succeeded (running m)" "\<not> ex_Completed (running m)"
  "ex_JobName (succeeded m) = ''''" "ex_JobName (failed m) = ''''" "ex_JobName (running m) = ''''"
  by (simp_all add: succeeded_def failed_def running_def)

interpretation http: action_executor HTTPExecute
  unfolding action_executor_def HTTPExecute_def Let_def call_defs
  by (intro allI eff_intros TrueI) simp_all

lemma checkConditions_sane: "ex_Succeeded (checkConditions cs n) \<Longrightarrow> ex_Completed (checkConditions cs n)"
  by (induction cs n rule: checkConditions.induct) (auto split: if_splits)

interpretation job: action_executor JobExecute
  unfolding action_executor_def JobExecute_def Let_def call_defs
  by (intro allI eff_intros TrueI) (simp_all add: buildJob_def checkJobStatus_def checkConditions_sane)

interpretation wait_ready: action_executor WaitReadyExecute
  unfolding action_executor_def WaitReadyExecute_def checkDeployment_def checkStatefulSet_def
    checkWorkload_def Let_def call_defs
  by (intro allI eff_intros TrueI) simp_all

lemma getScalableObject_action: "emits (action_entry ns) (getScalableObject E kind name ns)"
  unfolding getScalableObject_def call_defs by (intro eff_if eff_call eff_ret) simp_all

lemma ScaleExecute_contract:
  assumes "\<And>exec. waitReady = Some exec \<Longrightarrow> action_executor exec"
  shows "action_executor (ScaleExecute waitReady)"
  unfolding action_executor_def ScaleExecute_def Let_def getScale_def kwrite_def
  by (intro allI eff_bind [OF getScalableObject_action] eff_bind [OF emits_call] eff_case_option
      eff_case_sum eff_if eff_ret) (auto intro: action_executor.contract [OF assms])

interpretation scale: action_executor "ScaleExecute (Some WaitReadyExecute)"
  by (rule ScaleExecute_contract) (auto intro: wait_ready.action_executor_axioms)

lemma GetClient_action: "emits (action_entry ns) (GetClient E p)"
  by (rule emits_weaken [OF GetClient_calls]) auto

lemma findRecentRemoteEvent_action: "emits (action_entry ns) (findRecentRemoteEvent E c ns n t d)"
  unfolding findRecentRemoteEvent_def call_defs by (intro eff_intros TrueI) simp_all

lemma resultForAction_sane: "ex_Succeeded (resultForAction n r) \<Longrightarrow> ex_Completed (resultForAction n r)"
  by (auto simp: resultForAction_def Let_def split: if_splits)

lemma checkPhase_action:
  "eff (action_entry ns) (checkPhase E c r ns n ph t d) (\<lambda>x. ex_Succeeded x \<longrightarrow> ex_Completed x)"
  unfolding checkPhase_def Let_def
  by (intro eff_bind [OF findRecentRemoteEvent_action] eff_intros) simp_all

lemma checkActionName_action:
  "eff (action_entry ns) (checkActionName E c r ns n a t d) (\<lambda>x. ex_Succeeded x \<longrightarrow> ex_Completed x)"
  unfolding checkActionName_def Let_def
  by (intro eff_case_option eff_bind [OF findRecentRemoteEvent_action] eff_case_sum eff_if)
    (auto intro!: eff_ret resultForAction_sane simp: ambiguousAction_def split: option.split bool.split prod.split)

interpretation wait_remote: action_executor "WaitRemoteExecute p" for p
  unfolding action_executor_def WaitRemoteExecute_def Let_def remoteGetFS_def
  by (intro allI eff_case_option eff_bind [OF GetClient_action] eff_bind [OF checkPhase_action]
      eff_bind [OF checkActionName_action] eff_case_sum eff_bind [OF emits_call] eff_ret) simp_all

text \<open>The dispatcher of executors that keep the contract keeps it.\<close>

locale multi_executor =
  fixes m :: MultiExecutor
  assumes http_ok: "mx_HTTP m = Some x \<Longrightarrow> action_executor x"
    and job_ok: "mx_Job m = Some j \<Longrightarrow> action_executor (jx_Execute j)"
    and scale_ok: "mx_Scale m = Some x \<Longrightarrow> action_executor x"
    and ready_ok: "mx_WaitReady m = Some x \<Longrightarrow> action_executor x"
    and remote_ok: "mx_WaitRemote m = Some x \<Longrightarrow> action_executor x"

sublocale multi_executor \<subseteq> action_executor "MultiExecute m"
  unfolding action_executor_def MultiExecute_def Let_def
  by (intro allI eff_if eff_case_option eff_ret)
    (auto intro: action_executor.contract dest: http_ok job_ok scale_ok ready_ok remote_ok)


section \<open>Names with a limit\<close>

locale bounded_name =
  fixes mk :: "'a \<Rightarrow> string" and full :: "'a \<Rightarrow> string" and limit :: nat
  assumes bounded: "length (mk x) \<le> limit"
    and kept: "length (full x) \<le> limit \<Longrightarrow> mk x = full x"
begin

lemma short_distinct:
  "length (full x) \<le> limit \<Longrightarrow> length (full y) \<le> limit \<Longrightarrow> mk x = mk y \<longleftrightarrow> full x = full y"
  by (simp add: kept)

end

definition fullJobName :: "string \<times> int \<Rightarrow> string" where
  "fullJobName pi = fst pi @ ''-action-'' @ show_int (snd pi)"

interpretation job_name: bounded_name "\<lambda>pi. jobName (fst pi) (snd pi)" fullJobName 63
  by unfold_locales
    (simp_all add: jobName_def fullJobName_def maxJobNameLen_def truncate_hashed_length truncate_hashed_short)

interpretation label: bounded_name truncateLabel "\<lambda>v. v" 63
  by unfold_locales
    (simp_all add: truncateLabel_def maxLabelValueLen_def truncate_hashed_length truncate_hashed_short)

lemma show_int_inj: "0 \<le> i \<Longrightarrow> 0 \<le> j \<Longrightarrow> show_int i = show_int j \<longleftrightarrow> i = j"
  by (auto simp: show_int_def show_nat_inj)

section \<open>Correlation with the other cluster\<close>

text \<open>When a recorded transition began, as far as the event tells.\<close>

definition eventBegan :: "FailoverEvent \<Rightarrow> time" where
  "eventBegan ev =
     (case et_StartedAt (fe_Status ev) of Some t \<Rightarrow> t
      | None \<Rightarrow> (case et_CompletedAt (fe_Status ev) of Some t \<Rightarrow> t
      | None \<Rightarrow> m_CreationTimestamp (fe_Meta ev)))"

definition eventFits :: "string \<Rightarrow> time \<Rightarrow> string \<Rightarrow> FailoverEvent \<Rightarrow> bool" where
  "eventFits fsName t d ev \<longleftrightarrow> es_FailoverServiceRef (fe_Spec ev) = fsName \<and> eventMatchesTransition ev t d"

lemma eventFitsD:
  "eventFits fsName t d ev \<Longrightarrow> t \<noteq> zeroTime \<Longrightarrow> d \<noteq> '''' \<Longrightarrow>
   es_FailoverServiceRef (fe_Spec ev) = fsName \<and> es_Direction (fe_Spec ev) = d \<and> t \<le> eventBegan ev"
  by (auto simp: eventFits_def eventMatchesTransition_def eventBegan_def split: if_splits option.splits)

text \<open>The loop finds the newest fitting event, the first of several equally new ones.\<close>

lemma bestEvent_from:
  "bestEvent n t d evs best bt = Some r \<Longrightarrow> best = Some r \<or> (r \<in> set evs \<and> eventFits n t d r)"
  by (induction n t d evs best bt rule: bestEvent.induct) (auto simp: eventFits_def split: if_splits)

lemma bestEvent_start:
  "\<exists>r. bestEvent n t d evs (Some b) (eventTimestamp b) = Some r \<and> eventTimestamp b \<le> eventTimestamp r"
proof (induction evs arbitrary: b)
  case (Cons ev evs)
  from Cons.IH [of ev] Cons.IH [of b] show ?case by fastforce
qed simp

lemma bestEvent_max:
  assumes "ev \<in> set evs" "eventFits n t d ev" "\<And>b. best = Some b \<Longrightarrow> bt = eventTimestamp b"
  shows "\<exists>r. bestEvent n t d evs best bt = Some r \<and> eventTimestamp ev \<le> eventTimestamp r"
  using assms
proof (induction evs arbitrary: best bt)
  case (Cons x xs)
  show ?case
  proof (cases "x = ev")
    case True
    with Cons.prems(2) bestEvent_start [of n t d xs ev] Cons.prems(3) show ?thesis
    proof (cases best)
      case (Some b)
      with True Cons.prems(2,3) bestEvent_start [of n t d xs ev] bestEvent_start [of n t d xs b]
      show ?thesis by (fastforce simp: eventFits_def)
    qed (auto simp: eventFits_def)
  next
    case False
    with Cons.prems(1) have "ev \<in> set xs" by simp
    from Cons.IH [OF this Cons.prems(2), of best bt] Cons.IH [OF this Cons.prems(2), of "Some x" "eventTimestamp x"]
      Cons.prems(3) show ?thesis by simp
  qed
qed simp

lemma bestEvent_newest:
  "case bestEvent n t d evs None t0 of
       None \<Rightarrow> \<forall>ev \<in> set evs. \<not> eventFits n t d ev
     | Some r \<Rightarrow> r \<in> set evs \<and> eventFits n t d r \<and>
         (\<forall>ev \<in> set evs. eventFits n t d ev \<longrightarrow> eventTimestamp ev \<le> eventTimestamp r)"
  using bestEvent_from [of n t d evs None t0] bestEvent_max [of _ evs n t d None t0]
  by (fastforce split: option.split)

lemma scanResults_spec:
  "scanResults rs n m =
     (case (m, filter (\<lambda>r. ar_Name r = n) rs) of
        (_, []) \<Rightarrow> Some m | (None, [r]) \<Rightarrow> Some (Some r) | _ \<Rightarrow> None)"
  by (induction rs n m rule: scanResults.induct) (auto split: option.splits list.splits)

lemma findActionResult_spec:
  "findActionResult pre post n =
     (case filter (\<lambda>r. ar_Name r = n) (pre @ post) of
        [] \<Rightarrow> (None, False, False) | [r] \<Rightarrow> (Some r, True, False) | _ \<Rightarrow> (None, False, True))"
  by (auto simp: findActionResult_def scanResults_spec split: option.splits list.splits)

text \<open>Evidence that the other cluster takes part in the transition that started here at \<open>t\<close>: its
  object shows a transition, or its history an event, in the same direction and not older.\<close>

definition transitionEvidence :: "FailoverService \<Rightarrow> time \<Rightarrow> string \<Rightarrow> bool" where
  "transitionEvidence remote t d \<longleftrightarrow> (\<exists>tr s. fs_Transition remote = Some tr \<and>
     tr_TargetDirection tr = d \<and> tr_StartedAt tr = Some s \<and> t \<le> s)"

definition eventEvidence :: "string \<Rightarrow> string \<Rightarrow> time \<Rightarrow> string \<Rightarrow> entry list \<Rightarrow> bool" where
  "eventEvidence ns n t d cs \<longleftrightarrow> (\<exists>c evs. RemoteListEvents c ns (Inr evs) \<in> set cs \<and>
     (\<exists>ev \<in> set evs. es_FailoverServiceRef (fe_Spec ev) = n \<and> es_Direction (fe_Spec ev) = d \<and> t \<le> eventBegan ev))"

definition remoteEvidence :: "string \<Rightarrow> string \<Rightarrow> time \<Rightarrow> string \<Rightarrow> entry list \<Rightarrow> bool" where
  "remoteEvidence ns n t d cs \<longleftrightarrow> eventEvidence ns n t d cs \<or>
     (\<exists>c remote. RemoteGetFS c (ns, n) (Inr remote) \<in> set cs \<and> transitionEvidence remote t d)"

lemma eventEvidence_append [simp]: "eventEvidence ns n t d ds \<Longrightarrow> eventEvidence ns n t d (cs @ ds)"
  by (auto simp: eventEvidence_def)

lemma findRecentRemoteEvent_evidence:
  assumes "t \<noteq> zeroTime" "d \<noteq> ''''"
  shows "tspec (findRecentRemoteEvent E c ns n t d)
     (\<lambda>r cs. case r of Inr (Some ev) \<Rightarrow> eventEvidence ns n t d cs | _ \<Rightarrow> True)"
  unfolding findRecentRemoteEvent_def remoteListEvents_def
proof (intro tspec_bind_call tspec_case_sum tspec_ret, goal_cases)
  case (2 h evs)
  have "eventEvidence ns n t d [RemoteListEvents c ns (Inr evs)]"
    if "bestEvent n t d evs None zeroTime = Some ev" for ev
    using bestEvent_from [of n t d evs None zeroTime] that eventFitsD [OF _ assms]
    by (fastforce simp: eventEvidence_def)
  with 2 show ?case by (auto split: option.split)
qed simp

lemma startedAfter_evidence:
  "t \<noteq> zeroTime \<Longrightarrow> d \<noteq> '''' \<Longrightarrow> remoteTransitionStartedAfter remote t \<Longrightarrow>
   transitionMatchesDirection (fs_Transition remote) d \<Longrightarrow> transitionEvidence remote t d"
  by (auto simp: remoteTransitionStartedAfter_def transitionMatchesDirection_def transitionEvidence_def
      split: option.splits bind_splits)

lemma checkPhase_evidence:
  assumes "t \<noteq> zeroTime" "d \<noteq> ''''"
  shows "tspec (checkPhase E c remote ns n ph t d)
     (\<lambda>x cs. ex_Succeeded x \<longrightarrow> eventEvidence ns n t d cs \<or> transitionEvidence remote t d)"
  unfolding checkPhase_def Let_def
  by (intro tspec_if tspec_bind [OF findRecentRemoteEvent_evidence [OF assms]] tspec_case_sum tspec_ret)
    (auto simp: isTerminalRemoteEvent_def startedAfter_evidence [OF assms] split: option.splits)

lemma checkActionName_evidence:
  assumes "t \<noteq> zeroTime" "d \<noteq> ''''"
  shows "tspec (checkActionName E c remote ns n a t d)
     (\<lambda>x cs. ex_Succeeded x \<longrightarrow> eventEvidence ns n t d cs \<or> transitionEvidence remote t d)"
  unfolding checkActionName_def Let_def
  by (intro tspec_case_option tspec_if tspec_bind [OF findRecentRemoteEvent_evidence [OF assms]]
      tspec_case_sum;
    (simp add: findActionResult_spec ambiguousAction_def split: list.split)?;
    (auto intro!: tspec_ret dest: startedAfter_evidence [OF assms])?)


section \<open>The executors of the controller\<close>

text \<open>As \<^verbatim>\<open>NewReconcilerFromEnv\<close> puts them together.\<close>

definition actionExecutor :: "ClientProvider \<Rightarrow> MultiExecutor" where
  "actionExecutor provider =
     \<lparr>mx_HTTP = Some HTTPExecute, mx_Job = Some \<lparr>jx_Execute = JobExecute, jx_Cleanup = JobCleanup\<rparr>,
      mx_Scale = Some (ScaleExecute (Some WaitReadyExecute)), mx_WaitReady = Some WaitReadyExecute,
      mx_WaitRemote = Some (WaitRemoteExecute (Some provider))\<rparr>"

interpretation actions: multi_executor "actionExecutor p" for p
  by unfold_locales
    (auto simp: actionExecutor_def http.contract job.contract scale.contract wait_ready.contract
      wait_remote.contract)

section \<open>Properties\<close>



text \<open>C36: A wait for the other cluster is never satisfied by an old transition: with the start time and
  direction of the local transition in the context, it succeeds only on evidence of a transition of
  the remote FailoverService in the same direction that is not older than the local one.\<close>

theorem waitremote_needs_evidence:
  assumes "ec_StartedAt ctx = Some t" "t \<noteq> zeroTime" "ec_Direction ctx = Some d" "d \<noteq> ''''"
    and "ec_OwnerRef ctx = Some ref"
    and "result (WaitRemoteExecute (Some p) E ctx a ns np i) w = Inr x" "ex_Succeeded x"
  shows "remoteEvidence ns (or_Name ref) t d (calls (WaitRemoteExecute (Some p) E ctx a ns np i) w)"
proof -
  have "tspec (WaitRemoteExecute (Some p) E ctx a ns np i)
     (\<lambda>r cs. \<forall>x. r = Inr x \<longrightarrow> ex_Succeeded x \<longrightarrow> remoteEvidence ns (or_Name ref) t d cs)"
    unfolding WaitRemoteExecute_def option.case remoteGetFS_def OwnerRefFromContext_def assms(5) Let_def
      TransitionStartedAtFromContext_def TransitionDirectionFromContext_def assms(1,3) fst_conv
    by (intro tspec_case_option tspec_bind [OF tspec_eff [OF GetClient_action]] tspec_case_sum tspec_bind_call
        tspec_bind [OF checkPhase_evidence [OF assms(2,4)]]
        tspec_bind [OF checkActionName_evidence [OF assms(2,4)]] tspec_ret)
      (auto simp: remoteEvidence_def eventEvidence_def)
  from tspec_calls [OF this, of w] assms(6,7) show ?thesis by blast
qed

definition remoteWaitCtx :: ExecCtx where
  "remoteWaitCtx = ContextWithTransitionDirection (ContextWithTransitionStartedAt
     (ContextWithOwnerRef backgroundCtx (Some (controllerRef (fs_Meta sampleFS) FailoverServiceKind))) 5) ''failover''"

definition transitioningFS :: FailoverService where
  "transitioningFS = sampleFS\<lparr>fs_Status := sampleStatus\<lparr>st_Transition := Some
     \<lparr>tr_Phase = PhaseFlushingConnections, tr_TargetDirection = ''failover'', tr_OldAddressSnapshot = '''',
      tr_NewAddressSnapshot = '''', tr_TransitionID = '''', tr_CurrentActionIndex = 0,
      tr_PreActionResults = [], tr_PostActionResults = [], tr_StartedAt = Some 7,
      tr_ConnectionKill = None, tr_EventName = ''''\<rparr>\<rparr>\<rparr>"

definition waitAction :: FailoverAction where
  "waitAction = sampleAction\<lparr>fa_HTTP := None, fa_WaitRemote := Some \<lparr>wrm_Phase = Some PhaseUpdatingResources,
     wrm_ActionName = None, wrm_ConnectTimeoutSeconds = None, wrm_ActionTimeoutSeconds = None\<rparr>\<rparr>"

theorem waitremote_needs_evidence_witness:
  "remoteEvidence ''default'' ''db'' 5 ''failover''
     (calls (WaitRemoteExecute (Some (sy_ClientProvider (sampleSyncer ''a''))) (secretEnv transitioningFS)
        remoteWaitCtx waitAction ''default'' ''p'' 0) world0)"
proof -
  let ?m = "WaitRemoteExecute (Some (sy_ClientProvider (sampleSyncer ''a''))) (secretEnv transitioningFS)
        remoteWaitCtx waitAction ''default'' ''p'' 0"
  have ctx: "ec_StartedAt remoteWaitCtx = Some 5" "ec_Direction remoteWaitCtx = Some ''failover''"
    "\<exists>ref. ec_OwnerRef remoteWaitCtx = Some ref \<and> or_Name ref = ''db''"
    by (simp_all add: remoteWaitCtx_def ContextWithTransitionDirection_def ContextWithTransitionStartedAt_def
        ContextWithOwnerRef_def fixture_defs)
  then obtain ref where ref: "ec_OwnerRef remoteWaitCtx = Some ref" "or_Name ref = ''db''" by blast
  have "\<exists>x. result ?m world0 = Inr x \<and> ex_Succeeded x"
    by (simp add: result_def WaitRemoteExecute_def GetClient_def call_defs call_def getCache_def setCache_def
        Let_def secretEnv_def sampleSyncer_def world0_def quietEnv_def waitAction_def OwnerRefFromContext_def
        ref checkPhase_def transitioningFS_def transitionMatchesDirection_def sampleAction_def
        TransitionDirectionFromContext_def TransitionStartedAtFromContext_def ctx remoteTransitionStartedAfter_def)
  then obtain x where "result ?m world0 = Inr x" "ex_Succeeded x" by blast
  from waitremote_needs_evidence [OF ctx(1) _ ctx(2) _ ref(1) this] show ?thesis
    by (simp add: ref zeroTime_def)
qed


text \<open>The event that represents the remote transition is the newest one that fits: it is one of the
  listed events, belongs to the FailoverService, matches direction and start time, and no fitting
  event is newer; none is returned only when none fits.\<close>

theorem recent_event_is_newest:
  "case bestEvent n t d evs None zeroTime of
       None \<Rightarrow> \<forall>ev \<in> set evs. \<not> eventFits n t d ev
     | Some r \<Rightarrow> r \<in> set evs \<and> eventFits n t d r \<and>
         (\<forall>ev \<in> set evs. eventFits n t d ev \<longrightarrow> eventTimestamp ev \<le> eventTimestamp r)"
  by (rule bestEvent_newest)

text \<open>Looking up an action in the recorded results succeeds exactly when one result carries the
  name, and reports ambiguity exactly when several do, pre- and post-actions taken together.\<close>

theorem findActionResult_unique:
  "findActionResult pre post n =
     (case filter (\<lambda>r. ar_Name r = n) (pre @ post) of
        [] \<Rightarrow> (None, False, False) | [r] \<Rightarrow> (Some r, True, False) | _ \<Rightarrow> (None, False, True))"
  by (rule findActionResult_spec)

text \<open>Running a Job action never creates a Job that exists: an existing Job only has its conditions
  read; if it is absent, exactly one Job is created, under the deterministic name, in the namespace,
  with the owner reference of the context.\<close>

theorem job_execute_idempotent:
  assumes "fa_Job a = Some spec"
  shows "calls (JobExecute E ctx a ns np i) w =
     (let r = o_getJob E (w_hist w) (ns, jobName np i); g = GetJob (ns, jobName np i) r;
          job = buildJob (jobName np i) ns spec np (ec_OwnerRef ctx) in
      case r of Inr _ \<Rightarrow> [g]
      | Inl e \<Rightarrow> if IsNotFound e then [g, Write (CreateJob job) (o_write E (g # w_hist w) (CreateJob job))] else [g]) \<and>
     (\<forall>j. o_getJob E (w_hist w) (ns, jobName np i) = Inr j \<longrightarrow>
        result (JobExecute E ctx a ns np i) w = Inr (checkJobStatus j (jobName np i)))"
  by (auto simp: calls_def result_def JobExecute_def call_defs call_def Let_def assms OwnerRefFromContext_def
      split: sum.split option.split)

definition condIs :: "string \<Rightarrow> JobCondition \<Rightarrow> bool" where
  "condIs ty c \<longleftrightarrow> jc_Type c = ty \<and> jc_Status c = ''True''"

text \<open>A Job is reported successful exactly when a true \<^verbatim>\<open>Complete\<close> condition stands before any true
  \<^verbatim>\<open>Failed\<close> one, failed in the opposite case, and running when there is neither.\<close>

theorem job_status_decided_by_first_condition:
  "case find (\<lambda>c. condIs ''Complete'' c \<or> condIs ''Failed'' c) (job_Conditions j) of
     None \<Rightarrow> \<not> ex_Completed (checkJobStatus j n)
   | Some c \<Rightarrow> ex_Completed (checkJobStatus j n) \<and> ex_Succeeded (checkJobStatus j n) = condIs ''Complete'' c"
proof -
  have "case find (\<lambda>c. condIs ''Complete'' c \<or> condIs ''Failed'' c) cs of
     None \<Rightarrow> \<not> ex_Completed (checkConditions cs n)
   | Some c \<Rightarrow> ex_Completed (checkConditions cs n) \<and> ex_Succeeded (checkConditions cs n) = condIs ''Complete'' c" for cs
    by (induction cs) (simp_all add: condIs_def split: option.splits)
  then show ?thesis unfolding checkJobStatus_def .
qed

text \<open>Job names stay within the 63 characters of a DNS label; a name within the limit is kept, so
  the actions of one transition get different Jobs as long as their names fit.\<close>

theorem job_names_bounded_distinct:
  "length (jobName np i) \<le> 63 \<and>
   (0 \<le> i \<and> 0 \<le> j \<and> length (np @ ''-action-'' @ show_int i) \<le> 63 \<and> length (np @ ''-action-'' @ show_int j) \<le> 63 \<longrightarrow>
    jobName np i = jobName np j \<longleftrightarrow> i = j)"
  using job_name.bounded [of "(np, i)"] job_name.short_distinct [of "(np, i)" "(np, j)"] show_int_inj [of i j]
  by (auto simp: fullJobName_def)

text \<open>A request that can be built is sent exactly once, and the action succeeds exactly on a 2xx
  status; any other status fails it, and a transport failure is an error the controller may retry.\<close>

theorem http_execute_outcome:
  assumes "fa_HTTP a = Some spec"
    and "x_newRequest E (if ha_Method spec = '''' then ''GET'' else ha_Method spec) (ha_URL spec) = None"
  shows "\<exists>req. hr_URL req = ha_URL spec \<and> hr_Body req = ha_Body spec \<and> hr_Headers req = ha_Headers spec \<and>
     calls (HTTPExecute E ctx a ns np i) w = [HttpDo req (o_httpDo E (w_hist w) req)] \<and>
     (case (o_httpDo E (w_hist w) req, result (HTTPExecute E ctx a ns np i) w) of
        (Inl e, Inl e') \<Rightarrow> err_kind e' = err_kind e
      | (Inr code, Inr x) \<Rightarrow> ex_Completed x \<and> (ex_Succeeded x \<longleftrightarrow> 200 \<le> code \<and> code < 300)
      | _ \<Rightarrow> False)"
  by (rule exI [of _ "\<lparr>hr_Method = (if ha_Method spec = '''' then ''GET'' else ha_Method spec), hr_URL = ha_URL spec,
      hr_Headers = ha_Headers spec, hr_Body = ha_Body spec, hr_Timeout = (case ha_TimeoutSeconds spec of
        None \<Rightarrow> defaultHTTPTimeout | Some s \<Rightarrow> wrap64 (s * second))\<rparr>"])
    (use assms in \<open>auto simp: calls_def result_def HTTPExecute_def call_defs call_def Let_def Errorf_w_def
      split: sum.split option.split\<close>)

text \<open>A wait for readiness succeeds exactly when the workload read has all its desired replicas
  ready, updated and available for the current generation.\<close>

theorem waitready_success:
  assumes "fa_WaitReady a = Some spec" and "wra_Kind spec = ''Deployment'' \<or> wra_Kind spec = ''StatefulSet''"
  shows "(\<exists>x. result (WaitReadyExecute E ctx a ns np i) w = Inr x \<and> ex_Succeeded x) \<longleftrightarrow>
     (\<exists>obj. o_getWorkload E (w_hist w) (wra_Kind spec) (ns, wra_Name spec) = Inr obj \<and> workloadReady obj)"
  using assms by (auto simp: result_def WaitReadyExecute_def checkDeployment_def checkStatefulSet_def
      checkWorkload_def call_defs call_def Let_def split: sum.splits if_splits)

fun scaled_entry :: "string \<Rightarrow> int \<Rightarrow> entry \<Rightarrow> bool" where
  "scaled_entry kind n (GetScale k obj (Inr s)) = (k = kind \<and> scl_Replicas s = n)"
| "scaled_entry kind n (Write (UpdateScale k obj s) None) = (k = kind \<and> scl_Replicas s = n)"
| "scaled_entry kind n _ = False"

text \<open>A Scale action that succeeds leaves the workload scaled as requested: its scale was read with
  the requested number of replicas, or an update to that number was accepted.\<close>

theorem scale_success:
  assumes "fa_Scale a = Some spec"
    and "result (ScaleExecute (Some WaitReadyExecute) E ctx a ns np i) w = Inr x" "ex_Succeeded x"
  shows "\<exists>e \<in> set (calls (ScaleExecute (Some WaitReadyExecute) E ctx a ns np i) w).
     scaled_entry (sa_Kind spec) (sa_Replicas spec) e"
proof -
  have "tspec (ScaleExecute (Some WaitReadyExecute) E ctx a ns np i)
     (\<lambda>r cs. \<forall>x. r = Inr x \<longrightarrow> ex_Succeeded x \<longrightarrow> (\<exists>e \<in> set cs. scaled_entry (sa_Kind spec) (sa_Replicas spec) e))"
    unfolding ScaleExecute_def assms(1) option.case Let_def getScale_def kwrite_def
    by (intro tspec_bind [OF tspec_eff [OF getScalableObject_action]] tspec_case_sum tspec_if tspec_bind_call
        tspec_case_option tspec_ret tspec_weaken [OF tspec_eff [OF wait_ready.contract]]) auto
  from tspec_calls [OF this, of w] assms(2,3) show ?thesis by blast
qed

text \<open>The timeout check compares the clock with the start plus the timeout, provided that the timeout
  in nanoseconds fits an \<^verbatim>\<open>int64\<close>; an action that has no start time never times out.\<close>

theorem checkTimeout_exact:
  assumes "in_int64 (s * second)"
  shows "result (CheckTimeout E st s) w =
     (case st of None \<Rightarrow> False | Some t \<Rightarrow> o_now E (w_hist w) > t + s * second)"
  using assms by (simp add: CheckTimeout_def result_def call_defs call_def wrap64_id Let_def split: option.split)

text \<open>A timeout of 9223372037 seconds, which the API accepts, overflows the duration: the action
  counts as timed out at the moment it starts.\<close>

theorem checkTimeout_overflow:
  assumes "o_now E (w_hist w) = t"
  shows "result (CheckTimeout E (Some t) 9223372037) w"
  using assms by (simp add: CheckTimeout_def result_def call_defs call_def wrap64_def second_def)

end
