(* ===== verification/Json.thy ===== *)
theory Json
  imports Prelude
begin

text \<open>
  What the sources use of \<^verbatim>\<open>encoding/json\<close>: \<^verbatim>\<open>Marshal\<close> of a flat struct with string and integer
  fields, and \<^verbatim>\<open>Unmarshal\<close> into one.  \<open>parse_json\<close> is the syntax check and the literal decoding of
  the library, a recursive descent with fuel: every level of nesting consumes a byte of the input, so
  its length is enough.  Member names are matched like in Go, exactly or else up to ASCII case; a
  repeated member overrides, \<^verbatim>\<open>null\<close> leaves the field, an unknown member is skipped, and a value of
  the wrong type or an integer outside \<^verbatim>\<open>int64\<close> makes the call fail.
\<close>

datatype json = JNull | JBool bool | JNum string | JStr string | JArr "json list" | JObj "(string \<times> json) list"

abbreviation dq :: char where "dq \<equiv> CHR 0x22"
abbreviation bs :: char where "bs \<equiv> CHR 0x5C"

section \<open>UTF-8\<close>

definition cbyte :: "char \<Rightarrow> nat" where
  "cbyte c = of_char c"

definition isCont :: "char \<Rightarrow> bool" where
  "isCont c \<longleftrightarrow> 128 \<le> cbyte c \<and> cbyte c < 192"

text \<open>The length of the rune at the head of a string, 0 if the bytes there are not valid UTF-8.\<close>

definition runeLen :: "string \<Rightarrow> nat" where
  "runeLen s =
     (case s of [] \<Rightarrow> 0
      | a # s1 \<Rightarrow>
        if cbyte a < 128 then 1
        else case s1 of [] \<Rightarrow> 0
        | b # s2 \<Rightarrow>
          if 194 \<le> cbyte a \<and> cbyte a \<le> 223 then (if isCont b then 2 else 0)
          else case s2 of [] \<Rightarrow> 0
          | c # s3 \<Rightarrow>
            if 224 \<le> cbyte a \<and> cbyte a \<le> 239 then
              (if isCont b \<and> isCont c \<and> (cbyte a = 224 \<longrightarrow> 160 \<le> cbyte b) \<and>
                 (cbyte a = 237 \<longrightarrow> cbyte b < 160) then 3 else 0)
            else case s3 of [] \<Rightarrow> 0
            | d # _ \<Rightarrow>
              if 240 \<le> cbyte a \<and> cbyte a \<le> 244 \<and> isCont b \<and> isCont c \<and> isCont d \<and>
                (cbyte a = 240 \<longrightarrow> 144 \<le> cbyte b) \<and> (cbyte a = 244 \<longrightarrow> cbyte b < 144) then 4 else 0)"

definition encodeRune :: "nat \<Rightarrow> string" where
  "encodeRune r =
     (let ch = (\<lambda>n. char_of (n :: nat)) in
      if r < 128 then [ch r]
      else if r < 2048 then [ch (192 + r div 64), ch (128 + r mod 64)]
      else if (55296 \<le> r \<and> r \<le> 57343) \<or> 1114111 < r then [ch 239, ch 191, ch 189]
      else if r < 65536 then [ch (224 + r div 4096), ch (128 + r div 64 mod 64), ch (128 + r mod 64)]
      else [ch (240 + r div 262144), ch (128 + r div 4096 mod 64), ch (128 + r div 64 mod 64), ch (128 + r mod 64)])"

definition runeError :: string where
  "runeError = encodeRune 65533"

section \<open>Marshal\<close>

definition escape_byte :: "char \<Rightarrow> string" where
  "escape_byte c =
     (let n = cbyte c in
      if c = dq \<or> c = bs then [bs, c]
      else if n = 8 then [bs, CHR ''b'']
      else if n = 12 then [bs, CHR ''f'']
      else if n = 10 then [bs, CHR ''n'']
      else if n = 13 then [bs, CHR ''r'']
      else if n = 9 then [bs, CHR ''t'']
      else if n < 32 \<or> c = CHR ''<'' \<or> c = CHR ''>'' \<or> c = CHR ''&''
        then [bs, CHR ''u'', CHR ''0'', CHR ''0'', hexdigit (n div 16), hexdigit (n mod 16)]
      else [c])"

fun escape :: "string \<Rightarrow> string" where
  "escape [] = []"
| "escape (c # s) =
     (if cbyte c < 128 then escape_byte c @ escape s
      else let l = runeLen (c # s) in
        if l = 0 then bs # ''ufffd'' @ escape s
        else if take l (c # s) = encodeRune 8232 then bs # ''u2028'' @ escape (drop (l - 1) s)
        else if take l (c # s) = encodeRune 8233 then bs # ''u2029'' @ escape (drop (l - 1) s)
        else take l (c # s) @ escape (drop (l - 1) s))"

definition print_string :: "string \<Rightarrow> string" where
  "print_string s = dq # escape s @ [dq]"

text \<open>The scalar values of a flat struct; an integer is printed in decimal.\<close>

fun print_scalar :: "json \<Rightarrow> string" where
  "print_scalar (JStr s) = print_string s"
| "print_scalar (JNum n) = n"
| "print_scalar _ = ''null''"

fun print_members :: "(string \<times> json) list \<Rightarrow> string" where
  "print_members [] = []"
| "print_members [(k, v)] = print_string k @ '':'' @ print_scalar v"
| "print_members ((k, v) # m # ms) = print_string k @ '':'' @ print_scalar v @ '','' @ print_members (m # ms)"

definition print_object :: "(string \<times> json) list \<Rightarrow> string" where
  "print_object ms = ''{'' @ print_members ms @ ''}''"

section \<open>Unmarshal\<close>

definition is_space :: "char \<Rightarrow> bool" where
  "is_space c \<longleftrightarrow> cbyte c \<in> {32, 9, 10, 13}"

definition skip_space :: "string \<Rightarrow> string" where
  "skip_space s = dropWhile is_space s"

definition hexval :: "char \<Rightarrow> nat option" where
  "hexval c =
     (let n = cbyte c in
      if 48 \<le> n \<and> n \<le> 57 then Some (n - 48)
      else if 97 \<le> n \<and> n \<le> 102 then Some (n - 87)
      else if 65 \<le> n \<and> n \<le> 70 then Some (n - 55) else None)"

fun hex4 :: "string \<Rightarrow> (nat \<times> string) option" where
  "hex4 (a # b # c # d # s) =
     (case (hexval a, hexval b, hexval c, hexval d) of
        (Some w, Some x, Some y, Some z) \<Rightarrow> Some (4096 * w + 256 * x + 16 * y + z, s)
      | _ \<Rightarrow> None)"
| "hex4 _ = None"

definition simple_escape :: "char \<Rightarrow> char option" where
  "simple_escape e =
     (if e = dq \<or> e = bs \<or> e = CHR ''/'' then Some e
      else if e = CHR ''b'' then Some (char_of (8::nat))
      else if e = CHR ''f'' then Some (char_of (12::nat))
      else if e = CHR ''n'' then Some (char_of (10::nat))
      else if e = CHR ''r'' then Some (char_of (13::nat))
      else if e = CHR ''t'' then Some (char_of (9::nat)) else None)"

text \<open>The \<open>u\<close> escape, with its four digits read: a surrogate pair is one rune, a lone surrogate is replaced.\<close>

definition escaped_rune :: "nat \<Rightarrow> string \<Rightarrow> string \<times> string" where
  "escaped_rune r s =
     (if 55296 \<le> r \<and> r \<le> 57343 then
        (case s of
           a # b # t \<Rightarrow>
             if r < 56320 \<and> a = bs \<and> b = CHR ''u'' then
               (case hex4 t of
                  Some (r2, t') \<Rightarrow>
                    if 56320 \<le> r2 \<and> r2 \<le> 57343
                    then (encodeRune (65536 + (r - 55296) * 1024 + (r2 - 56320)), t') else (runeError, s)
                | None \<Rightarrow> (runeError, s))
             else (runeError, s)
         | _ \<Rightarrow> (runeError, s))
      else (encodeRune r, s))"

lemma hex4_length: "hex4 s = Some (r, t) \<Longrightarrow> length t < length s"
  by (cases s rule: hex4.cases) (auto split: option.splits)

lemma escaped_rune_length: "length (snd (escaped_rune r s)) \<le> length s"
  by (auto simp: escaped_rune_def split: list.split option.split dest: hex4_length)

text \<open>The rest of a string literal after its opening quote.\<close>

function (sequential) parse_chars :: "string \<Rightarrow> (string \<times> string) option" where
  "parse_chars [] = None"
| "parse_chars (c # s) =
     (if c = dq then Some ([], s)
      else if c = bs then
        (case s of [] \<Rightarrow> None
         | e # s' \<Rightarrow>
           if e = CHR ''u'' then
             (case hex4 s' of None \<Rightarrow> None
              | Some (r, t) \<Rightarrow>
                  map_option (\<lambda>(u, v). (fst (escaped_rune r t) @ u, v)) (parse_chars (snd (escaped_rune r t))))
           else (case simple_escape e of None \<Rightarrow> None
              | Some x \<Rightarrow> map_option (\<lambda>(u, v). (x # u, v)) (parse_chars s')))
      else if cbyte c < 32 then None
      else let l = runeLen (c # s) in
        if l = 0 then map_option (\<lambda>(u, v). (runeError @ u, v)) (parse_chars s)
        else map_option (\<lambda>(u, v). (take l (c # s) @ u, v)) (parse_chars (drop (l - 1) s)))"
  by pat_completeness auto

termination
proof (relation "measure length", goal_cases)
  case (2 c s e s' h r t)
  then show ?case
    using hex4_length [of s'] escaped_rune_length [of r t] by fastforce
qed auto

definition digits :: "string \<Rightarrow> string \<times> string" where
  "digits s = (takeWhile is_digit s, dropWhile is_digit s)"

definition sign :: "string \<Rightarrow> string \<times> string" where
  "sign s = (case s of c # t \<Rightarrow> if c = CHR ''-'' then ([c], t) else ([], s) | [] \<Rightarrow> ([], []))"

definition parse_int_part :: "string \<Rightarrow> (string \<times> string) option" where
  "parse_int_part s =
     (case s of [] \<Rightarrow> None
      | c # t \<Rightarrow> if c = CHR ''0'' then Some ([c], t)
          else if is_digit c then Some (digits s) else None)"

definition parse_fraction :: "string \<Rightarrow> (string \<times> string) option" where
  "parse_fraction s =
     (case s of c # t \<Rightarrow>
        if c = CHR ''.'' then (case digits t of ([], _) \<Rightarrow> None | (d, u) \<Rightarrow> Some (c # d, u))
        else Some ([], s)
      | [] \<Rightarrow> Some ([], []))"

definition parse_exponent :: "string \<Rightarrow> (string \<times> string) option" where
  "parse_exponent s =
     (case s of c # t \<Rightarrow>
        if c = CHR ''e'' \<or> c = CHR ''E'' then
          (let (sg, t') = (case t of x # y \<Rightarrow> if x = CHR ''+'' \<or> x = CHR ''-'' then ([x], y) else ([], t) | [] \<Rightarrow> ([], [])) in
           case digits t' of ([], _) \<Rightarrow> None | (d, u) \<Rightarrow> Some (c # sg @ d, u))
        else Some ([], s)
      | [] \<Rightarrow> Some ([], []))"

definition parse_number :: "string \<Rightarrow> (string \<times> string) option" where
  "parse_number s =
     (let (sg, s1) = sign s in
      case parse_int_part s1 of None \<Rightarrow> None
      | Some (i, s2) \<Rightarrow>
        (case parse_fraction s2 of None \<Rightarrow> None
         | Some (f, s3) \<Rightarrow>
           (case parse_exponent s3 of None \<Rightarrow> None
            | Some (e, s4) \<Rightarrow> Some (sg @ i @ f @ e, s4))))"

fun parse_value :: "nat \<Rightarrow> string \<Rightarrow> (json \<times> string) option"
  and parse_elements :: "nat \<Rightarrow> string \<Rightarrow> (json list \<times> string) option"
  and parse_obj :: "nat \<Rightarrow> string \<Rightarrow> ((string \<times> json) list \<times> string) option" where
  "parse_value 0 s = None"
| "parse_value (Suc n) s =
     (case skip_space s of [] \<Rightarrow> None
      | c # t \<Rightarrow>
        if c = dq then map_option (\<lambda>(u, v). (JStr u, v)) (parse_chars t)
        else if c = CHR ''{'' then
          (case skip_space t of
             x # t' \<Rightarrow> if x = CHR ''}'' then Some (JObj [], t')
               else map_option (\<lambda>(ms, v). (JObj ms, v)) (parse_obj n t)
           | [] \<Rightarrow> None)
        else if c = CHR ''['' then
          (case skip_space t of
             x # t' \<Rightarrow> if x = CHR '']'' then Some (JArr [], t')
               else map_option (\<lambda>(vs, v). (JArr vs, v)) (parse_elements n t)
           | [] \<Rightarrow> None)
        else if take 4 (c # t) = ''null'' then Some (JNull, drop 3 t)
        else if take 4 (c # t) = ''true'' then Some (JBool True, drop 3 t)
        else if take 5 (c # t) = ''false'' then Some (JBool False, drop 4 t)
        else map_option (\<lambda>(x, v). (JNum x, v)) (parse_number (c # t)))"
| "parse_elements 0 s = None"
| "parse_elements (Suc n) s =
     (case parse_value n s of None \<Rightarrow> None
      | Some (v, t) \<Rightarrow>
        (case skip_space t of [] \<Rightarrow> None
         | c # t' \<Rightarrow> if c = CHR '']'' then Some ([v], t')
             else if c = CHR '','' then map_option (\<lambda>(vs, u). (v # vs, u)) (parse_elements n t')
             else None))"
| "parse_obj 0 s = None"
| "parse_obj (Suc n) s =
     (case skip_space s of [] \<Rightarrow> None
      | q # s1 \<Rightarrow> if q \<noteq> dq then None else
        (case parse_chars s1 of None \<Rightarrow> None
         | Some (k, s2) \<Rightarrow>
           (case skip_space s2 of [] \<Rightarrow> None
            | c # s3 \<Rightarrow> if c \<noteq> CHR '':'' then None else
              (case parse_value n s3 of None \<Rightarrow> None
               | Some (v, s4) \<Rightarrow>
                 (case skip_space s4 of [] \<Rightarrow> None
                  | d # s5 \<Rightarrow> if d = CHR ''}'' then Some ([(k, v)], s5)
                      else if d = CHR '','' then map_option (\<lambda>(ms, u). ((k, v) # ms, u)) (parse_obj n s5)
                      else None)))))"

definition parse_json :: "string \<Rightarrow> json option" where
  "parse_json s =
     (case parse_value (Suc (length s)) s of
        Some (v, t) \<Rightarrow> if skip_space t = [] then Some v else None
      | None \<Rightarrow> None)"

section \<open>Decoding into a flat struct\<close>

definition lower :: "char \<Rightarrow> char" where
  "lower c = (if 65 \<le> cbyte c \<and> cbyte c \<le> 90 then char_of (cbyte c + 32) else c)"

text \<open>A field is found by its exact name, or else by the name up to case.\<close>

definition field_of :: "string list \<Rightarrow> string \<Rightarrow> string option" where
  "field_of fields k =
     (if k \<in> set fields then Some k else List.find (\<lambda>f. map lower f = map lower k) fields)"

text \<open>\<^verbatim>\<open>strconv.ParseInt\<close> with base 10 and 64 bits on a JSON number literal.\<close>

definition parse_int64 :: "string \<Rightarrow> int option" where
  "parse_int64 s =
     (let (sg, d) = sign s; n = (if sg = [] then int (nat_of_digits d) else - int (nat_of_digits d)) in
      if d \<noteq> [] \<and> list_all is_digit d \<and> in_int64 n then Some n else None)"

text \<open>\<open>set_str\<close> and \<open>set_int\<close> store a decoded value: they return the struct, or nothing on a type
  error; \<open>set\<close> is the setter of the struct, \<open>None\<close> for a field of the other type.\<close>

definition decode_members ::
    "string list \<Rightarrow> (string \<Rightarrow> string \<Rightarrow> 'r \<Rightarrow> 'r option) \<Rightarrow> (string \<Rightarrow> int \<Rightarrow> 'r \<Rightarrow> 'r option) \<Rightarrow>
     (string \<times> json) list \<Rightarrow> 'r option \<Rightarrow> 'r option" where
  "decode_members fields set_str set_int ms r =
     foldl (\<lambda>r (k, v). case field_of fields k of None \<Rightarrow> r
        | Some f \<Rightarrow> Option.bind r (\<lambda>x. case v of
             JNull \<Rightarrow> Some x
           | JStr s \<Rightarrow> set_str f s x
           | JNum n \<Rightarrow> Option.bind (parse_int64 n) (\<lambda>i. set_int f i x)
           | _ \<Rightarrow> None)) r ms"

definition unmarshal ::
    "string list \<Rightarrow> (string \<Rightarrow> string \<Rightarrow> 'r \<Rightarrow> 'r option) \<Rightarrow> (string \<Rightarrow> int \<Rightarrow> 'r \<Rightarrow> 'r option) \<Rightarrow> 'r \<Rightarrow>
     string \<Rightarrow> 'r option" where
  "unmarshal fields set_str set_int zero s =
     (case parse_json s of
        Some (JObj ms) \<Rightarrow> decode_members fields set_str set_int ms (Some zero)
      | Some JNull \<Rightarrow> Some zero
      | _ \<Rightarrow> None)"


section \<open>Round trip\<close>

definition ascii :: "string \<Rightarrow> bool" where
  "ascii s \<longleftrightarrow> (\<forall>c \<in> set s. cbyte c < 128)"

lemma ascii_simps [simp]: "ascii []" "ascii (c # s) \<longleftrightarrow> cbyte c < 128 \<and> ascii s"
  "ascii (s @ t) \<longleftrightarrow> ascii s \<and> ascii t"
  by (auto simp: ascii_def)

lemma cbyte_char_of [simp]: "n < 256 \<Longrightarrow> cbyte (char_of n) = n"
  by (simp add: cbyte_def)

lemma char_of_cbyte [simp]: "char_of (cbyte c) = c"
  by (simp add: cbyte_def)

lemma cbyte_inject: "cbyte c = cbyte d \<longleftrightarrow> c = d"
  by (simp add: cbyte_def)

lemma hexval_hexdigit [simp]: "d < 16 \<Longrightarrow> hexval (hexdigit d) = Some d"
  by (simp add: hexdigit_def hexval_def Let_def)

lemma parse_chars_u00:
  assumes "cbyte c < 128"
  shows "parse_chars (bs # CHR ''u'' # CHR ''0'' # CHR ''0'' # hexdigit (cbyte c div 16) # hexdigit (cbyte c mod 16) # s) =
    map_option (\<lambda>(u, v). (c # u, v)) (parse_chars s)"
proof -
  have "hexval CHR ''0'' = Some 0" by (simp add: hexval_def cbyte_def)
  with assms have "hex4 (CHR ''0'' # CHR ''0'' # hexdigit (cbyte c div 16) # hexdigit (cbyte c mod 16) # s) = Some (cbyte c, s)"
    by simp
  with assms show ?thesis
    by (simp add: escaped_rune_def encodeRune_def Let_def)
qed

lemma simple_escapes:
  "simple_escape dq = Some dq" "simple_escape bs = Some bs" "simple_escape CHR ''b'' = Some (char_of (8::nat))"
  "simple_escape CHR ''f'' = Some (char_of (12::nat))" "simple_escape CHR ''n'' = Some (char_of (10::nat))"
  "simple_escape CHR ''r'' = Some (char_of (13::nat))" "simple_escape CHR ''t'' = Some (char_of (9::nat))"
  by (simp_all add: simple_escape_def)

lemma parse_chars_simple:
  "e \<noteq> CHR ''u'' \<Longrightarrow> simple_escape e = Some x \<Longrightarrow>
   parse_chars (bs # e # s) = map_option (\<lambda>(u, v). (x # u, v)) (parse_chars s)"
  by simp

lemma parse_chars_plain:
  "c \<noteq> dq \<Longrightarrow> c \<noteq> bs \<Longrightarrow> 32 \<le> cbyte c \<Longrightarrow> cbyte c < 128 \<Longrightarrow>
   parse_chars (c # s) = map_option (\<lambda>(u, v). (c # u, v)) (parse_chars s)"
  by (simp add: runeLen_def Let_def)

lemma cbyte_html [simp]: "cbyte CHR ''<'' = 60" "cbyte CHR ''>'' = 62" "cbyte CHR ''&'' = 38"
  by (simp_all add: cbyte_def)

lemma parse_chars_escape_byte:
  assumes "cbyte c < 128"
  shows "parse_chars (escape_byte c @ s) = map_option (\<lambda>(u, v). (c # u, v)) (parse_chars s)"
proof -
  have eq: "cbyte c = n \<Longrightarrow> c = char_of n" for n using char_of_cbyte [of c] by simp
  show ?thesis
    unfolding escape_byte_def Let_def
    using parse_chars_u00 [OF assms, of s] assms
    by (auto simp: simple_escapes parse_chars_simple parse_chars_plain dest: eq simp del: parse_chars.simps)
qed

lemma parse_chars_escape: "ascii s \<Longrightarrow> parse_chars (escape s @ dq # rest) = Some (s, rest)"
proof (induction s)
  case (Cons c s)
  then show ?case by (simp add: parse_chars_escape_byte del: parse_chars.simps)
qed simp

text \<open>Numbers.\<close>

lemma show_nat_0: "show_nat 0 = ''0''"
  by code_simp

lemma show_nat_hd: "0 < n \<Longrightarrow> \<exists>c t. show_nat n = c # t \<and> c \<noteq> CHR ''0'' \<and> is_digit c"
proof (induction n rule: show_nat.induct)
  case (1 n)
  show ?case
  proof (cases "n < 10")
    case True
    have "digit_char n \<noteq> CHR ''0''"
    proof
      assume "digit_char n = CHR ''0''"
      then have "of_char (digit_char n) = (48::nat)" by simp
      with True 1 show False by simp
    qed
    with True show ?thesis by (simp add: show_nat.simps [of n] is_digit_digit_char)
  next
    case False
    then have "0 < n div 10" by simp
    from "1.IH" [OF False this] False show ?thesis by (auto simp: show_nat.simps [of n])
  qed
qed

definition stops_number :: "string \<Rightarrow> bool" where
  "stops_number s \<longleftrightarrow> (case s of [] \<Rightarrow> True
     | c # _ \<Rightarrow> \<not> is_digit c \<and> c \<noteq> CHR ''.'' \<and> c \<noteq> CHR ''e'' \<and> c \<noteq> CHR ''E'')"

lemma digits_show_nat:
  assumes "stops_number rest" shows "digits (show_nat n @ rest) = (show_nat n, rest)"
proof -
  have "\<forall>x \<in> set (show_nat n). is_digit x" using show_nat_digits by blast
  with assms show ?thesis
    by (auto simp: digits_def stops_number_def takeWhile_append dropWhile_append split: list.splits)
qed

lemma parse_int_part_show:
  assumes "stops_number rest" shows "parse_int_part (show_nat n @ rest) = Some (show_nat n, rest)"
proof (cases "n = 0")
  case True
  then show ?thesis by (simp add: parse_int_part_def show_nat_0)
next
  case False
  then obtain c t where "show_nat n = c # t" "c \<noteq> CHR ''0''" "is_digit c" using show_nat_hd by blast
  with digits_show_nat [OF assms, of n] show ?thesis by (simp add: parse_int_part_def)
qed

lemma stops_number_rest:
  assumes "stops_number rest"
  shows "parse_fraction rest = Some ([], rest)" "parse_exponent rest = Some ([], rest)"
  using assms by (auto simp: stops_number_def parse_fraction_def parse_exponent_def split: list.splits)

lemma show_nat_no_sign: "show_nat n @ rest = c # t \<Longrightarrow> c \<noteq> CHR ''-''"
proof -
  assume "show_nat n @ rest = c # t"
  then have "c \<in> set (show_nat n)" by (metis append_eq_Cons_conv list.set_intros(1) show_nat_not_Nil)
  then have "is_digit c" by (rule show_nat_digits)
  then show "c \<noteq> CHR ''-''" by (auto simp: is_digit_def)
qed

lemma sign_show_nat: "sign (show_nat n @ rest) = ([], show_nat n @ rest)"
  using show_nat_no_sign [of n rest] by (auto simp: sign_def split: list.split)

lemma sign_minus: "sign (CHR ''-'' # s) = (''-'', s)"
  by (simp add: sign_def)

lemma parse_number_show_int:
  assumes "stops_number rest" shows "parse_number (show_int n @ rest) = Some (show_int n, rest)"
  by (simp add: parse_number_def show_int_def sign_show_nat sign_minus parse_int_part_show [OF assms]
      stops_number_rest [OF assms] split: prod.split)

lemma parse_int64_show_int: "in_int64 n \<Longrightarrow> parse_int64 (show_int n) = Some n"
proof -
  assume n: "in_int64 n"
  have d: "list_all is_digit (show_nat k)" for k using show_nat_digits by (auto simp: list_all_iff)
  show ?thesis
    using n sign_show_nat [of "nat n" "[]"]
    by (auto simp: parse_int64_def show_int_def sign_minus d show_nat_inverse)
qed

declare parse_chars.simps [simp del] parse_value.simps [simp del] parse_elements.simps [simp del] parse_obj.simps [simp del]

text \<open>Objects of scalars.\<close>

fun printable :: "json \<Rightarrow> bool" where
  "printable (JStr s) = ascii s"
| "printable (JNum n) = (\<exists>i. n = show_int i)"
| "printable _ = False"

definition ends_value :: "string \<Rightarrow> bool" where
  "ends_value s \<longleftrightarrow> (\<exists>t. s = CHR '','' # t \<or> s = CHR ''}'' # t)"

lemma ends_value_stops: "ends_value s \<Longrightarrow> stops_number s"
  by (auto simp: ends_value_def stops_number_def is_digit_def)

lemma show_int_head:
  obtains c t where "show_int n = c # t" "is_digit c \<or> c = CHR ''-''"
proof (cases "n < 0")
  case False
  obtain c t where "show_nat (nat n) = c # t" by (metis list.exhaust show_nat_not_Nil)
  with False show ?thesis using that show_nat_digits [of c "nat n"] by (simp add: show_int_def)
qed (use that in \<open>simp add: show_int_def\<close>)

lemma parse_value_scalar:
  assumes "printable v" "ends_value rest"
  shows "parse_value (Suc n) (print_scalar v @ rest) = Some (v, rest)"
  using assms(1)
proof (cases v rule: printable.cases)
  case (1 s)
  with assms(1) show ?thesis
    by (simp add: parse_value.simps skip_space_def is_space_def cbyte_def print_string_def parse_chars_escape)
next
  case (2 m)
  with assms(1) obtain i where i: "m = show_int i" by auto
  obtain c t where c: "show_int i = c # t" "is_digit c \<or> c = CHR ''-''" by (rule show_int_head)
  then have other: "c \<noteq> dq" "c \<noteq> CHR ''{''" "c \<noteq> CHR ''[''" "c \<noteq> CHR ''n''" "c \<noteq> CHR ''t''" "c \<noteq> CHR ''f''" "\<not> is_space c"
    by (auto simp: is_digit_def is_space_def cbyte_def)
  from parse_number_show_int [OF ends_value_stops [OF assms(2)], of i] c(1)
  have "parse_number (c # t @ rest) = Some (c # t, rest)" by simp
  with 2 i c(1) other show ?thesis by (simp add: parse_value.simps skip_space_def)
qed simp_all

lemma parse_obj_print:
  assumes "\<forall>(k, v) \<in> set ms. ascii k \<and> printable v" "ms \<noteq> []" "length ms < n"
  shows "parse_obj n (print_members ms @ CHR ''}'' # rest) = Some (ms, rest)"
  using assms
proof (induction ms arbitrary: n rule: print_members.induct)
  case (2 k v)
  define m where "m = n - 2"
  with 2 have n: "n = Suc (Suc m)" by simp
  have "ends_value (CHR ''}'' # rest)" by (simp add: ends_value_def)
  with 2 n parse_value_scalar [of v "CHR ''}'' # rest" m] show ?case
    by (simp add: parse_obj.simps(2) [of "Suc m"] skip_space_def is_space_def cbyte_def print_string_def parse_chars_escape)
next
  case (3 k v x ms)
  define m where "m = n - 2"
  with 3 have n: "n = Suc (Suc m)" by simp
  have "ends_value (CHR '','' # print_members (x # ms) @ CHR ''}'' # rest)" by (simp add: ends_value_def)
  with 3 n parse_value_scalar [of v _ m] show ?case
    by (simp add: parse_obj.simps(2) [of "Suc m"] skip_space_def is_space_def cbyte_def print_string_def parse_chars_escape)
qed simp

lemma length_print_members: "length ms \<le> length (print_members ms)"
  by (induction ms rule: print_members.induct) (simp_all add: print_string_def)

lemma parse_json_print:
  assumes "\<forall>(k, v) \<in> set ms. ascii k \<and> printable v" "ms \<noteq> []"
  shows "parse_json (print_object ms) = Some (JObj ms)"
proof -
  obtain k v ms' where ms: "ms = (k, v) # ms'" using assms(2) by (cases ms) auto
  then obtain t where t: "print_members ms = dq # t" by (cases ms') (auto simp: print_string_def)
  have "length ms < length (print_object ms)"
    using length_print_members [of ms] by (simp add: print_object_def)
  from parse_obj_print [OF assms this, of "[]"] t show ?thesis
    by (simp add: parse_json_def parse_value.simps print_object_def skip_space_def is_space_def cbyte_def)
qed

text \<open>A codec: what is decoded from an encoding is what was encoded.\<close>

locale json_codec =
  fixes marshal :: "'r \<Rightarrow> string" and unmarshal_to :: "string \<Rightarrow> 'r option" and encodable :: "'r \<Rightarrow> bool"
  assumes roundtrip: "encodable x \<Longrightarrow> unmarshal_to (marshal x) = Some x"
begin

lemma marshal_inj: "encodable x \<Longrightarrow> encodable y \<Longrightarrow> marshal x = marshal y \<longleftrightarrow> x = y"
  using roundtrip by (metis option.inject)

end

end
