(* ===== verification/ConnSignaler.thy ===== *)
theory ConnSignaler
  imports Fixtures Json
begin

text \<open>
  \<^verbatim>\<open>src/internal/connkill/signaler.go\<close>: the controller's side of the connection-kill protocol.  The
  controller writes one kill signal per node into a ConfigMap, the agent on each node answers with an
  acknowledgement under the key with the same suffix, and the entries of a FailoverService are
  removed after its transition.
\<close>

section \<open>Signals and acknowledgements\<close>

definition ConfigMapName :: string where "ConfigMapName = ''connection-kill-signal''"
definition agentLabelKey :: string where "agentLabelKey = ''app.kubernetes.io/name''"
definition agentLabelVal :: string where "agentLabelVal = ''connection-killer''"

record KillSignal =
  ks_IP :: string
  ks_Seq :: int
  ks_Token :: string
  ks_Node :: string
  ks_FSNamespace :: string
  ks_FSName :: string

record KillAck =
  ka_Seq :: int
  ka_Token :: string
  ka_Node :: string
  ka_FSNamespace :: string
  ka_FSName :: string
  ka_Killed :: int
  ka_Errors :: int

record AckStatus =
  as_AllAcked :: bool
  as_AckedNodes :: "string list"
  as_PendingNodes :: "string list"
  as_ErrorNodes :: "string list"

record Signaler =
  sg_Namespace :: string

text \<open>The JSON form of the two structs: field order and \<^verbatim>\<open>omitempty\<close> as tagged.\<close>

definition omitempty :: "string \<Rightarrow> string \<Rightarrow> (string \<times> json) list" where
  "omitempty name v = (if v = '''' then [] else [(name, JStr v)])"

definition marshalSignal :: "KillSignal \<Rightarrow> string" where
  "marshalSignal s = print_object ([(''ip'', JStr (ks_IP s)), (''seq'', JNum (show_int (ks_Seq s)))] @
     omitempty ''token'' (ks_Token s) @ omitempty ''node'' (ks_Node s) @
     omitempty ''fsNamespace'' (ks_FSNamespace s) @ omitempty ''fsName'' (ks_FSName s))"

definition marshalAck :: "KillAck \<Rightarrow> string" where
  "marshalAck a = print_object ([(''seq'', JNum (show_int (ka_Seq a)))] @
     omitempty ''token'' (ka_Token a) @ omitempty ''node'' (ka_Node a) @
     omitempty ''fsNamespace'' (ka_FSNamespace a) @ omitempty ''fsName'' (ka_FSName a) @
     [(''killed'', JNum (show_int (ka_Killed a))), (''errors'', JNum (show_int (ka_Errors a)))])"

definition zeroSignal :: KillSignal where
  "zeroSignal = \<lparr>ks_IP = '''', ks_Seq = 0, ks_Token = '''', ks_Node = '''', ks_FSNamespace = '''', ks_FSName = ''''\<rparr>"

definition zeroAck :: KillAck where
  "zeroAck = \<lparr>ka_Seq = 0, ka_Token = '''', ka_Node = '''', ka_FSNamespace = '''', ka_FSName = '''',
     ka_Killed = 0, ka_Errors = 0\<rparr>"

definition setSignalStr :: "string \<Rightarrow> string \<Rightarrow> KillSignal \<Rightarrow> KillSignal option" where
  "setSignalStr f v s =
     (if f = ''ip'' then Some (s\<lparr>ks_IP := v\<rparr>)
      else if f = ''token'' then Some (s\<lparr>ks_Token := v\<rparr>)
      else if f = ''node'' then Some (s\<lparr>ks_Node := v\<rparr>)
      else if f = ''fsNamespace'' then Some (s\<lparr>ks_FSNamespace := v\<rparr>)
      else if f = ''fsName'' then Some (s\<lparr>ks_FSName := v\<rparr>) else None)"

definition setSignalInt :: "string \<Rightarrow> int \<Rightarrow> KillSignal \<Rightarrow> KillSignal option" where
  "setSignalInt f v s = (if f = ''seq'' then Some (s\<lparr>ks_Seq := v\<rparr>) else None)"

definition setAckStr :: "string \<Rightarrow> string \<Rightarrow> KillAck \<Rightarrow> KillAck option" where
  "setAckStr f v a =
     (if f = ''token'' then Some (a\<lparr>ka_Token := v\<rparr>)
      else if f = ''node'' then Some (a\<lparr>ka_Node := v\<rparr>)
      else if f = ''fsNamespace'' then Some (a\<lparr>ka_FSNamespace := v\<rparr>)
      else if f = ''fsName'' then Some (a\<lparr>ka_FSName := v\<rparr>) else None)"

definition setAckInt :: "string \<Rightarrow> int \<Rightarrow> KillAck \<Rightarrow> KillAck option" where
  "setAckInt f v a =
     (if f = ''seq'' then Some (a\<lparr>ka_Seq := v\<rparr>)
      else if f = ''killed'' then Some (a\<lparr>ka_Killed := v\<rparr>)
      else if f = ''errors'' then Some (a\<lparr>ka_Errors := v\<rparr>) else None)"

definition unmarshalSignal :: "string \<Rightarrow> KillSignal option" where
  "unmarshalSignal = unmarshal [''ip'', ''seq'', ''token'', ''node'', ''fsNamespace'', ''fsName'']
     setSignalStr setSignalInt zeroSignal"

definition unmarshalAck :: "string \<Rightarrow> KillAck option" where
  "unmarshalAck = unmarshal [''seq'', ''token'', ''node'', ''fsNamespace'', ''fsName'', ''killed'', ''errors'']
     setAckStr setAckInt zeroAck"

section \<open>Keys\<close>

definition maxConfigMapKeyLen :: nat where "maxConfigMapKeyLen = 253"
definition longestKeyPrefix :: string where "longestKeyPrefix = ''kill''"

definition keyBody :: "string \<Rightarrow> string \<Rightarrow> string \<Rightarrow> string" where
  "keyBody nodeName fsNamespace fsName = nodeName @ ''_'' @ fsNamespace @ ''_'' @ fsName"

definition safeKey :: "string \<Rightarrow> string \<Rightarrow> string \<Rightarrow> string \<Rightarrow> string" where
  "safeKey pfx nodeName fsNamespace fsName =
     (let body = keyBody nodeName fsNamespace fsName;
          maxRawBodyLen = maxConfigMapKeyLen - length longestKeyPrefix - 1 in
      if length body \<le> maxRawBodyLen then pfx @ ''_'' @ body
      else let hashStr = hex_encode (take 8 (Sum256 body));
               maxBodyLen = maxConfigMapKeyLen - length longestKeyPrefix - 1 - 1 - length hashStr in
        pfx @ ''_'' @ take maxBodyLen body @ ''-'' @ hashStr)"

definition killKey :: "string \<Rightarrow> string \<Rightarrow> string \<Rightarrow> string" where
  "killKey = safeKey ''kill''"

definition ackKey :: "string \<Rightarrow> string \<Rightarrow> string \<Rightarrow> string" where
  "ackKey = safeKey ''ack''"

section \<open>Nodes\<close>

definition isPodReady :: "PodCondition list \<Rightarrow> bool" where
  "isPodReady conditions \<longleftrightarrow> (\<exists>c \<in> set conditions. pdc_Type c = ''Ready'' \<and> pdc_Status c = ''True'')"

fun nodeReady :: "PodCondition list \<Rightarrow> bool" where
  "nodeReady [] = True"
| "nodeReady (c # cs) = (if pdc_Type c = ''Ready'' then pdc_Status c = ''True'' else nodeReady cs)"

definition isNodeEligible :: "Node \<Rightarrow> bool" where
  "isNodeEligible node =
     (if m_DeletionTimestamp (node_Meta node) \<noteq> None \<or> node_Unschedulable node then False
      else if mget (m_Labels (node_Meta node)) ''kubernetes.io/os'' \<noteq> ''linux'' then False
      else nodeReady (node_Conditions node))"

text \<open>The set \<^verbatim>\<open>readyAgentNodes\<close> and the list \<^verbatim>\<open>missingReadyAgents\<close> computed from it are only logged.\<close>

definition discoverAgentNodes :: "env \<Rightarrow> Signaler \<Rightarrow> (go_error + string list) io" where
  "discoverAgentNodes E s =
     do { p \<leftarrow> listPods E (sg_Namespace s) agentLabelKey agentLabelVal;
          case p of
            Inl e \<Rightarrow> ret (Inl (Errorf_w ''listing connection-killer pods'' e))
          | Inr pods \<Rightarrow>
              if pods = [] then ret (Inr [])
              else do {
                n \<leftarrow> listNodes E ''kubernetes.io/os'' ''linux'';
                case n of
                  Inl e \<Rightarrow> ret (Inl (Errorf_w ''listing connection-killer target nodes'' e))
                | Inr nodes \<Rightarrow>
                    (let eligible = map (\<lambda>n. m_Name (node_Meta n)) (filter isNodeEligible nodes) in
                     if eligible = [] then ret (Inr []) else ret (Inr (sort_strings eligible))) } }"

section \<open>Operations\<close>

definition populateKillSignals ::
    "(string, string) gomap \<Rightarrow> string list \<Rightarrow> string \<Rightarrow> string \<Rightarrow> string \<Rightarrow> string \<Rightarrow> (string, string) gomap" where
  "populateKillSignals data nodeNames destIP killToken fsNamespace fsName =
     foldl (\<lambda>d nodeName.
        let key = killKey nodeName fsNamespace fsName;
            seq = (case mlookup d key of None \<Rightarrow> 1
                   | Some existing \<Rightarrow> (case unmarshalSignal existing of None \<Rightarrow> 1
                       | Some signal \<Rightarrow> wrap64 (ks_Seq signal + 1))) in
        mupdate key (marshalSignal \<lparr>ks_IP = destIP, ks_Seq = seq, ks_Token = killToken, ks_Node = nodeName,
          ks_FSNamespace = fsNamespace, ks_FSName = fsName\<rparr>) d) data nodeNames"

definition signalAttempt ::
    "env \<Rightarrow> Signaler \<Rightarrow> string list \<Rightarrow> string \<Rightarrow> string \<Rightarrow> string \<Rightarrow> string \<Rightarrow> go_error option io" where
  "signalAttempt E s nodeNames destIP killToken fsNamespace fsName =
     do { r \<leftarrow> getConfigMap E (sg_Namespace s, ConfigMapName);
          case r of
            Inl e \<Rightarrow>
              if IsNotFound e then
                kwrite E (CreateConfigMap
                  \<lparr>cm_Meta = emptyMeta\<lparr>m_Name := ConfigMapName, m_Namespace := sg_Namespace s\<rparr>,
                   cm_Data = Some (populateKillSignals [] nodeNames destIP killToken fsNamespace fsName)\<rparr>)
              else ret (Some (Errorf_w ''getting kill signal configmap'' e))
          | Inr cm \<Rightarrow>
              kwrite E (UpdateConfigMap (cm\<lparr>cm_Data := Some (populateKillSignals
                (case cm_Data cm of None \<Rightarrow> [] | Some d \<Rightarrow> d) nodeNames destIP killToken fsNamespace fsName)\<rparr>)) }"

definition SignalKill ::
    "env \<Rightarrow> Signaler \<Rightarrow> string \<Rightarrow> string \<Rightarrow> string \<Rightarrow> string \<Rightarrow> (go_error + string list) io" where
  "SignalKill E s destIP killToken fsNamespace fsName =
     do { n \<leftarrow> discoverAgentNodes E s;
          case n of
            Inl e \<Rightarrow> ret (Inl e)
          | Inr nodeNames \<Rightarrow>
              if nodeNames = [] then ret (Inr [])
              else do {
                r \<leftarrow> OnError (x_retries E) (\<lambda>e. IsConflict e \<or> IsAlreadyExists e)
                  (signalAttempt E s nodeNames destIP killToken fsNamespace fsName);
                case r of Some e \<Rightarrow> ret (Inl e) | None \<Rightarrow> ret (Inr nodeNames) } }"

text \<open>What one node answered: pending, with errors, or acknowledged.\<close>

datatype ack_class = Pending | Errored | Acked

definition classifyAck :: "(string, string) gomap option \<Rightarrow> string \<Rightarrow> string \<Rightarrow> string \<Rightarrow> string \<Rightarrow> ack_class" where
  "classifyAck data killToken fsNamespace fsName nodeName =
     (case Option.bind data (\<lambda>d. mlookup d (ackKey nodeName fsNamespace fsName)) of
        None \<Rightarrow> Pending
      | Some ackData \<Rightarrow>
          (case unmarshalAck ackData of
             None \<Rightarrow> Pending
           | Some ack \<Rightarrow> if ka_Token ack \<noteq> killToken then Pending
               else if ka_Errors ack > 0 then Errored else Acked))"

definition CheckAcks ::
    "env \<Rightarrow> Signaler \<Rightarrow> string \<Rightarrow> string list \<Rightarrow> string \<Rightarrow> string \<Rightarrow> (go_error + AckStatus) io" where
  "CheckAcks E s killToken expectedNodes fsNamespace fsName =
     (if expectedNodes = []
      then ret (Inr \<lparr>as_AllAcked = True, as_AckedNodes = [], as_PendingNodes = [], as_ErrorNodes = []\<rparr>)
      else do {
        r \<leftarrow> getConfigMap E (sg_Namespace s, ConfigMapName);
        case r of
          Inl e \<Rightarrow>
            if IsNotFound e
            then ret (Inr \<lparr>as_AllAcked = False, as_AckedNodes = [], as_PendingNodes = expectedNodes, as_ErrorNodes = []\<rparr>)
            else ret (Inl (Errorf_w ''getting kill signal configmap'' e))
        | Inr cm \<Rightarrow>
            (let cls = classifyAck (cm_Data cm) killToken fsNamespace fsName;
                 pending = filter (\<lambda>n. cls n = Pending) expectedNodes;
                 errs = filter (\<lambda>n. cls n = Errored) expectedNodes in
             ret (Inr \<lparr>as_AllAcked = (pending = [] \<and> errs = []),
               as_AckedNodes = filter (\<lambda>n. cls n = Acked) expectedNodes,
               as_PendingNodes = pending, as_ErrorNodes = errs\<rparr>)) })"

definition signalMatchesFS :: "string \<Rightarrow> string \<Rightarrow> string \<Rightarrow> string \<Rightarrow> bool" where
  "signalMatchesFS key signalData fsNamespace fsName =
     (case unmarshalSignal signalData of
        Some signal \<Rightarrow>
          if ks_FSNamespace signal \<noteq> '''' \<or> ks_FSName signal \<noteq> ''''
          then ks_FSNamespace signal = fsNamespace \<and> ks_FSName signal = fsName
          else HasSuffix key (''_'' @ fsNamespace @ ''_'' @ fsName)
      | None \<Rightarrow> HasSuffix key (''_'' @ fsNamespace @ ''_'' @ fsName))"

definition ackMatchesFS :: "string \<Rightarrow> string \<Rightarrow> string \<Rightarrow> string \<Rightarrow> bool" where
  "ackMatchesFS key ackData fsNamespace fsName =
     (case unmarshalAck ackData of
        Some ack \<Rightarrow>
          if ka_FSNamespace ack \<noteq> '''' \<or> ka_FSName ack \<noteq> ''''
          then ka_FSNamespace ack = fsNamespace \<and> ka_FSName ack = fsName
          else HasSuffix key (''_'' @ fsNamespace @ ''_'' @ fsName)
      | None \<Rightarrow> HasSuffix key (''_'' @ fsNamespace @ ''_'' @ fsName))"

definition keysToDelete :: "(string, string) gomap \<Rightarrow> string \<Rightarrow> string \<Rightarrow> string list" where
  "keysToDelete data fsNamespace fsName =
     concat (map (\<lambda>(key, v).
        if HasPrefix key ''kill_'' then
          (if signalMatchesFS key v fsNamespace fsName
           then [key, ''ack_'' @ TrimPrefix key ''kill_''] else [])
        else if HasPrefix key ''ack_'' then
          (if ackMatchesFS key v fsNamespace fsName then [key] else [])
        else []) data)"

definition cleanupAttempt :: "env \<Rightarrow> Signaler \<Rightarrow> string \<Rightarrow> string \<Rightarrow> go_error option io" where
  "cleanupAttempt E s fsNamespace fsName =
     do { r \<leftarrow> getConfigMap E (sg_Namespace s, ConfigMapName);
          case r of
            Inl e \<Rightarrow> if IsNotFound e then ret None
              else ret (Some (Errorf_w ''getting kill signal configmap for cleanup'' e))
          | Inr cm \<Rightarrow>
              (let data = (case cm_Data cm of None \<Rightarrow> [] | Some d \<Rightarrow> d);
                   toDelete = keysToDelete data fsNamespace fsName in
               if data = [] then ret None
               else if toDelete = [] then ret None
               else kwrite E (UpdateConfigMap (cm\<lparr>cm_Data := Some (foldr mdelete toDelete data)\<rparr>))) }"

definition CleanupSignals :: "env \<Rightarrow> Signaler \<Rightarrow> string \<Rightarrow> string \<Rightarrow> go_error option io" where
  "CleanupSignals E s fsNamespace fsName =
     OnError (x_retries E) IsConflict (cleanupAttempt E s fsNamespace fsName)"


section \<open>The codec of signals and acknowledgements\<close>

definition signalEncodable :: "KillSignal \<Rightarrow> bool" where
  "signalEncodable s \<longleftrightarrow> ascii (ks_IP s) \<and> in_int64 (ks_Seq s) \<and> ascii (ks_Token s) \<and> ascii (ks_Node s) \<and>
     ascii (ks_FSNamespace s) \<and> ascii (ks_FSName s)"

definition ackEncodable :: "KillAck \<Rightarrow> bool" where
  "ackEncodable a \<longleftrightarrow> in_int64 (ka_Seq a) \<and> ascii (ka_Token a) \<and> ascii (ka_Node a) \<and> ascii (ka_FSNamespace a) \<and>
     ascii (ka_FSName a) \<and> in_int64 (ka_Killed a) \<and> in_int64 (ka_Errors a)"

lemma ascii_names [simp]:
  "ascii ''ip''" "ascii ''seq''" "ascii ''token''" "ascii ''node''" "ascii ''fsNamespace''" "ascii ''fsName''"
  "ascii ''killed''" "ascii ''errors''"
  by (simp_all add: cbyte_def)

lemma field_of_exact: "k \<in> set fds \<Longrightarrow> field_of fds k = Some k"
  by (simp add: field_of_def)

lemma decode_omitempty:
  "k \<in> set fds \<Longrightarrow>
   decode_members fds ss si (omitempty k v @ ms) (Some x) =
     decode_members fds ss si ms (if v = '''' then Some x else ss k v x)"
  by (simp add: omitempty_def decode_members_def field_of_exact)

lemma decode_str:
  "k \<in> set fds \<Longrightarrow> decode_members fds ss si ((k, JStr v) # ms) (Some x) = decode_members fds ss si ms (ss k v x)"
  by (simp add: decode_members_def field_of_exact)

lemma decode_int:
  "k \<in> set fds \<Longrightarrow> in_int64 i \<Longrightarrow>
   decode_members fds ss si ((k, JNum (show_int i)) # ms) (Some x) = decode_members fds ss si ms (si k i x)"
  by (simp add: decode_members_def field_of_exact parse_int64_show_int)

lemma decode_nil: "decode_members fds ss si [] r = r"
  by (simp add: decode_members_def)

text \<open>Members that print and parse back.\<close>

definition membersOk :: "(string \<times> json) list \<Rightarrow> bool" where
  "membersOk ms \<longleftrightarrow> (\<forall>(k, v) \<in> set ms. ascii k \<and> printable v)"

lemma membersOk_rules:
  "membersOk []" "ascii k \<Longrightarrow> ascii v \<Longrightarrow> membersOk ms \<Longrightarrow> membersOk ((k, JStr v) # ms)"
  "ascii k \<Longrightarrow> membersOk ms \<Longrightarrow> membersOk ((k, JNum (show_int i)) # ms)"
  "membersOk ms \<Longrightarrow> membersOk ms' \<Longrightarrow> membersOk (ms @ ms')"
  "ascii k \<Longrightarrow> ascii v \<Longrightarrow> membersOk (omitempty k v)"
  by (auto simp: membersOk_def omitempty_def)

lemmas decode_rules = decode_omitempty decode_omitempty [where ms = "[]", simplified] decode_str decode_int decode_nil

interpretation signal: json_codec marshalSignal unmarshalSignal signalEncodable
proof
  fix s :: KillSignal
  assume s: "signalEncodable s"
  let ?ms = "[(''ip'', JStr (ks_IP s)), (''seq'', JNum (show_int (ks_Seq s)))] @
     omitempty ''token'' (ks_Token s) @ omitempty ''node'' (ks_Node s) @
     omitempty ''fsNamespace'' (ks_FSNamespace s) @ omitempty ''fsName'' (ks_FSName s)"
  from s have "membersOk ?ms"
    unfolding signalEncodable_def by (intro membersOk_rules ascii_names) blast+
  from parse_json_print [OF this [unfolded membersOk_def]] have "parse_json (marshalSignal s) = Some (JObj ?ms)"
    by (simp add: marshalSignal_def)
  with s show "unmarshalSignal (marshalSignal s) = Some s"
    by (simp add: unmarshalSignal_def unmarshal_def signalEncodable_def decode_rules setSignalStr_def
        setSignalInt_def zeroSignal_def)
qed

interpretation ack: json_codec marshalAck unmarshalAck ackEncodable
proof
  fix a :: KillAck
  assume a: "ackEncodable a"
  let ?ms = "[(''seq'', JNum (show_int (ka_Seq a)))] @
     omitempty ''token'' (ka_Token a) @ omitempty ''node'' (ka_Node a) @
     omitempty ''fsNamespace'' (ka_FSNamespace a) @ omitempty ''fsName'' (ka_FSName a) @
     [(''killed'', JNum (show_int (ka_Killed a))), (''errors'', JNum (show_int (ka_Errors a)))]"
  from a have "membersOk ?ms"
    unfolding ackEncodable_def by (intro membersOk_rules ascii_names) blast+
  from parse_json_print [OF this [unfolded membersOk_def]] have "parse_json (marshalAck a) = Some (JObj ?ms)"
    by (simp add: marshalAck_def)
  with a show "unmarshalAck (marshalAck a) = Some a"
    by (simp add: unmarshalAck_def unmarshal_def ackEncodable_def decode_rules setAckStr_def
        setAckInt_def zeroAck_def)
qed

section \<open>The keys of the protocol\<close>

text \<open>What the two sides rely on: a key is a prefix, an underscore and a suffix that does not depend on
  the prefix, and it fits a ConfigMap.\<close>

locale signal_keys =
  fixes key :: "string \<Rightarrow> 'id \<Rightarrow> string" and suffix :: "'id \<Rightarrow> string" and limit :: nat
  assumes key_suffix: "key pfx i = pfx @ ''_'' @ suffix i"
    and fits: "length pfx \<le> 4 \<Longrightarrow> length (key pfx i) \<le> limit"
begin

lemma trim: "TrimPrefix (key pfx i) (pfx @ ''_'') = suffix i"
  unfolding key_suffix using TrimPrefix_append [of "pfx @ ''_''" "suffix i"] unfolding append_assoc .

lemma same_suffix: "pfx' @ ''_'' @ TrimPrefix (key pfx i) (pfx @ ''_'') = key pfx' i"
  unfolding trim by (rule key_suffix [symmetric])

lemma separated: "p \<noteq> q \<Longrightarrow> length p = length q \<Longrightarrow> key p i \<noteq> key q j"
  by (simp add: key_suffix)

end

definition safeSuffix :: "string \<Rightarrow> string \<Rightarrow> string \<Rightarrow> string" where
  "safeSuffix n ns f = (let body = keyBody n ns f in
     if length body \<le> 248 then body else take 231 body @ ''-'' @ hex_encode (take 8 (Sum256 body)))"

lemma safeKey_suffix: "safeKey pfx n ns f = pfx @ ''_'' @ safeSuffix n ns f"
  by (simp add: safeKey_def safeSuffix_def maxConfigMapKeyLen_def longestKeyPrefix_def Let_def)

interpretation keys: signal_keys "\<lambda>p (n, ns, f). safeKey p n ns f" "\<lambda>(n, ns, f). safeSuffix n ns f" 253
proof unfold_locales
  show "(case i of (n, ns, f) \<Rightarrow> safeKey p n ns f) = p @ ''_'' @ (case i of (n, ns, f) \<Rightarrow> safeSuffix n ns f)" for p i
    by (simp add: safeKey_suffix split: prod.split)
  show "length (case i of (n, ns, f) \<Rightarrow> safeKey p n ns f) \<le> 253" if "length p \<le> 4" for p i
    using that by (auto simp: safeKey_suffix safeSuffix_def Let_def split: prod.split)
qed

text \<open>Names without an underscore, as Kubernetes names are, are recovered from an untruncated key.\<close>

lemma split_at_underscore:
  "CHR ''_'' \<notin> set a \<Longrightarrow> CHR ''_'' \<notin> set b \<Longrightarrow> a @ CHR ''_'' # x = b @ CHR ''_'' # y \<longleftrightarrow> a = b \<and> x = y"
proof (induction a arbitrary: b)
  case Nil
  then show ?case by (cases b) auto
next
  case (Cons c a)
  then show ?case by (cases b) auto
qed

definition plainName :: "string \<Rightarrow> bool" where
  "plainName s \<longleftrightarrow> CHR ''_'' \<notin> set s"

lemma keyBody_inj:
  assumes "plainName n" "plainName n'" "plainName ns" "plainName ns'"
  shows "keyBody n ns f = keyBody n' ns' f' \<longleftrightarrow> n = n' \<and> ns = ns' \<and> f = f'"
  using assms by (simp add: keyBody_def plainName_def split_at_underscore)

lemma safeKey_inj:
  assumes "plainName n" "plainName n'" "plainName ns" "plainName ns'"
    and "length (keyBody n ns f) \<le> 248" "length (keyBody n' ns' f') \<le> 248"
  shows "safeKey p n ns f = safeKey p n' ns' f' \<longleftrightarrow> n = n' \<and> ns = ns' \<and> f = f'"
  using assms by (simp add: safeKey_suffix safeSuffix_def keyBody_inj)

section \<open>Operations\<close>

fun signal_entry :: "entry \<Rightarrow> bool" where
  "signal_entry (GetConfigMap _ _) = True"
| "signal_entry (ListPods _ _ _ _) = True"
| "signal_entry (ListNodes _ _ _) = True"
| "signal_entry (Write (CreateConfigMap _) _) = True"
| "signal_entry (Write (UpdateConfigMap _) _) = True"
| "signal_entry _ = False"

lemma discoverAgentNodes_confined: "emits signal_entry (discoverAgentNodes E s)"
  unfolding discoverAgentNodes_def call_defs Let_def by (intro eff_intros TrueI) simp_all

lemma SignalKill_confined: "emits signal_entry (SignalKill E s ip tok ns f)"
proof -
  have "emits signal_entry (signalAttempt E s nn ip tok ns f)" for nn
    unfolding signalAttempt_def call_defs by (intro eff_intros TrueI) simp_all
  then show ?thesis
    unfolding SignalKill_def
    by (intro eff_bind [OF discoverAgentNodes_confined] eff_case_sum eff_if eff_ret
        eff_bind [OF eff_OnError] eff_case_option) simp_all
qed

lemma CheckAcks_confined: "emits signal_entry (CheckAcks E s tok nn ns f)"
  unfolding CheckAcks_def call_defs Let_def by (intro eff_intros TrueI) simp_all

lemma CleanupSignals_confined: "emits signal_entry (CleanupSignals E s ns f)"
  unfolding CleanupSignals_def cleanupAttempt_def call_defs Let_def
  by (intro eff_OnError eff_intros TrueI) simp_all

text \<open>The sequence number a new signal gets, and the data after signalling.\<close>

definition nextSeq :: "string option \<Rightarrow> int" where
  "nextSeq existing = (case Option.bind existing unmarshalSignal of None \<Rightarrow> 1 | Some s \<Rightarrow> wrap64 (ks_Seq s + 1))"

definition newSignal :: "string \<Rightarrow> string \<Rightarrow> string \<Rightarrow> string \<Rightarrow> string \<Rightarrow> int \<Rightarrow> KillSignal" where
  "newSignal ip tok ns f n q = \<lparr>ks_IP = ip, ks_Seq = q, ks_Token = tok, ks_Node = n, ks_FSNamespace = ns, ks_FSName = f\<rparr>"

lemma populate_Nil: "populateKillSignals d [] ip tok ns f = d"
  by (simp add: populateKillSignals_def)

lemma populate_Cons:
  "populateKillSignals d (n # nn) ip tok ns f =
     populateKillSignals (mupdate (killKey n ns f)
       (marshalSignal (newSignal ip tok ns f n (nextSeq (mlookup d (killKey n ns f))))) d) nn ip tok ns f"
  by (simp add: populateKillSignals_def newSignal_def nextSeq_def Let_def split: option.split)

lemma populate_other:
  "\<forall>n \<in> set nn. k \<noteq> killKey n ns f \<Longrightarrow> mlookup (populateKillSignals d nn ip tok ns f) k = mlookup d k"
  by (induction nn arbitrary: d) (auto simp: populate_Nil populate_Cons)

lemma populate_lookup:
  assumes "distinct (map (\<lambda>n. killKey n ns f) nn)" "n \<in> set nn"
  shows "mlookup (populateKillSignals d nn ip tok ns f) (killKey n ns f) =
     Some (marshalSignal (newSignal ip tok ns f n (nextSeq (mlookup d (killKey n ns f)))))"
  using assms
proof (induction nn arbitrary: d)
  case (Cons m nn)
  show ?case
  proof (cases "n = m")
    case True
    with Cons.prems(1) have "\<forall>x \<in> set nn. killKey n ns f \<noteq> killKey x ns f" by auto
    with True show ?thesis by (simp add: populate_Cons populate_other)
  next
    case False
    with Cons.prems(2) have "killKey n ns f \<in> (\<lambda>n. killKey n ns f) ` set nn" by auto
    with Cons.prems(1) have "killKey n ns f \<noteq> killKey m ns f" by auto
    with False Cons show ?thesis by (simp add: populate_Cons)
  qed
qed simp

text \<open>What cleaning up leaves.\<close>

lemma mlookup_deletes: "mlookup (foldr mdelete ks d) k = (if k \<in> set ks then None else mlookup d k)"
  by (induction ks) auto

lemma deleted_keys:
  "k \<in> set (concat (map (\<lambda>(key, v). if HasPrefix key p then (if S key v then [key, q @ TrimPrefix key p] else [])
       else if HasPrefix key q then (if A key v then [key] else []) else []) d)) \<longleftrightarrow>
     (\<exists>v. (k, v) \<in> set d \<and> HasPrefix k p \<and> S k v) \<or>
     (\<exists>v. (k, v) \<in> set d \<and> \<not> HasPrefix k p \<and> HasPrefix k q \<and> A k v) \<or>
     (\<exists>s v. k = q @ s \<and> (p @ s, v) \<in> set d \<and> S (p @ s) v)"
proof (induction d)
  case (Cons e d)
  obtain key v where e: "e = (key, v)" by fastforce
  show ?case
  proof (cases "HasPrefix key p")
    case True
    then obtain s where "key = p @ s" by (rule HasPrefixE)
    with Cons.IH e show ?thesis by auto
  next
    case False
    then have "\<And>s. key \<noteq> p @ s" by auto
    with False Cons.IH e show ?thesis by auto
  qed
qed simp

lemma keysToDelete_iff:
  "k \<in> set (keysToDelete d ns f) \<longleftrightarrow>
     (\<exists>v. (k, v) \<in> set d \<and> HasPrefix k ''kill_'' \<and> signalMatchesFS k v ns f) \<or>
     (\<exists>v. (k, v) \<in> set d \<and> \<not> HasPrefix k ''kill_'' \<and> HasPrefix k ''ack_'' \<and> ackMatchesFS k v ns f) \<or>
     (\<exists>s v. k = ''ack_'' @ s \<and> (''kill_'' @ s, v) \<in> set d \<and> signalMatchesFS (''kill_'' @ s) v ns f)"
  unfolding keysToDelete_def by (rule deleted_keys)


text \<open>An attempt that stores the signals: the ConfigMap it wrote holds them.\<close>

definition signals_stored :: "string \<Rightarrow> string \<Rightarrow> string \<Rightarrow> string \<Rightarrow> string list \<Rightarrow> ConfigMap \<Rightarrow> bool" where
  "signals_stored ip tok ns f nn cm \<longleftrightarrow> (\<exists>d d0. cm_Data cm = Some d \<and>
     (\<forall>n \<in> set nn. Option.bind (mlookup d (killKey n ns f)) unmarshalSignal =
        Some (newSignal ip tok ns f n (nextSeq (mlookup d0 (killKey n ns f))))) \<and>
     (\<forall>k. (\<forall>n \<in> set nn. k \<noteq> killKey n ns f) \<longrightarrow> mlookup d k = mlookup d0 k))"

lemma nextSeq_in: "in_int64 (nextSeq x)"
proof (cases "Option.bind x unmarshalSignal")
  case None
  then show ?thesis by (simp add: nextSeq_def in_int64_def)
qed (simp add: nextSeq_def wrap64_in)

lemma signals_stored_populate:
  assumes "distinct (map (\<lambda>n. killKey n ns f) nn)" "ascii ip" "ascii tok" "ascii ns" "ascii f" "\<forall>n \<in> set nn. ascii n"
    and "cm_Data cm = Some (populateKillSignals d0 nn ip tok ns f)"
  shows "signals_stored ip tok ns f nn cm"
proof -
  have "Option.bind (mlookup (populateKillSignals d0 nn ip tok ns f) (killKey n ns f)) unmarshalSignal =
      Some (newSignal ip tok ns f n (nextSeq (mlookup d0 (killKey n ns f))))" if n: "n \<in> set nn" for n
  proof -
    have "signalEncodable (newSignal ip tok ns f n (nextSeq (mlookup d0 (killKey n ns f))))"
      using assms n nextSeq_in by (simp add: signalEncodable_def newSignal_def)
    then show ?thesis by (simp add: populate_lookup [OF assms(1) n] signal.roundtrip)
  qed
  with assms(7) show ?thesis
    unfolding signals_stored_def by (intro exI [of _ "populateKillSignals d0 nn ip tok ns f"] exI [of _ d0])
      (simp add: populate_other)
qed

lemma signalAttempt_stores:
  assumes "distinct (map (\<lambda>n. killKey n ns f) nn)" "ascii ip" "ascii tok" "ascii ns" "ascii f" "\<forall>n \<in> set nn. ascii n"
  shows "tspec (signalAttempt E s nn ip tok ns f) (\<lambda>r cs. r = None \<longrightarrow>
     (\<exists>cm. (Write (CreateConfigMap cm) None \<in> set cs \<or> Write (UpdateConfigMap cm) None \<in> set cs) \<and>
        signals_stored ip tok ns f nn cm))"
  unfolding signalAttempt_def getConfigMap_def kwrite_def
  by (intro tspec_bind_call tspec_case_sum tspec_if tspec_ret tspec_call)
    (auto intro!: exI signals_stored_populate [OF assms])

lemma SignalKill_stores:
  assumes "ascii ip" "ascii tok" "ascii ns" "ascii f"
  shows "tspec (SignalKill E s ip tok ns f) (\<lambda>r cs. \<forall>nn. r = Inr nn \<longrightarrow> nn \<noteq> [] \<longrightarrow>
     distinct (map (\<lambda>n. killKey n ns f) nn) \<longrightarrow> (\<forall>n \<in> set nn. ascii n) \<longrightarrow>
     (\<exists>cm. (Write (CreateConfigMap cm) None \<in> set cs \<or> Write (UpdateConfigMap cm) None \<in> set cs) \<and>
        signals_stored ip tok ns f nn cm))"
  unfolding SignalKill_def
proof (intro tspec_bind [OF tspec_eff [OF discoverAgentNodes_confined]] tspec_case_sum tspec_if tspec_ret, goal_cases)
  case (3 a cs nn)
  let ?stored = "\<lambda>r cs. r = None \<longrightarrow> (\<exists>cm. (Write (CreateConfigMap cm) None \<in> set cs \<or>
     Write (UpdateConfigMap cm) None \<in> set cs) \<and> signals_stored ip tok ns f nn cm)"
  show ?case
  proof (cases "distinct (map (\<lambda>n. killKey n ns f) nn) \<and> (\<forall>n \<in> set nn. ascii n)")
    case True
    have "tspec (OnError k p (signalAttempt E s nn ip tok ns f)) ?stored" for k p
      by (rule tspec_OnError) (use True signalAttempt_stores assms in \<open>auto\<close>)
    then show ?thesis
      by (rule tspec_bind) (intro tspec_case_option tspec_ret; auto)
  next
    case False
    have "emits signal_entry (SignalKill E s ip tok ns f)" by (rule SignalKill_confined)
    have "emits signal_entry (OnError k p (signalAttempt E s nn ip tok ns f))" for k p
      unfolding signalAttempt_def call_defs by (intro eff_OnError eff_intros TrueI) simp_all
    from tspec_eff [OF this] show ?thesis
      by (rule tspec_bind) (intro tspec_case_option tspec_ret; use False in auto)
  qed
qed auto

section \<open>Properties\<close>

text \<open>C28: Signals and acknowledgements survive their JSON encoding: decoding what was encoded gives the
  same value back, for ASCII strings and 64-bit numbers.\<close>

theorem signal_ack_roundtrip:
  "(signalEncodable s \<longrightarrow> unmarshalSignal (marshalSignal s) = Some s) \<and>
   (ackEncodable a \<longrightarrow> unmarshalAck (marshalAck a) = Some a)"
  using signal.roundtrip ack.roundtrip by blast

theorem signal_ack_roundtrip_witness:
  "unmarshalSignal (marshalSignal (newSignal ''10.0.0.1'' ''t-1'' ''default'' ''db'' ''node-a'' 7)) =
     Some (newSignal ''10.0.0.1'' ''t-1'' ''default'' ''db'' ''node-a'' 7)"
  using signal_ack_roundtrip [of "newSignal ''10.0.0.1'' ''t-1'' ''default'' ''db'' ''node-a'' 7" zeroAck]
  by (simp add: signalEncodable_def newSignal_def cbyte_def in_int64_def)

text \<open>The key that an agent derives for its acknowledgement, by replacing the prefix of the kill key,
  is the key under which the controller looks for it, whatever the names are and whether or not the
  key was truncated; both keys fit the limit of a ConfigMap key.\<close>

theorem agent_ack_key_matches:
  "''ack_'' @ TrimPrefix (killKey n ns f) ''kill_'' = ackKey n ns f \<and>
   length (killKey n ns f) \<le> 253 \<and> length (ackKey n ns f) \<le> 253"
  using keys.same_suffix [of "''ack''" "''kill''" "(n, ns, f)"] keys.fits [of "''kill''" "(n, ns, f)"]
    keys.fits [of "''ack''" "(n, ns, f)"]
  by (simp add: killKey_def ackKey_def)

text \<open>Kill keys of different nodes or different FailoverServices are different, as long as the names
  contain no underscore (Kubernetes names do not) and the key needs no truncation.\<close>

theorem kill_keys_injective:
  assumes "plainName n" "plainName n'" "plainName ns" "plainName ns'"
    and "length (keyBody n ns f) \<le> 248" "length (keyBody n' ns' f') \<le> 248"
  shows "killKey n ns f = killKey n' ns' f' \<longleftrightarrow> n = n' \<and> ns = ns' \<and> f = f'"
  unfolding killKey_def by (rule safeKey_inj [OF assms])

text \<open>When signalling succeeds for some nodes, the API server accepted a ConfigMap in which every one
  of these nodes has a signal that decodes to the address, token and identity of this call, with the
  next sequence number after the signal that was there, and all other entries are unchanged.\<close>

theorem signal_kill_stores_signals:
  assumes "ascii ip" "ascii tok" "ascii ns" "ascii f"
    and "result (SignalKill E s ip tok ns f) w = Inr nn" "nn \<noteq> []"
    and "distinct (map (\<lambda>n. killKey n ns f) nn)" "\<forall>n \<in> set nn. ascii n"
  shows "\<exists>cm. (Write (CreateConfigMap cm) None \<in> set (calls (SignalKill E s ip tok ns f) w) \<or>
      Write (UpdateConfigMap cm) None \<in> set (calls (SignalKill E s ip tok ns f) w)) \<and>
    signals_stored ip tok ns f nn cm"
  using tspec_calls [OF SignalKill_stores [OF assms(1-4)], of E s w] assms(5-8) by blast

definition agentEnv :: env where
  "agentEnv = quietEnv\<lparr>o_listPods := \<lambda>_ _ _ _. Inr [\<lparr>pod_Meta = emptyMeta, pod_NodeName = ''n1'',
       pod_Phase = ''Running'', pod_Conditions = []\<rparr>],
     o_listNodes := \<lambda>_ _ _. Inr [\<lparr>node_Meta = emptyMeta\<lparr>m_Name := ''n1'', m_Labels := Some [(''kubernetes.io/os'', ''linux'')]\<rparr>,
       node_Unschedulable = False, node_Conditions = []\<rparr>]\<rparr>"



text \<open>Cleaning up removes every signal and acknowledgement that belongs to the FailoverService and no
  signal whose payload names another one.\<close>

theorem cleanup_removes_exactly:
  assumes "distinct (map fst d)"
  shows "(mlookup (foldr mdelete (keysToDelete d ns f) d) k = Some v \<longrightarrow>
      \<not> (HasPrefix k ''kill_'' \<and> signalMatchesFS k v ns f) \<and>
      \<not> (HasPrefix k ''ack_'' \<and> ackMatchesFS k v ns f)) \<and>
    (mlookup d k = Some v \<and> HasPrefix k ''kill_'' \<and> unmarshalSignal v = Some sg \<and>
      (ks_FSNamespace sg \<noteq> '''' \<or> ks_FSName sg \<noteq> '''') \<and> \<not> (ks_FSNamespace sg = ns \<and> ks_FSName sg = f) \<longrightarrow>
      mlookup (foldr mdelete (keysToDelete d ns f) d) k = Some v)"
proof (intro conjI impI)
  assume l: "mlookup (foldr mdelete (keysToDelete d ns f) d) k = Some v"
  then have kv: "(k, v) \<in> set d" "k \<notin> set (keysToDelete d ns f)"
    by (auto simp: mlookup_deletes dest: map_of_SomeD split: if_splits)
  then show "\<not> (HasPrefix k ''kill_'' \<and> signalMatchesFS k v ns f)" by (auto simp: keysToDelete_iff)
  have "\<not> (HasPrefix k ''kill_'' \<and> HasPrefix k ''ack_'')" by (cases k) (auto simp: HasPrefix_def)
  with kv show "\<not> (HasPrefix k ''ack_'' \<and> ackMatchesFS k v ns f)" by (auto simp: keysToDelete_iff)
next
  assume a: "mlookup d k = Some v \<and> HasPrefix k ''kill_'' \<and> unmarshalSignal v = Some sg \<and>
      (ks_FSNamespace sg \<noteq> '''' \<or> ks_FSName sg \<noteq> '''') \<and> \<not> (ks_FSNamespace sg = ns \<and> ks_FSName sg = f)"
  then have "\<And>v'. (k, v') \<in> set d \<Longrightarrow> v' = v" using assms by (metis eq_key_imp_eq_value map_of_SomeD)
  moreover from a have "\<not> signalMatchesFS k v ns f" by (auto simp: signalMatchesFS_def)
  moreover from a have "\<And>s. k \<noteq> ''ack_'' @ s" by (auto simp: HasPrefix_def)
  ultimately have "k \<notin> set (keysToDelete d ns f)"
    using a unfolding keysToDelete_iff by blast
  with a show "mlookup (foldr mdelete (keysToDelete d ns f) d) k = Some v" by (simp add: mlookup_deletes)
qed

end
