(* ===== verification/Agent.thy ===== *)
theory Agent
  imports ConnSignaler
begin

text \<open>
  \<^verbatim>\<open>src/internal/connkill/agent.go\<close>: the node agent's side of the connection-kill protocol.  The map
  \<^verbatim>\<open>lastSeq\<close>, the only state the agent keeps between runs, is passed explicitly; killing the connections
  (\<^verbatim>\<open>KillConnectionsAllNamespaces\<close>) is a program the operations take as an argument, so that the
  protocol is verified for any outcome of it.
\<close>

section \<open>Operations\<close>

record AgentConfig =
  ag_NodeName :: string
  ag_Namespace :: string

type_synonym seqs = "(string, int) gomap"

text \<open>Reading an absent key of \<^verbatim>\<open>map[string]int64\<close> gives zero.\<close>

definition seqOf :: "seqs \<Rightarrow> string \<Rightarrow> int" where
  "seqOf l k = (case mlookup l k of None \<Rightarrow> 0 | Some n \<Rightarrow> n)"

type_synonym killer = "ip \<Rightarrow> (int \<times> int \<times> go_error option) io"

definition ackAttempt :: "env \<Rightarrow> AgentConfig \<Rightarrow> string \<Rightarrow> string \<Rightarrow> go_error option io" where
  "ackAttempt E a key data =
     do { r \<leftarrow> getConfigMap E (ag_Namespace a, ConfigMapName);
          case r of
            Inl e \<Rightarrow> ret (Some e)
          | Inr cm \<Rightarrow> kwrite E (UpdateConfigMap (cm\<lparr>cm_Data := Some (mupdate key data
              (case cm_Data cm of None \<Rightarrow> [] | Some d \<Rightarrow> d))\<rparr>)) }"

definition writeAck ::
    "env \<Rightarrow> AgentConfig \<Rightarrow> string \<Rightarrow> int \<Rightarrow> string \<Rightarrow> string \<Rightarrow> string \<Rightarrow> int \<Rightarrow> int \<Rightarrow> go_error option io" where
  "writeAck E a key seq token fsNamespace fsName killed errCount =
     OnError (x_retries E) IsConflict (ackAttempt E a key (marshalAck
       \<lparr>ka_Seq = seq, ka_Token = token, ka_Node = ag_NodeName a, ka_FSNamespace = fsNamespace,
        ka_FSName = fsName, ka_Killed = killed, ka_Errors = errCount\<rparr>))"

text \<open>Whether an entry is a signal for this node, and which one.\<close>

definition signalFor :: "AgentConfig \<Rightarrow> string \<Rightarrow> string \<Rightarrow> KillSignal option" where
  "signalFor a key signalData =
     (if \<not> HasPrefix key ''kill_'' then None
      else case unmarshalSignal signalData of
        None \<Rightarrow> None
      | Some signal \<Rightarrow>
          if ks_Node signal \<noteq> '''' then (if ks_Node signal \<noteq> ag_NodeName a then None else Some signal)
          else if \<not> HasPrefix key (''kill_'' @ ag_NodeName a @ ''_'') then None
          else Some signal)"

definition processEntry :: "env \<Rightarrow> killer \<Rightarrow> AgentConfig \<Rightarrow> seqs \<Rightarrow> string \<times> string \<Rightarrow> seqs io" where
  "processEntry E kill a lastSeq entry =
     (case signalFor a (fst entry) (snd entry) of
        None \<Rightarrow> ret lastSeq
      | Some signal \<Rightarrow>
          (let seqKey = TrimPrefix (fst entry) ''kill_'' in
           if ks_Seq signal \<le> seqOf lastSeq seqKey then ret lastSeq
           else case ParseIP (ks_IP signal) of
             None \<Rightarrow> ret lastSeq
           | Some destIP \<Rightarrow> do {
               (killed, errs, err) \<leftarrow> kill destIP;
               let errCount = (if err \<noteq> None then wrap64 (errs + 1) else errs);
               r \<leftarrow> writeAck E a (''ack_'' @ seqKey) (ks_Seq signal) (ks_Token signal)
                 (ks_FSNamespace signal) (ks_FSName signal) killed errCount;
               case r of
                 Some e \<Rightarrow> ret lastSeq
               | None \<Rightarrow> ret (mupdate seqKey (ks_Seq signal) lastSeq) }))"

fun processEntries :: "env \<Rightarrow> killer \<Rightarrow> AgentConfig \<Rightarrow> seqs \<Rightarrow> (string \<times> string) list \<Rightarrow> seqs io" where
  "processEntries E kill a lastSeq [] = ret lastSeq"
| "processEntries E kill a lastSeq (e # es) =
     do { l \<leftarrow> processEntry E kill a lastSeq e; processEntries E kill a l es }"

definition RunOnce :: "env \<Rightarrow> killer \<Rightarrow> AgentConfig \<Rightarrow> seqs \<Rightarrow> (seqs \<times> go_error option) io" where
  "RunOnce E kill a lastSeq =
     do { r \<leftarrow> getConfigMap E (ag_Namespace a, ConfigMapName);
          case r of
            Inl e \<Rightarrow> if IsNotFound e then ret (lastSeq, None)
              else ret (lastSeq, Some (Errorf_w ''getting kill signal configmap'' e))
          | Inr cm \<Rightarrow> do {
              l \<leftarrow> processEntries E kill a lastSeq (case cm_Data cm of None \<Rightarrow> [] | Some d \<Rightarrow> d);
              ret (l, None) } }"

definition ackSeed :: "AgentConfig \<Rightarrow> string \<times> string \<Rightarrow> (string \<times> int) option" where
  "ackSeed a entry =
     (let key = fst entry; seqKey = TrimPrefix key ''ack_'' in
      if \<not> HasPrefix key ''ack_'' then None
      else case unmarshalAck (snd entry) of
        None \<Rightarrow> None
      | Some ack \<Rightarrow>
          if ka_Node ack \<noteq> '''' then (if ka_Node ack \<noteq> ag_NodeName a then None else Some (seqKey, ka_Seq ack))
          else if \<not> HasPrefix seqKey (ag_NodeName a @ ''_'') then None
          else Some (seqKey, ka_Seq ack))"

definition initFromConfigMap :: "env \<Rightarrow> AgentConfig \<Rightarrow> seqs \<Rightarrow> seqs io" where
  "initFromConfigMap E a lastSeq =
     do { r \<leftarrow> getConfigMap E (ag_Namespace a, ConfigMapName);
          case r of
            Inl e \<Rightarrow> ret lastSeq
          | Inr cm \<Rightarrow> ret (foldl (\<lambda>l entry. case ackSeed a entry of None \<Rightarrow> l | Some (k, n) \<Rightarrow> mupdate k n l) []
              (case cm_Data cm of None \<Rightarrow> [] | Some d \<Rightarrow> d)) }"


section \<open>Acknowledging\<close>

lemma ackAttempt_stores:
  "tspec (ackAttempt E a key data) (\<lambda>r cs. r = None \<longrightarrow>
     (\<exists>cm d. Write (UpdateConfigMap cm) None \<in> set cs \<and> cm_Data cm = Some d \<and> mlookup d key = Some data))"
  unfolding ackAttempt_def getConfigMap_def kwrite_def
  by (intro tspec_bind_call tspec_case_sum tspec_ret tspec_call) auto

lemma writeAck_stores:
  assumes "ackEncodable x"
    and "x = \<lparr>ka_Seq = seq, ka_Token = token, ka_Node = ag_NodeName a, ka_FSNamespace = ns, ka_FSName = f,
      ka_Killed = killed, ka_Errors = errCount\<rparr>"
  shows "tspec (writeAck E a key seq token ns f killed errCount) (\<lambda>r cs. r = None \<longrightarrow>
     (\<exists>cm d. Write (UpdateConfigMap cm) None \<in> set cs \<and> cm_Data cm = Some d \<and>
        Option.bind (mlookup d key) unmarshalAck = Some x))"
proof -
  have "tspec (writeAck E a key seq token ns f killed errCount) (\<lambda>r cs. r = None \<longrightarrow>
     (\<exists>cm d. Write (UpdateConfigMap cm) None \<in> set cs \<and> cm_Data cm = Some d \<and> mlookup d key = Some (marshalAck x)))"
    unfolding writeAck_def assms(2) by (rule tspec_OnError [OF ackAttempt_stores]) auto
  then show ?thesis
    by (rule tspec_weaken) (use ack.roundtrip [OF assms(1)] in fastforce)
qed

lemma signalFor_own:
  assumes "unmarshalSignal v = Some (newSignal ip tok ns f (ag_NodeName a) q)" "ag_NodeName a \<noteq> ''''"
  shows "signalFor a (killKey (ag_NodeName a) ns f) v = Some (newSignal ip tok ns f (ag_NodeName a) q)"
proof -
  have "HasPrefix (killKey (ag_NodeName a) ns f) ''kill_''"
    by (simp add: killKey_def safeKey_suffix HasPrefix_def)
  with assms show ?thesis by (simp add: signalFor_def newSignal_def)
qed

lemma suffix_of_killKey: "TrimPrefix (killKey n ns f) ''kill_'' = safeSuffix n ns f"
  using keys.trim [of "''kill''" "(n, ns, f)"] by (simp add: killKey_def)

lemma ackKey_suffix: "ackKey n ns f = ''ack_'' @ safeSuffix n ns f"
  by (simp add: ackKey_def safeKey_suffix)

text \<open>A signal for this node that is newer than the last one handled is acknowledged.\<close>

lemma processEntry_acks:
  assumes "unmarshalSignal v = Some (newSignal ip tok ns f (ag_NodeName a) q)" "ag_NodeName a \<noteq> ''''"
    and "seqOf l (safeSuffix (ag_NodeName a) ns f) < q" "ParseIP ip = Some destIP"
    and "in_int64 q" "ascii tok" "ascii ns" "ascii f" "ascii (ag_NodeName a)"
    and "eff P (kill destIP) (\<lambda>(killed, errs, err). in_int64 killed \<and> errs = 0 \<and> err = None)"
  shows "tspec (processEntry E kill a l (killKey (ag_NodeName a) ns f, v)) (\<lambda>l' cs.
     l' = l \<or> (l' = mupdate (safeSuffix (ag_NodeName a) ns f) q l \<and>
       (\<exists>cm. Write (UpdateConfigMap cm) None \<in> set cs \<and> classifyAck (cm_Data cm) tok ns f (ag_NodeName a) = Acked)))"
proof -
  let ?n = "ag_NodeName a" and ?s = "newSignal ip tok ns f (ag_NodeName a) q"
  have s: "ks_Seq ?s = q" "ks_IP ?s = ip" "ks_Token ?s = tok" "ks_FSNamespace ?s = ns" "ks_FSName ?s = f"
    by (simp_all add: newSignal_def)
  have stored: "tspec (writeAck E a (ackKey ?n ns f) q tok ns f killed 0) (\<lambda>r cs. r = None \<longrightarrow>
     (\<exists>cm. Write (UpdateConfigMap cm) None \<in> set cs \<and> classifyAck (cm_Data cm) tok ns f ?n = Acked))"
    if "in_int64 killed" for killed
  proof (rule tspec_weaken [OF writeAck_stores [OF _ refl]])
    show "ackEncodable \<lparr>ka_Seq = q, ka_Token = tok, ka_Node = ?n, ka_FSNamespace = ns, ka_FSName = f,
        ka_Killed = killed, ka_Errors = 0\<rparr>"
      using assms that by (simp add: ackEncodable_def in_int64_def)
  qed (fastforce simp: classifyAck_def split: bind_splits)
  show ?thesis
    unfolding processEntry_def fst_conv snd_conv signalFor_own [OF assms(1,2)] option.case suffix_of_killKey
      s Let_def assms(4) ackKey_suffix [symmetric]
  proof (intro tspec_if tspec_bind [OF tspec_eff [OF assms(10)]] tspec_case_prod, goal_cases)
    case (2 r cs killed p errs err)
    then have r: "in_int64 killed" "errs = 0" "err = None" by auto
    have "(if err \<noteq> None then wrap64 (errs + 1) else errs) = 0" using r by simp
    then show ?case
      by (simp only:) (rule tspec_bind [OF stored [OF r(1)]], auto intro!: tspec_ret split: option.split)
  qed (use assms(3) in simp)
qed

section \<open>Sequence numbers\<close>

lemma writeAck_confined: "emits signal_entry (writeAck E a key seq token ns f killed errCount)"
  unfolding writeAck_def ackAttempt_def call_defs by (intro eff_OnError eff_intros TrueI) simp_all

definition seqs_le :: "seqs \<Rightarrow> seqs \<Rightarrow> bool" where
  "seqs_le l l' \<longleftrightarrow> (\<forall>k. seqOf l k \<le> seqOf l' k)"

lemma processEntry_mono:
  assumes "\<And>ip. emits P (kill ip)" "\<And>e. signal_entry e \<Longrightarrow> P e"
  shows "eff P (processEntry E kill a l e) (seqs_le l)"
  unfolding processEntry_def Let_def
  by (intro eff_case_option eff_if eff_bind [OF assms(1)] eff_case_prod eff_bind [OF emits_weaken [OF writeAck_confined]] eff_ret)
    (auto simp: seqs_le_def seqOf_def assms(2) split: option.splits)

lemma processEntries_mono:
  assumes "\<And>ip. emits P (kill ip)" "\<And>e. signal_entry e \<Longrightarrow> P e"
  shows "eff P (processEntries E kill a l es) (seqs_le l)"
proof (induction es arbitrary: l)
  case Nil
  show ?case by (auto simp: seqs_le_def)
next
  case (Cons e es)
  show ?case
    unfolding processEntries.simps
  proof (rule eff_bind [OF processEntry_mono [OF assms]])
    fix l'
    assume "seqs_le l l'"
    then show "eff P (processEntries E kill a l' es) (seqs_le l)"
      by (intro eff_weaken [OF Cons.IH]) (auto simp: seqs_le_def intro: order_trans)
  qed
qed

section \<open>What an acknowledgement says\<close>

definition is_configmap_write :: "entry \<Rightarrow> bool" where
  "is_configmap_write e \<longleftrightarrow> (\<exists>cm y. e = Write (UpdateConfigMap cm) y)"

text \<open>What \<^verbatim>\<open>writeAck\<close> sends.\<close>

lemma writeAck_writes:
  assumes "x = \<lparr>ka_Seq = seq, ka_Token = token, ka_Node = ag_NodeName a, ka_FSNamespace = ns, ka_FSName = f,
      ka_Killed = killed, ka_Errors = errCount\<rparr>"
  shows "emits (\<lambda>e. \<forall>cm y. e = Write (UpdateConfigMap cm) y \<longrightarrow> (\<exists>d. cm_Data cm = Some d \<and> mlookup d key = Some (marshalAck x)))
    (writeAck E a key seq token ns f killed errCount)"
  unfolding writeAck_def ackAttempt_def getConfigMap_def kwrite_def assms
  by (intro eff_OnError eff_bind [OF emits_call] eff_case_sum eff_ret emits_call TrueI) auto

text \<open>What the agent relies on when it kills: the program it runs leaves the ConfigMap alone and counts its errors,
  at most one per call; if there were none, the calls it made were \<open>complete\<close>.\<close>

locale counting_killer =
  fixes kill :: killer and complete :: "ip \<Rightarrow> entry list \<Rightarrow> bool"
  assumes counts: "tspec (kill destIP) (\<lambda>(k, e, err) cs. (\<forall>c \<in> set cs. \<not> is_configmap_write c) \<and> in_int64 k \<and>
     (\<exists>n. e = wrap64 (int n) \<and> n \<le> length cs \<and> (n = 0 \<and> err = None \<longrightarrow> complete destIP cs)))"
begin

lemma processEntry_no_false_ack:
  assumes "unmarshalSignal v = Some (newSignal ip tok ns f (ag_NodeName a) q)"
    and "ag_NodeName a \<noteq> ''''" "in_int64 q" "ascii tok" "ascii ns" "ascii f" "ascii (ag_NodeName a)"
  shows "tspec (processEntry E kill a l (killKey (ag_NodeName a) ns f, v)) (\<lambda>l' cs. \<forall>cm y.
     Write (UpdateConfigMap cm) y \<in> set cs \<longrightarrow> classifyAck (cm_Data cm) tok ns f (ag_NodeName a) = Acked \<longrightarrow>
     length cs < 2 ^ 63 \<longrightarrow>
     (\<exists>destIP es ds. ParseIP ip = Some destIP \<and> cs = es @ ds \<and> complete destIP es))"
proof -
  let ?n = "ag_NodeName a" and ?s = "newSignal ip tok ns f (ag_NodeName a) q"
  have s: "ks_Seq ?s = q" "ks_IP ?s = ip" "ks_Token ?s = tok" "ks_FSNamespace ?s = ns" "ks_FSName ?s = f"
    by (simp_all add: newSignal_def)
  define W where "W x e \<longleftrightarrow> (\<forall>cm y. e = Write (UpdateConfigMap cm) y \<longrightarrow>
    (\<exists>d. cm_Data cm = Some d \<and> mlookup d (ackKey ?n ns f) = Some (marshalAck x)))" for x e
  have errors: "ka_Errors x \<le> 0" if "ackEncodable x" "W x (Write (UpdateConfigMap cm) y)"
    "classifyAck (cm_Data cm) tok ns f ?n = Acked" for x cm y
    using that ack.roundtrip [OF that(1)] by (auto simp: W_def classifyAck_def split: if_splits)
  have sound: "\<exists>destIP' es' ds'. ParseIP ip = Some destIP' \<and> es @ ds = es' @ ds' \<and> complete destIP' es'"
    if ip: "ParseIP ip = Some destIP" and es: "\<forall>c \<in> set es. \<not> is_configmap_write c" "e = wrap64 (int n)" "n \<le> length es"
      "n = 0 \<and> err = None \<longrightarrow> complete destIP es" and ds: "\<forall>c \<in> set ds. W x c"
      and x: "ackEncodable x" "ka_Errors x = (if err \<noteq> None then wrap64 (e + 1) else e)"
      and cm: "Write (UpdateConfigMap cm) y \<in> set (es @ ds)" "classifyAck (cm_Data cm) tok ns f ?n = Acked"
        "length (es @ ds) < 2 ^ 63"
    for destIP es ds e n err x cm y
  proof -
    have "Write (UpdateConfigMap cm) y \<in> set ds" using cm(1) es(1) by (auto simp: is_configmap_write_def)
    then have "ka_Errors x \<le> 0" "ds \<noteq> []" using ds x(1) cm(2) errors by auto
    moreover have "ka_Errors x = wrap64 (int (n + (if err = None then 0 else 1)))"
      using x(2) es(2) by (simp add: wrap64_add)
    moreover have "in_int64 (int (n + (if err = None then 0 else 1)))"
    proof -
      have "n + (if err = None then 0 else 1) < 2 ^ 63" using cm(3) es(3) \<open>ds \<noteq> []\<close> by (cases ds) auto
      then have "int (n + (if err = None then 0 else 1)) < int (2 ^ 63)" by (simp only: of_nat_less_iff)
      then show ?thesis by (simp add: in_int64_def)
    qed
    ultimately have "n = 0 \<and> err = None" by (simp add: wrap64_id split: if_splits)
    with es(4) ip show ?thesis by blast
  qed
  show ?thesis
    unfolding processEntry_def fst_conv snd_conv signalFor_own [OF assms(1,2)] option.case suffix_of_killKey
      s Let_def ackKey_suffix [symmetric]
  proof (intro tspec_if tspec_case_option tspec_ret tspec_bind [OF counts] tspec_case_prod, goal_cases)
    case (3 destIP r es k p e err)
    then obtain n where k: "in_int64 k" and n: "\<forall>c \<in> set es. \<not> is_configmap_write c" "e = wrap64 (int n)" "n \<le> length es"
      "n = 0 \<and> err = None \<longrightarrow> complete destIP es" by auto
    let ?e = "if err \<noteq> None then wrap64 (e + 1) else e"
    let ?x = "\<lparr>ka_Seq = q, ka_Token = tok, ka_Node = ?n, ka_FSNamespace = ns, ka_FSName = f, ka_Killed = k, ka_Errors = ?e\<rparr>"
    have "in_int64 ?e" by (simp add: wrap64_in n(2))
    then have x: "ackEncodable ?x" using assms(3-7) k by (simp add: ackEncodable_def)
    have "emits (W ?x) (writeAck E a (ackKey ?n ns f) q tok ns f k ?e)"
      unfolding W_def by (rule writeAck_writes) (rule refl)
    then have "emits (W ?x) (writeAck E a (ackKey ?n ns f) q tok ns f k ?e \<bind>
        (\<lambda>r. case r of Some e \<Rightarrow> ret l | None \<Rightarrow> ret (mupdate (safeSuffix ?n ns f) q l)))"
      by (rule eff_bind) (auto intro!: eff_ret split: option.split)
    from tspec_eff [OF this] show ?case
    proof (rule tspec_weaken, intro allI impI, goal_cases)
      case (1 l' ds cm y)
      then show ?case using sound [OF 3(2) n _ x] by auto
    qed
  qed auto
qed

end

section \<open>Properties\<close>

text \<open>The two sides of the protocol fit together: when the agent of a node finds a signal that the
  controller wrote for this node, newer than the last one it handled, and kills the connections without
  error, then either storing the acknowledgement failed and the agent will try again, or the API server
  accepted a ConfigMap in which the controller sees this node as acknowledged for this token.\<close>

theorem agent_acknowledges_signal:
  assumes "unmarshalSignal v = Some (newSignal ip tok ns f (ag_NodeName a) q)" "ag_NodeName a \<noteq> ''''"
    and "seqOf l (safeSuffix (ag_NodeName a) ns f) < q" "ParseIP ip = Some destIP"
    and "in_int64 q" "ascii tok" "ascii ns" "ascii f" "ascii (ag_NodeName a)"
    and "eff P (kill destIP) (\<lambda>(killed, errs, err). in_int64 killed \<and> errs = 0 \<and> err = None)"
  shows "result (processEntry E kill a l (killKey (ag_NodeName a) ns f, v)) w = l \<or>
    (\<exists>cm. Write (UpdateConfigMap cm) None \<in> set (calls (processEntry E kill a l (killKey (ag_NodeName a) ns f, v)) w) \<and>
      classifyAck (cm_Data cm) tok ns f (ag_NodeName a) = Acked)"
  using tspec_calls [OF processEntry_acks [where kill = kill, OF assms]] by blast

definition noConns :: killer where
  "noConns _ = ret (0, 0, None)"

definition sampleAgent :: AgentConfig where
  "sampleAgent = \<lparr>ag_NodeName = ''n1'', ag_Namespace = ''sys''\<rparr>"

text \<open>Sequence numbers only grow: over a run, the last handled number of no key decreases, whatever the
  ConfigMap contains, the calls return and the kills do, so no signal that was acknowledged is handled
  again by this agent.\<close>

theorem agent_seq_monotone:
  assumes "\<And>ip. emits P (kill ip)"
  shows "seqOf l k \<le> seqOf (fst (result (RunOnce E kill a l) w)) k"
proof -
  have "eff (\<lambda>e. P e \<or> signal_entry e) (RunOnce E kill a l) (\<lambda>r. seqs_le l (fst r))"
    unfolding RunOnce_def call_defs
    by (intro eff_bind [OF emits_call] eff_case_sum eff_if eff_ret
        eff_bind [OF processEntries_mono [OF emits_weaken [OF assms]]])
      (auto simp: seqs_le_def)
  from eff_result [OF this] show ?thesis by (simp add: seqs_le_def)
qed


definition restartEnv :: env where
  "restartEnv = quietEnv\<lparr>o_getConfigMap := \<lambda>_ _. Inr \<lparr>cm_Meta = emptyMeta,
     cm_Data = Some (populateKillSignals [] [''n1''] ''10.0.0.1'' ''t2'' ''default'' ''db'')\<rparr>\<rparr>"


end
