(* ===== verification/Netlink.thy ===== *)
theory Netlink
  imports Agent
begin

text \<open>
  \<^verbatim>\<open>src/internal/connkill/netlink.go\<close>: how a node agent destroys the TCP connections to an address in the
  network namespace it is in.  The kernel is a parameter of the model, like the API servers: an
  answer to every call, computed from the history.  The byte order of the platform is a parameter
  too, and the messages are built and read byte by byte, as the sources do through
  \<^verbatim>\<open>unsafe.Pointer\<close> and \<^verbatim>\<open>encoding/binary\<close>.  \<^verbatim>\<open>syscall.ParseNetlinkMessage\<close> is part of Go's standard library
  and modelled from it.

  The loop that reads a dump ends when the kernel says so.  It has fuel, and running out of it is
  the value \<open>None\<close>; \<open>Destroy_returns\<close> shows that there is enough fuel whenever the dump ends.
\<close>

section \<open>Bytes\<close>

definition put16 :: "bool \<Rightarrow> 16 word \<Rightarrow> byte list" where
  "put16 big w = (if big then rev else id) [ucast w, ucast (drop_bit 8 w)]"

definition put32 :: "bool \<Rightarrow> 32 word \<Rightarrow> byte list" where
  "put32 big w = (if big then rev else id) [ucast w, ucast (drop_bit 8 w), ucast (drop_bit 16 w), ucast (drop_bit 24 w)]"

definition get16 :: "bool \<Rightarrow> byte list \<Rightarrow> 16 word" where
  "get16 big b = (let l = (if big then rev else id) (take 2 b) in ucast (l ! 0) OR push_bit 8 (ucast (l ! 1)))"

definition get32 :: "bool \<Rightarrow> byte list \<Rightarrow> 32 word" where
  "get32 big b = (let l = (if big then rev else id) (take 4 b) in
     ucast (l ! 0) OR push_bit 8 (ucast (l ! 1)) OR push_bit 16 (ucast (l ! 2)) OR push_bit 24 (ucast (l ! 3)))"

text \<open>The platform's byte order, as \<^verbatim>\<open>init\<close> finds it: \<^verbatim>\<open>buf\<close> holds what the platform stores for the number 0x0102, and its first
  byte tells.  The result is the byte order itself, so the programs below take it from the kernel.\<close>

definition nativeEndian :: "bool \<Rightarrow> bool" where
  "nativeEndian big = (let buf = put16 big 0x0102 in buf ! 0 = 0x01)"

lemma nativeEndian_detected: "nativeEndian big = big"
  by (simp add: nativeEndian_def put16_def Let_def)

section \<open>Netlink messages\<close>

definition NLMSG_HDRLEN :: nat where "NLMSG_HDRLEN = 16"
definition NLMSG_ERROR :: "16 word" where "NLMSG_ERROR = 2"
definition NLMSG_DONE :: "16 word" where "NLMSG_DONE = 3"
definition NLM_F_REQUEST :: "16 word" where "NLM_F_REQUEST = 1"
definition NLM_F_ACK :: "16 word" where "NLM_F_ACK = 4"
definition NLM_F_DUMP :: "16 word" where "NLM_F_DUMP = 768"
definition AF_INET :: byte where "AF_INET = 2"
definition AF_INET6 :: byte where "AF_INET6 = 10"
definition IPPROTO_TCP :: byte where "IPPROTO_TCP = 6"

definition SOCK_DIAG_BY_FAMILY :: "16 word" where "SOCK_DIAG_BY_FAMILY = 20"
definition SOCK_DESTROY :: "16 word" where "SOCK_DESTROY = 21"
definition tcpAllStates :: "32 word" where "tcpAllStates = 4095"

record NetlinkMessage =
  nl_Type :: "16 word"
  nl_Flags :: "16 word"
  nl_Seq :: "32 word"
  nl_Pid :: "32 word"
  nl_Data :: "byte list"

definition EINVAL :: go_error where
  "EINVAL = GoError OtherErr ''invalid argument''"

definition nlmAlignOf :: "nat \<Rightarrow> nat" where
  "nlmAlignOf n = (n + 3) div 4 * 4"

function ParseNetlinkMessage :: "bool \<Rightarrow> byte list \<Rightarrow> go_error + NetlinkMessage list" where
  "ParseNetlinkMessage big b =
     (if length b < NLMSG_HDRLEN then Inr []
      else let n = unat (get32 big b); l = nlmAlignOf n in
        if n < NLMSG_HDRLEN \<or> l > length b then Inl EINVAL
        else case ParseNetlinkMessage big (drop l b) of
          Inl e \<Rightarrow> Inl e
        | Inr ms \<Rightarrow> Inr (\<lparr>nl_Type = get16 big (drop 4 b), nl_Flags = get16 big (drop 6 b),
            nl_Seq = get32 big (drop 8 b), nl_Pid = get32 big (drop 12 b),
            nl_Data = take (n - NLMSG_HDRLEN) (drop NLMSG_HDRLEN b)\<rparr> # ms))"
  by pat_completeness auto
termination
  by (relation "measure (length \<circ> snd)") (auto simp: nlmAlignOf_def NLMSG_HDRLEN_def)

declare ParseNetlinkMessage.simps [simp del]

section \<open>Socket diagnostics\<close>

text \<open>\<^verbatim>\<open>inetDiagSockID\<close>, \<^verbatim>\<open>inetDiagReqV2\<close> and \<^verbatim>\<open>inetDiagMsg\<close>; ports and addresses are arrays of bytes.\<close>

record inetDiagSockID =
  id_SPort :: "byte list"
  id_DPort :: "byte list"
  id_Src :: "byte list"
  id_Dst :: "byte list"
  id_If :: "32 word"
  id_Cookie :: "32 word \<times> 32 word"

record inetDiagReqV2 =
  rq_Family :: byte
  rq_Protocol :: byte
  rq_Ext :: byte
  rq_Pad :: byte
  rq_States :: "32 word"
  rq_ID :: inetDiagSockID

record inetDiagMsg =
  dm_Family :: byte
  dm_State :: byte
  dm_Timer :: byte
  dm_Retrans :: byte
  dm_ID :: inetDiagSockID
  dm_Expires :: "32 word"
  dm_RQueue :: "32 word"
  dm_WQueue :: "32 word"
  dm_UID :: "32 word"
  dm_Inode :: "32 word"

definition zeroSockID :: inetDiagSockID where
  "zeroSockID = \<lparr>id_SPort = replicate 2 0, id_DPort = replicate 2 0, id_Src = replicate 16 0,
     id_Dst = replicate 16 0, id_If = 0, id_Cookie = (0, 0)\<rparr>"

text \<open>The arrays of a socket identity have the lengths of their types.\<close>

definition sockID_ok :: "inetDiagSockID \<Rightarrow> bool" where
  "sockID_ok i \<longleftrightarrow> length (id_SPort i) = 2 \<and> length (id_DPort i) = 2 \<and> length (id_Src i) = 16 \<and> length (id_Dst i) = 16"

text \<open>The memory of the structures.\<close>

definition sockIDBytes :: "bool \<Rightarrow> inetDiagSockID \<Rightarrow> byte list" where
  "sockIDBytes big i = id_SPort i @ id_DPort i @ id_Src i @ id_Dst i @ put32 big (id_If i) @
     put32 big (fst (id_Cookie i)) @ put32 big (snd (id_Cookie i))"

definition reqBytes :: "bool \<Rightarrow> inetDiagReqV2 \<Rightarrow> byte list" where
  "reqBytes big r = [rq_Family r, rq_Protocol r, rq_Ext r, rq_Pad r] @ put32 big (rq_States r) @ sockIDBytes big (rq_ID r)"

definition sockIDOf :: "bool \<Rightarrow> byte list \<Rightarrow> inetDiagSockID" where
  "sockIDOf big b = \<lparr>id_SPort = take 2 b, id_DPort = take 2 (drop 2 b), id_Src = take 16 (drop 4 b),
     id_Dst = take 16 (drop 20 b), id_If = get32 big (drop 36 b),
     id_Cookie = (get32 big (drop 40 b), get32 big (drop 44 b))\<rparr>"

definition sizeofDiagMsg :: nat where "sizeofDiagMsg = 72"

definition diagMsgOf :: "bool \<Rightarrow> byte list \<Rightarrow> inetDiagMsg" where
  "diagMsgOf big b = \<lparr>dm_Family = b ! 0, dm_State = b ! 1, dm_Timer = b ! 2, dm_Retrans = b ! 3,
     dm_ID = sockIDOf big (drop 4 b), dm_Expires = get32 big (drop 52 b), dm_RQueue = get32 big (drop 56 b),
     dm_WQueue = get32 big (drop 60 b), dm_UID = get32 big (drop 64 b), dm_Inode = get32 big (drop 68 b)\<rparr>"

definition requestMessage :: "bool \<Rightarrow> 16 word \<Rightarrow> 16 word \<Rightarrow> 32 word \<Rightarrow> inetDiagReqV2 \<Rightarrow> byte list" where
  "requestMessage big type flags seq req =
     put32 big (of_nat (NLMSG_HDRLEN + length (reqBytes big req))) @ put16 big type @ put16 big flags @
     put32 big seq @ put32 big 0 @ reqBytes big req"

section \<open>System calls\<close>

definition readDir :: "env \<Rightarrow> string \<Rightarrow> (go_error + (string \<times> bool) list) io" where
  "readDir E p = call (\<lambda>h. k_readDir (o_kernel E) h p) (\<lambda>r. Kernel (ReadDir p r))"
definition stat :: "env \<Rightarrow> string \<Rightarrow> (go_error + 64 word) io" where
  "stat E p = call (\<lambda>h. k_stat (o_kernel E) h p) (\<lambda>r. Kernel (Stat p r))"
definition openFile :: "env \<Rightarrow> string \<Rightarrow> (go_error + int) io" where
  "openFile E p = call (\<lambda>h. k_open (o_kernel E) h p) (\<lambda>r. Kernel (Open p r))"
definition closeFD :: "int \<Rightarrow> unit io" where
  "closeFD fd = call (\<lambda>_. ()) (\<lambda>_. Kernel (Close fd))"
definition setns :: "env \<Rightarrow> int \<Rightarrow> go_error option io" where
  "setns E fd = call (\<lambda>h. k_setns (o_kernel E) h fd) (\<lambda>r. Kernel (Setns fd r))"
definition socket :: "env \<Rightarrow> (go_error + int) io" where
  "socket E = call (\<lambda>h. k_socket (o_kernel E) h) (\<lambda>r. Kernel (Socket r))"
definition bindSock :: "env \<Rightarrow> int \<Rightarrow> go_error option io" where
  "bindSock E fd = call (\<lambda>h. k_bind (o_kernel E) h fd) (\<lambda>r. Kernel (Bind fd r))"
definition sockWrite :: "env \<Rightarrow> int \<Rightarrow> byte list \<Rightarrow> go_error option io" where
  "sockWrite E fd b = call (\<lambda>h. k_write (o_kernel E) h fd b) (\<lambda>r. Kernel (SockWrite fd b r))"
definition setRcvTimeout :: "env \<Rightarrow> int \<Rightarrow> int \<Rightarrow> go_error option io" where
  "setRcvTimeout E fd s = call (\<lambda>h. k_setRcvTimeout (o_kernel E) h fd s) (\<lambda>r. Kernel (SetRcvTimeout fd s r))"
definition recvfrom :: "env \<Rightarrow> int \<Rightarrow> nat \<Rightarrow> (go_error + byte list) io" where
  "recvfrom E fd n = call (\<lambda>h. k_recvfrom (o_kernel E) h fd n) (\<lambda>r. Kernel (Recvfrom fd n r))"

lemmas syscall_defs = readDir_def stat_def openFile_def closeFD_def setns_def socket_def bindSock_def sockWrite_def
  setRcvTimeout_def recvfrom_def

section \<open>Dumping and destroying sockets\<close>

text \<open>The number in an error message, when it is not zero.\<close>

definition nlErrno :: "bool \<Rightarrow> NetlinkMessage \<Rightarrow> int option" where
  "nlErrno big m =
     (if nl_Type m = NLMSG_ERROR \<and> length (nl_Data m) \<ge> 4 \<and> sint (get32 big (nl_Data m)) \<noteq> 0
      then Some (sint (get32 big (nl_Data m))) else None)"

datatype dump_state = DumpMore | DumpDone | DumpStop | DumpError go_error

fun dumpMessages ::
    "bool \<Rightarrow> (inetDiagMsg \<Rightarrow> 's \<Rightarrow> bool \<times> 's) \<Rightarrow> NetlinkMessage list \<Rightarrow> 's \<Rightarrow> dump_state \<times> 's" where
  "dumpMessages big fn [] s = (DumpMore, s)"
| "dumpMessages big fn (m # ms) s =
     (if nl_Type m = NLMSG_DONE then (DumpDone, s)
      else if nl_Type m = NLMSG_ERROR then
        (case nlErrno big m of
           Some errno \<Rightarrow> (DumpError (Errorf (''netlink error: '' @ show_int errno)), s)
         | None \<Rightarrow> dumpMessages big fn ms s)
      else if length (nl_Data m) \<ge> sizeofDiagMsg then
        (let (go, s1) = fn (diagMsgOf big (nl_Data m)) s in
         if \<not> go then (DumpStop, s1) else dumpMessages big fn ms s1)
      else dumpMessages big fn ms s)"

fun dumpLoop ::
    "nat \<Rightarrow> env \<Rightarrow> int \<Rightarrow> (inetDiagMsg \<Rightarrow> 's \<Rightarrow> bool \<times> 's) \<Rightarrow> 's \<Rightarrow> (go_error option \<times> 's) option io" where
  "dumpLoop 0 E fd fn s = ret None"
| "dumpLoop (Suc fuel) E fd fn s =
     do { r \<leftarrow> recvfrom E fd 65536;
          case r of
            Inl e \<Rightarrow> ret (Some (Some (Errorf_w ''recvfrom'' e), s))
          | Inr b \<Rightarrow>
              (case ParseNetlinkMessage (k_bigEndian (o_kernel E)) b of
                 Inl e \<Rightarrow> ret (Some (Some (Errorf_w ''parsing netlink messages'' e), s))
               | Inr msgs \<Rightarrow>
                   (case dumpMessages (k_bigEndian (o_kernel E)) fn msgs s of
                      (DumpError e, s1) \<Rightarrow> ret (Some (Some e, s1))
                    | (DumpStop, s1) \<Rightarrow> ret (Some (None, s1))
                    | (DumpDone, s1) \<Rightarrow> ret (Some (None, s1))
                    | (DumpMore, s1) \<Rightarrow> dumpLoop fuel E fd fn s1)) }"

definition dumpRequest :: "bool \<Rightarrow> byte \<Rightarrow> byte list" where
  "dumpRequest big family = requestMessage big SOCK_DIAG_BY_FAMILY (NLM_F_DUMP OR NLM_F_REQUEST) 1
     \<lparr>rq_Family = family, rq_Protocol = IPPROTO_TCP, rq_Ext = 0, rq_Pad = 0, rq_States = tcpAllStates, rq_ID = zeroSockID\<rparr>"

definition forEachTCPSocket ::
    "env \<Rightarrow> nat \<Rightarrow> int \<Rightarrow> byte \<Rightarrow> (inetDiagMsg \<Rightarrow> 's \<Rightarrow> bool \<times> 's) \<Rightarrow> 's \<Rightarrow> (go_error option \<times> 's) option io" where
  "forEachTCPSocket E fuel fd family fn s =
     do { w \<leftarrow> sockWrite E fd (dumpRequest (k_bigEndian (o_kernel E)) family);
          case w of
            Some e \<Rightarrow> ret (Some (Some (Errorf_w ''sending diag request'' e), s))
          | None \<Rightarrow> do {
              t \<leftarrow> setRcvTimeout E fd 10;
              case t of
                Some e \<Rightarrow> ret (Some (Some (Errorf_w ''setting recv timeout'' e), s))
              | None \<Rightarrow> dumpLoop fuel E fd fn s } }"

definition matchesDest :: "inetDiagMsg \<Rightarrow> ip \<Rightarrow> byte \<Rightarrow> bool" where
  "matchesDest msg destIP family =
     (if family = AF_INET then
        (case To4 destIP of
           None \<Rightarrow> False
         | Some ip4 \<Rightarrow> \<forall>i < 4. id_Dst (dm_ID msg) ! i = ip4 ! i)
      else case To16 destIP of
        None \<Rightarrow> False
      | Some ip6 \<Rightarrow> \<forall>i < 16. id_Dst (dm_ID msg) ! i = ip6 ! i)"

definition destroyRequest :: "bool \<Rightarrow> byte \<Rightarrow> inetDiagSockID \<Rightarrow> byte list" where
  "destroyRequest big family i = requestMessage big SOCK_DESTROY (NLM_F_REQUEST OR NLM_F_ACK) 2
     \<lparr>rq_Family = family, rq_Protocol = IPPROTO_TCP, rq_Ext = 0, rq_Pad = 0, rq_States = tcpAllStates, rq_ID = i\<rparr>"

definition destroySocket :: "env \<Rightarrow> int \<Rightarrow> byte \<Rightarrow> inetDiagSockID \<Rightarrow> go_error option io" where
  "destroySocket E fd family i =
     (let big = k_bigEndian (o_kernel E) in
      do { w \<leftarrow> sockWrite E fd (destroyRequest big family i);
           case w of
             Some e \<Rightarrow> ret (Some (Errorf_w ''sending destroy request'' e))
           | None \<Rightarrow> do {
               t \<leftarrow> setRcvTimeout E fd 5;
               case t of
                 Some e \<Rightarrow> ret (Some (Errorf_w ''setting destroy recv timeout'' e))
               | None \<Rightarrow> do {
                   r \<leftarrow> recvfrom E fd 4096;
                   case r of
                     Inl e \<Rightarrow> ret (Some (Errorf_w ''reading destroy ack'' e))
                   | Inr b \<Rightarrow>
                       (case ParseNetlinkMessage big b of
                          Inl e \<Rightarrow> ret (Some (Errorf_w ''parsing destroy ack'' e))
                        | Inr msgs \<Rightarrow> (case List.map_filter (nlErrno big) msgs of
                            [] \<Rightarrow> ret None
                          | n # _ \<Rightarrow> ret (Some (Errorf (''destroy error: '' @ show_int n))))) } } })"

fun destroyAll :: "env \<Rightarrow> int \<Rightarrow> byte \<Rightarrow> inetDiagSockID list \<Rightarrow> int \<times> int \<Rightarrow> (int \<times> int) io" where
  "destroyAll E fd family [] (destroyed, errCount) = ret (destroyed, errCount)"
| "destroyAll E fd family (i # is) (destroyed, errCount) =
     do { e \<leftarrow> destroySocket E fd family i;
          destroyAll E fd family is (if e \<noteq> None then (destroyed, wrap64 (errCount + 1)) else (wrap64 (destroyed + 1), errCount)) }"

text \<open>The callback of the dump: collect the identities of the sockets that match.\<close>

definition collect :: "ip \<Rightarrow> byte \<Rightarrow> inetDiagMsg \<Rightarrow> inetDiagSockID list \<Rightarrow> bool \<times> inetDiagSockID list" where
  "collect destIP family msg targets = (True, if matchesDest msg destIP family then targets @ [dm_ID msg] else targets)"

definition familyOf :: "ip \<Rightarrow> byte" where
  "familyOf destIP = (if To4 destIP = None then AF_INET6 else AF_INET)"

definition DestroySocketsByDestIP :: "env \<Rightarrow> nat \<Rightarrow> ip \<Rightarrow> (int \<times> int \<times> go_error option) option io" where
  "DestroySocketsByDestIP E fuel destIP =
     (let family = familyOf destIP in
      do { s \<leftarrow> socket E;
           case s of
             Inl e \<Rightarrow> ret (Some (0, 0, Some (Errorf_w ''opening netlink socket'' e)))
           | Inr fd \<Rightarrow> do {
               b \<leftarrow> bindSock E fd;
               case b of
                 Some e \<Rightarrow> do { closeFD fd; ret (Some (0, 0, Some (Errorf_w ''binding netlink socket'' e))) }
               | None \<Rightarrow> do {
                   d \<leftarrow> forEachTCPSocket E fuel fd family (collect destIP family) [];
                   case d of
                     None \<Rightarrow> ret None
                   | Some (Some e, _) \<Rightarrow> do { closeFD fd; ret (Some (0, 0, Some (Errorf_w ''iterating TCP sockets'' e))) }
                   | Some (None, targets) \<Rightarrow> do {
                       (destroyed, errCount) \<leftarrow> destroyAll E fd family targets (0, 0);
                       closeFD fd;
                       ret (Some (destroyed, errCount, None)) } } } })"

section \<open>Reading back what was written\<close>

lemma put_length [simp]: "length (put16 big w) = 2" "length (put32 big w32) = 4"
  by (simp_all add: put16_def put32_def)

lemma get16_put16 [simp]: "get16 big (put16 big w @ rest) = w"
  by (rule bit_word_eqI)
    (auto simp: get16_def put16_def Let_def bit_or_iff bit_push_bit_iff bit_ucast_iff bit_drop_bit_eq)

lemma get32_put32 [simp]: "get32 big (put32 big w @ rest) = w"
proof (rule bit_word_eqI)
  fix n
  assume "n < LENGTH(32)"
  then consider "n < 8" | "8 \<le> n" "n < 16" | "16 \<le> n" "n < 24" | "24 \<le> n" "n < 32" by fastforce
  then show "bit (get32 big (put32 big w @ rest)) n = bit w n"
    by cases (auto simp: get32_def put32_def Let_def bit_or_iff bit_push_bit_iff bit_ucast_iff bit_drop_bit_eq)
qed

lemma get_put_all [simp]: "get16 big (put16 big w) = w" "get32 big (put32 big w32) = w32"
  using get16_put16 [of big w "[]"] get32_put32 [of big w32 "[]"] by simp_all

lemma sockIDBytes_length: "sockID_ok i \<Longrightarrow> length (sockIDBytes big i) = 48"
  by (simp add: sockIDBytes_def sockID_ok_def)

lemma reqBytes_length: "sockID_ok (rq_ID r) \<Longrightarrow> length (reqBytes big r) = 56"
  by (simp add: reqBytes_def sockIDBytes_length)

lemma sockIDOf_bytes: "sockID_ok i \<Longrightarrow> sockIDOf big (sockIDBytes big i) = i"
  by (cases i) (auto simp: sockIDOf_def sockIDBytes_def sockID_ok_def)

lemma sockIDOf_ok: "48 \<le> length b \<Longrightarrow> sockID_ok (sockIDOf big b)"
  by (simp add: sockIDOf_def sockID_ok_def)

lemma parse_request:
  assumes "sockID_ok (rq_ID req)"
  shows "ParseNetlinkMessage big (requestMessage big type flags seq req) =
    Inr [\<lparr>nl_Type = type, nl_Flags = flags, nl_Seq = seq, nl_Pid = 0, nl_Data = reqBytes big req\<rparr>]"
proof -
  let ?b = "requestMessage big type flags seq req"
  let ?n = "put32 big (of_nat 72)"
  have n: "NLMSG_HDRLEN + length (reqBytes big req) = 72" using assms by (simp add: reqBytes_length NLMSG_HDRLEN_def)
  have b: "?b = ?n @ put16 big type @ put16 big flags @ put32 big seq @ put32 big 0 @ reqBytes big req"
    by (simp add: requestMessage_def n)
  have len: "length ?b = 72" using n by (simp add: b NLMSG_HDRLEN_def)
  have "get32 big ?b = of_nat 72" unfolding b by (rule get32_put32)
  then have size: "unat (get32 big ?b) = 72" by simp
  have d: "drop 4 ?b = put16 big type @ put16 big flags @ put32 big seq @ put32 big 0 @ reqBytes big req"
    "drop 6 ?b = put16 big flags @ put32 big seq @ put32 big 0 @ reqBytes big req"
    "drop 8 ?b = put32 big seq @ put32 big 0 @ reqBytes big req"
    "drop 12 ?b = put32 big 0 @ reqBytes big req" "drop 16 ?b = reqBytes big req"
    by (simp_all add: b)
  have "ParseNetlinkMessage big [] = Inr []" by (simp add: ParseNetlinkMessage.simps NLMSG_HDRLEN_def)
  then show ?thesis
    using n by (subst ParseNetlinkMessage.simps) (simp add: len size d nlmAlignOf_def NLMSG_HDRLEN_def Let_def)
qed

section \<open>The dump\<close>

text \<open>The sockets that a list of messages reports: those before the end of the dump, errors and short messages aside.\<close>

definition reported :: "bool \<Rightarrow> NetlinkMessage list \<Rightarrow> inetDiagMsg list" where
  "reported big msgs = map (\<lambda>m. diagMsgOf big (nl_Data m))
     (filter (\<lambda>m. nl_Type m \<noteq> NLMSG_ERROR \<and> sizeofDiagMsg \<le> length (nl_Data m))
       (takeWhile (\<lambda>m. nl_Type m \<noteq> NLMSG_DONE) msgs))"

definition targetsIn :: "ip \<Rightarrow> inetDiagMsg list \<Rightarrow> inetDiagSockID list" where
  "targetsIn destIP msgs = map dm_ID (filter (\<lambda>m. matchesDest m destIP (familyOf destIP)) msgs)"

lemma dumpMessages_collect:
  assumes "dumpMessages big (collect destIP (familyOf destIP)) msgs s = (st, s')" "\<And>e. st \<noteq> DumpError e"
  shows "s' = s @ targetsIn destIP (reported big msgs) \<and> st \<in> {DumpMore, DumpDone}"
  using assms
proof (induction msgs arbitrary: s)
  case (Cons m msgs)
  show ?case
    using Cons.prems Cons.IH [of s] Cons.IH [of "s @ [dm_ID (diagMsgOf big (nl_Data m))]"]
    by (auto simp: reported_def targetsIn_def collect_def split: if_splits option.splits)
qed (simp add: reported_def targetsIn_def)

text \<open>The datagrams of the dump among the calls, and what they report.\<close>

fun datagramsOf :: "entry \<Rightarrow> byte list list" where
  "datagramsOf (Kernel (Recvfrom fd n (Inr b))) = (if n = 65536 then [b] else [])"
| "datagramsOf _ = []"

definition dumped :: "bool \<Rightarrow> entry list \<Rightarrow> inetDiagMsg list" where
  "dumped big cs = concat (map (\<lambda>b. case ParseNetlinkMessage big b of Inl e \<Rightarrow> [] | Inr msgs \<Rightarrow> reported big msgs)
     (concat (map datagramsOf cs)))"

lemma dumped_simps [simp]:
  "dumped big [] = []" "dumped big (cs @ ds) = dumped big cs @ dumped big ds"
  "dumped big (Kernel (Recvfrom fd 65536 (Inr b)) # cs) =
     (case ParseNetlinkMessage big b of Inl e \<Rightarrow> [] | Inr msgs \<Rightarrow> reported big msgs) @ dumped big cs"
  by (simp_all add: dumped_def)

lemma dumped_none: "\<forall>e \<in> set cs. datagramsOf e = [] \<Longrightarrow> dumped big cs = []"
  by (induction cs) (auto simp: dumped_def)

lemma targetsIn_append [simp]: "targetsIn ip (a @ b) = targetsIn ip a @ targetsIn ip b" "targetsIn ip [] = []"
  by (simp_all add: targetsIn_def)

fun writesOf :: "entry \<Rightarrow> byte list list" where
  "writesOf (Kernel (SockWrite fd b r)) = [b]"
| "writesOf _ = []"

definition writes :: "entry list \<Rightarrow> byte list list" where
  "writes cs = concat (map writesOf cs)"

lemma writes_simps [simp]:
  "writes [] = []" "writes (cs @ ds) = writes cs @ writes ds" "writes (e # cs) = writesOf e @ writes cs"
  by (simp_all add: writes_def)

lemma dumpLoop_targets:
  assumes "big = k_bigEndian (o_kernel E)"
  shows "tspec (dumpLoop fuel E fd (collect destIP (familyOf destIP)) s)
    (\<lambda>r cs. writes cs = [] \<and> (\<forall>t. r = Some (None, t) \<longrightarrow> t = s @ targetsIn destIP (dumped big cs)))"
proof (induction fuel arbitrary: s)
  case 0
  show ?case by (simp add: tspec_ret)
next
  case (Suc fuel)
  show ?case
    unfolding dumpLoop.simps recvfrom_def assms [symmetric]
  proof (intro tspec_bind_call tspec_case_sum tspec_ret, goal_cases)
    case (3 h b msgs)
    obtain st s1 where st: "dumpMessages big (collect destIP (familyOf destIP)) msgs s = (st, s1)" by fastforce
    note collected = dumpMessages_collect [OF st]
    show ?case
      using 3 collected Suc.IH [of s1] unfolding st
      by (cases st) (auto intro!: tspec_ret elim!: tspec_weaken)
  qed auto
qed

lemma dumped_skip [simp]: "datagramsOf e = [] \<Longrightarrow> dumped big (e # cs) = dumped big cs"
  by (simp add: dumped_def)

section \<open>The calls on the socket\<close>

fun dump_entry :: "entry \<Rightarrow> bool" where
  "dump_entry (Kernel (SockWrite fd b r)) = True"
| "dump_entry (Kernel (SetRcvTimeout fd s r)) = True"
| "dump_entry (Kernel (Recvfrom fd n r)) = (n = 65536)"
| "dump_entry _ = False"

fun socket_entry :: "entry \<Rightarrow> bool" where
  "socket_entry (Kernel (Socket r)) = True"
| "socket_entry (Kernel (Bind fd r)) = True"
| "socket_entry (Kernel (Close fd)) = True"
| "socket_entry (Kernel (SockWrite fd b r)) = True"
| "socket_entry (Kernel (SetRcvTimeout fd s r)) = True"
| "socket_entry (Kernel (Recvfrom fd n r)) = True"
| "socket_entry _ = False"

lemma dump_socket_entry: "dump_entry e \<Longrightarrow> socket_entry e"
  by (auto elim: dump_entry.elims)

lemma dumpLoop_emits: "emits dump_entry (dumpLoop fuel E fd fn s)"
proof (induction fuel arbitrary: s)
  case (Suc fuel)
  show ?case
    unfolding dumpLoop.simps recvfrom_def
    by (intro eff_bind [OF emits_call] eff_case_sum eff_ret TrueI)
      (auto intro!: eff_ret Suc split: prod.split dump_state.split)
qed (auto intro: eff_ret)

lemma forEachTCPSocket_emits: "emits dump_entry (forEachTCPSocket E fuel fd family fn s)"
  unfolding forEachTCPSocket_def sockWrite_def setRcvTimeout_def
  by (intro eff_bind [OF emits_call] eff_case_option eff_ret dumpLoop_emits) simp_all

lemma destroyAll_emits: "emits socket_entry (destroyAll E fd family is acc)"
proof (induction "is" arbitrary: acc)
  case (Cons i "is")
  have "emits socket_entry (destroySocket E fd family i)"
    unfolding destroySocket_def sockWrite_def setRcvTimeout_def recvfrom_def Let_def
    by (intro eff_bind [OF emits_call] eff_case_option eff_case_sum eff_ret TrueI) (auto intro!: eff_ret split: list.split)
  then show ?case using Cons by (cases acc) (auto intro: eff_bind)
next
  case Nil
  show ?case by (cases acc) (auto intro: eff_ret)
qed

lemma Destroy_emits: "emits socket_entry (DestroySocketsByDestIP E fuel destIP)"
  unfolding DestroySocketsByDestIP_def socket_def bindSock_def closeFD_def Let_def
  by (intro eff_bind [OF emits_call] eff_case_option eff_case_sum eff_case_prod eff_ret TrueI
      eff_bind [OF emits_weaken [OF forEachTCPSocket_emits dump_socket_entry]] eff_bind [OF destroyAll_emits])
    simp_all

section \<open>The targets of a dump\<close>

lemma forEachTCPSocket_targets:
  assumes "big = k_bigEndian (o_kernel E)"
  shows "tspec (forEachTCPSocket E fuel fd (familyOf destIP) (collect destIP (familyOf destIP)) [])
    (\<lambda>r cs. writes cs = [dumpRequest big (familyOf destIP)] \<and>
       (\<forall>t. r = Some (None, t) \<longrightarrow> t = targetsIn destIP (dumped big cs)))"
  unfolding forEachTCPSocket_def sockWrite_def setRcvTimeout_def assms [symmetric]
  by (intro tspec_bind_call tspec_case_option tspec_ret tspec_weaken [OF dumpLoop_targets [OF assms]])
    auto

section \<open>Destroying what was dumped\<close>

text \<open>An answer to a destroy request that reports no error.\<close>

fun goodAck :: "bool \<Rightarrow> entry \<Rightarrow> bool" where
  "goodAck big (Kernel (Recvfrom fd n (Inr b))) =
     (n = 4096 \<and> (case ParseNetlinkMessage big b of Inl e \<Rightarrow> False | Inr msgs \<Rightarrow> \<forall>m \<in> set msgs. nlErrno big m = None))"
| "goodAck big _ = False"

definition acks :: "bool \<Rightarrow> entry list \<Rightarrow> nat" where
  "acks big cs = length (filter (goodAck big) cs)"

lemma acks_simps [simp]:
  "acks big [] = 0" "acks big (e # cs) = (if goodAck big e then Suc (acks big cs) else acks big cs)"
  "acks big (cs @ ds) = acks big cs + acks big ds"
  by (simp_all add: acks_def)

lemma destroySocket_request:
  assumes "big = k_bigEndian (o_kernel E)"
  shows "tspec (destroySocket E fd family i) (\<lambda>r cs. writes cs = [destroyRequest big family i] \<and>
     dumped big cs = [] \<and> acks big cs = (if r = None then 1 else 0))"
  unfolding destroySocket_def sockWrite_def setRcvTimeout_def recvfrom_def Let_def assms [symmetric]
  by (intro tspec_bind_call tspec_case_option tspec_case_sum tspec_case_list tspec_ret)
    (auto simp: map_filter_none dest: map_filter_Cons)

lemma destroyAll_requests:
  assumes "big = k_bigEndian (o_kernel E)"
  shows "tspec (destroyAll E fd family is (wrap64 d, wrap64 e)) (\<lambda>r cs. writes cs = map (destroyRequest big family) is \<and>
     dumped big cs = [] \<and> acks big cs \<le> length is \<and>
     r = (wrap64 (d + int (acks big cs)), wrap64 (e + (int (length is) - int (acks big cs)))))"
proof (induction "is" arbitrary: d e)
  case Nil
  show ?case by (auto intro!: tspec_ret)
next
  case (Cons i "is")
  show ?case
    unfolding destroyAll.simps
  proof (rule tspec_bind [OF destroySocket_request [OF assms]], goal_cases)
    case (1 a cs)
    then show ?case
      using Cons.IH [of "d + 1" e] Cons.IH [of d "e + 1"]
      by (cases a) (auto simp: wrap64_add algebra_simps elim!: tspec_weaken)
  qed
qed

lemma forEachTCPSocket_acks: "emits (\<lambda>e. \<not> goodAck big e) (forEachTCPSocket E fuel fd family fn s)"
  by (rule emits_weaken [OF forEachTCPSocket_emits]) (auto elim!: goodAck.elims)

lemma acks_none: "\<forall>e \<in> set cs. \<not> goodAck big e \<Longrightarrow> acks big cs = 0"
  by (induction cs) auto

text \<open>The requests of a whole run, and what it reports.\<close>

definition destroys :: "bool \<Rightarrow> ip \<Rightarrow> (int \<times> int \<times> go_error option) option \<Rightarrow> entry list \<Rightarrow> bool" where
  "destroys big destIP r cs \<longleftrightarrow>
     (let ts = targetsIn destIP (dumped big cs); f = familyOf destIP in
      (writes cs = [] \<or> writes cs = [dumpRequest big f] \<or> writes cs = dumpRequest big f # map (destroyRequest big f) ts) \<and>
      (\<forall>d e. r = Some (d, e, None) \<longrightarrow> writes cs = dumpRequest big f # map (destroyRequest big f) ts \<and>
         acks big cs \<le> length ts \<and> d = wrap64 (int (acks big cs)) \<and> e = wrap64 (int (length ts) - int (acks big cs))) \<and>
      (\<forall>d e err. r = Some (d, e, Some err) \<longrightarrow> d = 0 \<and> e = 0))"

lemma DestroySockets_requests:
  assumes "big = k_bigEndian (o_kernel E)"
  shows "tspec (DestroySocketsByDestIP E fuel destIP) (destroys big destIP)"
proof -
  let ?f = "familyOf destIP"
  have closed: "tspec (closeFD fd \<bind> (\<lambda>_. ret r)) (\<lambda>x cs. x = r \<and> cs = [Kernel (Close fd)])" for fd and r :: "'b"
    unfolding closeFD_def by (intro tspec_bind_call tspec_ret) simp
  have dump: "tspec (forEachTCPSocket E fuel fd ?f (collect destIP ?f) []) (\<lambda>r cs.
     (writes cs = [dumpRequest big ?f] \<and> (\<forall>t. r = Some (None, t) \<longrightarrow> t = targetsIn destIP (dumped big cs))) \<and> acks big cs = 0)" for fd
    by (rule tspec_weaken [OF tspec_conj [OF forEachTCPSocket_targets [OF assms] tspec_eff [OF forEachTCPSocket_acks]]])
      (auto intro: acks_none)
  have zero: "wrap64 0 = 0" by (simp add: wrap64_def)
  have destroy: "tspec (destroyAll E fd ?f ts (0, 0) \<bind> (\<lambda>(d, e). closeFD fd \<bind> (\<lambda>_. ret (Some (d, e, None)))))
     (\<lambda>r cs. writes cs = map (destroyRequest big ?f) ts \<and> dumped big cs = [] \<and> acks big cs \<le> length ts \<and>
       r = Some (wrap64 (int (acks big cs)), wrap64 (int (length ts) - int (acks big cs)), None))" for fd ts
  proof (rule tspec_bind [OF destroyAll_requests [OF assms, where d = 0 and e = 0, simplified zero add_0]], goal_cases)
    case (1 a cs)
    then show ?case
      by (cases a) (auto intro!: tspec_weaken [OF closed] simp: zero)
  qed
  show ?thesis
    unfolding DestroySocketsByDestIP_def socket_def bindSock_def Let_def
  proof (intro tspec_bind_call tspec_case_sum tspec_case_option tspec_ret tspec_weaken [OF closed]
      tspec_bind [OF dump], goal_cases)
    case (3 h fd h' d cs)
    then show ?case
      by (cases d)  (auto intro!: tspec_ret tspec_weaken [OF closed] tspec_weaken [OF destroy] split: option.split
        simp: destroys_def)
  qed (auto simp: destroys_def)
qed

section \<open>The dump ends\<close>

text \<open>A response that ends the dump: an error, bytes that do not parse, the end marker or an error number.\<close>

definition endsDump :: "bool \<Rightarrow> go_error + byte list \<Rightarrow> bool" where
  "endsDump big r = (case r of Inl e \<Rightarrow> True | Inr b \<Rightarrow>
     (case ParseNetlinkMessage big b of Inl e \<Rightarrow> True
      | Inr msgs \<Rightarrow> \<exists>m \<in> set msgs. nl_Type m = NLMSG_DONE \<or> nlErrno big m \<noteq> None))"

text \<open>No dump has more than \<open>limit\<close> datagrams: \<open>left h\<close> bounds how many are still to come after the history \<open>h\<close>.\<close>

definition dumps_end :: "env \<Rightarrow> (hist \<Rightarrow> nat) \<Rightarrow> nat \<Rightarrow> bool" where
  "dumps_end E left limit \<longleftrightarrow> (\<forall>h fd. left h \<le> limit \<and>
     (let r = k_recvfrom (o_kernel E) h fd 65536 in
      endsDump (k_bigEndian (o_kernel E)) r \<or> left (Kernel (Recvfrom fd 65536 r) # h) < left h))"

lemma nlErrno_other: "nl_Type m \<noteq> NLMSG_ERROR \<Longrightarrow> nlErrno big m = None"
  by (simp add: nlErrno_def)

lemma dumpMessages_more:
  "dumpMessages big fn msgs s = (DumpMore, s') \<Longrightarrow> m \<in> set msgs \<Longrightarrow> nl_Type m \<noteq> NLMSG_DONE \<and> nlErrno big m = None"
  by (induction msgs arbitrary: s) (auto simp: nlErrno_other split: if_splits option.splits prod.splits)

lemma dumpLoop_returns:
  assumes "dumps_end E left limit" "left (w_hist w) < fuel"
  shows "wp (dumpLoop fuel E fd fn s) (\<lambda>r _. r \<noteq> None) w"
  using assms(2)
proof (induction fuel arbitrary: s w)
  case (Suc fuel)
  let ?r = "k_recvfrom (o_kernel E) (w_hist w) fd 65536"
  have next_left: "endsDump (k_bigEndian (o_kernel E)) ?r \<or> left (Kernel (Recvfrom fd 65536 ?r) # w_hist w) < left (w_hist w)"
    using assms(1) unfolding dumps_end_def Let_def by blast
  show ?case
  proof (cases ?r)
    case (Inl e)
    then show ?thesis by (simp add: recvfrom_def wp_rules Let_def)
  next
    case (Inr b)
    show ?thesis
    proof (cases "ParseNetlinkMessage (k_bigEndian (o_kernel E)) b")
      case (Inl e)
      with \<open>?r = Inr b\<close> show ?thesis by (simp add: recvfrom_def wp_rules Let_def)
    next
      case (Inr msgs)
      obtain st s1 where st: "dumpMessages (k_bigEndian (o_kernel E)) fn msgs s = (st, s1)" by fastforce
      have more: "st = DumpMore \<Longrightarrow> \<not> endsDump (k_bigEndian (o_kernel E)) ?r"
        using st Inr \<open>?r = Inr b\<close> dumpMessages_more by (fastforce simp: endsDump_def)
      have IH: "left (w_hist v) < fuel \<Longrightarrow> wp (dumpLoop fuel E fd fn s1) (\<lambda>r _. r \<noteq> None) v" for v by (rule Suc.IH)
      show ?thesis
        using st Inr \<open>?r = Inr b\<close> more next_left Suc.prems
        by (cases st) (auto simp: recvfrom_def wp_rules Let_def simp del: not_None_eq intro!: IH)
    qed
  qed
qed simp

lemma forEach_returns:
  assumes "dumps_end E left limit"
  shows "eff (\<lambda>_. True) (forEachTCPSocket E (Suc limit) fd family fn s) (\<lambda>r. r \<noteq> None)"
proof -
  have "left h < Suc limit" for h using assms unfolding dumps_end_def by (auto simp: less_Suc_eq_le)
  then have loop: "eff (\<lambda>_. True) (dumpLoop (Suc limit) E fd fn s) (\<lambda>r. r \<noteq> None)"
    by (rule eff_returns [OF emits_weaken [OF dumpLoop_emits TrueI] dumpLoop_returns [OF assms]])
  show ?thesis
    unfolding forEachTCPSocket_def sockWrite_def setRcvTimeout_def
    by (intro eff_bind [OF any_call] eff_case_option eff_ret loop) simp_all
qed

lemma Destroy_returns:
  assumes "dumps_end E left limit"
  shows "eff (\<lambda>_. True) (DestroySocketsByDestIP E (Suc limit) destIP) (\<lambda>r. r \<noteq> None)"
  unfolding DestroySocketsByDestIP_def socket_def bindSock_def closeFD_def Let_def
  by (intro eff_bind [OF any_call] eff_case_option eff_case_sum eff_case_prod eff_ret eff_bind [OF forEach_returns [OF assms]]
      eff_bind [OF emits_weaken [OF destroyAll_emits TrueI]]) auto

lemma dumped_dst: "m \<in> set (dumped big cs) \<Longrightarrow> length (id_Dst (dm_ID m)) = 16"
  by (auto simp: dumped_def reported_def sizeofDiagMsg_def diagMsgOf_def sockIDOf_def split: sum.splits dest!: set_takeWhileD)

lemma matchesDest_bytes:
  assumes "length destIP = 16" "address = (case To4 destIP of Some ip4 \<Rightarrow> ip4 | None \<Rightarrow> destIP)"
    and "matchesDest m destIP (familyOf destIP)" "length (id_Dst (dm_ID m)) = 16"
  shows "take (length address) (id_Dst (dm_ID m)) = address"
proof (cases "To4 destIP")
  case None
  with assms have "\<forall>i < 16. id_Dst (dm_ID m) ! i = destIP ! i"
    by (auto simp: matchesDest_def familyOf_def To16_def AF_INET_def AF_INET6_def)
  with None assms show ?thesis by (auto intro: nth_equalityI)
next
  case (Some ip4)
  with assms(1) have "length ip4 = 4" by (auto simp: To4_def split: if_splits)
  moreover have "\<forall>i < 4. id_Dst (dm_ID m) ! i = ip4 ! i"
    using Some assms(3) by (auto simp: matchesDest_def familyOf_def)
  ultimately show ?thesis using Some assms(2,4) by (auto intro: nth_equalityI)
qed

section \<open>A node with one connection\<close>

definition doneBytes :: "byte list" where
  "doneBytes = [16, 0, 0, 0, 3, 0, 2, 0, 1, 0, 0, 0, 0, 0, 0, 0]"

definition ackBytes :: "byte list" where
  "ackBytes = [36, 0, 0, 0, 2, 0, 0, 0, 2, 0, 0, 0, 0, 0, 0, 0] @ replicate 20 0"

text \<open>A connection from 10.0.0.9 to port 5432 of 10.0.0.1.\<close>

definition connBytes :: "byte list" where
  "connBytes = [88, 0, 0, 0, 20, 0, 2, 0, 1, 0, 0, 0, 0, 0, 0, 0] @ [2, 1, 0, 0] @ [200, 1, 21, 56] @
     [10, 0, 0, 9] @ replicate 12 0 @ [10, 0, 0, 1] @ replicate 12 0 @ replicate 32 0"

definition oneProcess :: env where
  "oneProcess = quietEnv\<lparr>o_getConfigMap := \<lambda>_ _. Inr \<lparr>cm_Meta = emptyMeta, cm_Data = None\<rparr>, o_kernel := quietKernel\<lparr>k_readDir := \<lambda>_ _. Inr [(''1'', True), (''self'', True)], k_stat := \<lambda>_ _. Inr 5,
     k_recvfrom := \<lambda>_ _ n. Inr (if n = 65536 then connBytes @ doneBytes else ackBytes)\<rparr>\<rparr>"

definition destIP1 :: ip where "destIP1 = the (ParseIP ''10.0.0.1'')"


definition connMsg :: NetlinkMessage where
  "connMsg = \<lparr>nl_Type = 20, nl_Flags = 2, nl_Seq = 1, nl_Pid = 0, nl_Data = drop 16 connBytes\<rparr>"

definition connID :: inetDiagSockID where
  "connID = \<lparr>id_SPort = [200, 1], id_DPort = [21, 56], id_Src = [10, 0, 0, 9] @ replicate 12 0,
     id_Dst = [10, 0, 0, 1] @ replicate 12 0, id_If = 0, id_Cookie = (0, 0)\<rparr>"

lemma parse_conn: "ParseNetlinkMessage False (connBytes @ doneBytes) =
    Inr [connMsg, \<lparr>nl_Type = NLMSG_DONE, nl_Flags = 2, nl_Seq = 1, nl_Pid = 0, nl_Data = []\<rparr>]"
  by code_simp

definition ackMsg :: NetlinkMessage where
  "ackMsg = \<lparr>nl_Type = NLMSG_ERROR, nl_Flags = 0, nl_Seq = 2, nl_Pid = 0, nl_Data = replicate 20 0\<rparr>"

lemma parse_ack: "ParseNetlinkMessage False ackBytes = Inr [ackMsg]" "nlErrno False ackMsg = None"
  by code_simp+

lemma conn_done: "dumpMessages False (collect destIP1 AF_INET) [connMsg, \<lparr>nl_Type = NLMSG_DONE, nl_Flags = 2, nl_Seq = 1, nl_Pid = 0,
    nl_Data = []\<rparr>] [] = (DumpDone, [connID])"
  by code_simp

lemma oneProcess_simps [simp]:
  "k_bigEndian (o_kernel oneProcess) = False" "k_readDir (o_kernel oneProcess) h p = Inr [(''1'', True), (''self'', True)]"
  "k_stat (o_kernel oneProcess) h p = Inr 5" "k_open (o_kernel oneProcess) h p = Inr 3" "k_setns (o_kernel oneProcess) h fd = None"
  "k_socket (o_kernel oneProcess) h = Inr 4" "k_bind (o_kernel oneProcess) h fd = None"
  "k_write (o_kernel oneProcess) h fd b = None" "k_setRcvTimeout (o_kernel oneProcess) h fd s = None"
  "k_recvfrom (o_kernel oneProcess) h fd n = Inr (if n = 65536 then connBytes @ doneBytes else ackBytes)"
  "o_getConfigMap oneProcess h k = Inr \<lparr>cm_Meta = emptyMeta, cm_Data = None\<rparr>" "o_write oneProcess h c = None"
  "x_retries oneProcess = 4"
  by (simp_all add: oneProcess_def quietKernel_def)

lemma family1: "familyOf destIP1 = AF_INET" by code_simp

lemmas socket_run_defs = syscall_defs call_def Let_def family1 DestroySocketsByDestIP_def forEachTCPSocket_def
  parse_conn conn_done destroySocket_def parse_ack map_filter_simps wrap64_def

section \<open>Properties\<close>

text \<open>A destroy request is one well-formed netlink message, whatever the byte order of the platform: it is
  72 bytes long, parsing it gives one message of type \<^verbatim>\<open>SOCK_DESTROY\<close> that asks for an acknowledgement, and
  the identity of the socket is read back from it unchanged.\<close>

theorem destroy_request_roundtrip:
  assumes "sockID_ok i"
  shows "length (destroyRequest big family i) = 72 \<and>
    (\<exists>m. ParseNetlinkMessage big (destroyRequest big family i) = Inr [m] \<and> nl_Type m = SOCK_DESTROY \<and>
      nl_Flags m = NLM_F_REQUEST OR NLM_F_ACK \<and> hd (nl_Data m) = family \<and> sockIDOf big (drop 8 (nl_Data m)) = i)"
proof -
  let ?r = "\<lparr>rq_Family = family, rq_Protocol = IPPROTO_TCP, rq_Ext = 0, rq_Pad = 0, rq_States = tcpAllStates, rq_ID = i\<rparr>"
  have "hd (reqBytes big ?r) = family" "drop 8 (reqBytes big ?r) = sockIDBytes big i"
    by (simp_all add: reqBytes_def)
  moreover have "length (destroyRequest big family i) = 72"
    using assms by (simp add: destroyRequest_def requestMessage_def reqBytes_length)
  ultimately show ?thesis
    using parse_request [of ?r big] assms by (simp add: destroyRequest_def sockIDOf_bytes)
qed

text \<open>C24: Only connections to the address are destroyed: everything that is sent to the kernel is the dump
  request or a destroy request for a socket that a datagram of this dump reported, and the destination
  of that socket is, byte for byte, the address in the signal (its four bytes for IPv4, all sixteen for IPv6).\<close>

theorem only_matching_sockets_destroyed:
  assumes "ParseIP s = Some destIP" and "address = (case To4 destIP of Some ip4 \<Rightarrow> ip4 | None \<Rightarrow> destIP)"
    and "big = k_bigEndian (o_kernel E)"
    and "Kernel (SockWrite fd b r) \<in> set (calls (DestroySocketsByDestIP E fuel destIP) w)"
  shows "b = dumpRequest big (familyOf destIP) \<or>
    (\<exists>m \<in> set (dumped big (calls (DestroySocketsByDestIP E fuel destIP) w)).
       b = destroyRequest big (familyOf destIP) (dm_ID m) \<and> take (length address) (id_Dst (dm_ID m)) = address)"
proof -
  let ?cs = "calls (DestroySocketsByDestIP E fuel destIP) w"
  have "b \<in> set (writes ?cs)" using assms(4) by (force simp: writes_def)
  with tspec_calls [OF DestroySockets_requests [OF assms(3), where fuel = fuel and destIP = destIP], of w]
  consider "b = dumpRequest big (familyOf destIP)"
    | m where "m \<in> set (dumped big ?cs)" "b = destroyRequest big (familyOf destIP) (dm_ID m)" "matchesDest m destIP (familyOf destIP)"
    by (auto simp: destroys_def targetsIn_def Let_def)
  then show ?thesis
  proof cases
    case (2 m)
    from matchesDest_bytes [OF ParseIP_length [OF assms(1)] assms(2) 2(3) dumped_dst [OF 2(1)]] 2 show ?thesis by blast
  qed blast
qed

theorem only_matching_sockets_destroyed_witness:
  "destroyRequest False AF_INET connID = dumpRequest False AF_INET \<or>
   (\<exists>m :: inetDiagMsg. destroyRequest False AF_INET connID = destroyRequest False AF_INET (dm_ID m) \<and> take 4 (id_Dst (dm_ID m)) = [10, 0, 0, 1])"
proof -
  have ip: "ParseIP ''10.0.0.1'' = Some destIP1" by code_simp
  have to4: "To4 destIP1 = Some [10, 0, 0, 1]" by code_simp
  have "Kernel (SockWrite 4 (destroyRequest False AF_INET connID) None)
      \<in> set (calls (DestroySocketsByDestIP oneProcess (Suc 0) destIP1) world0)"
    by (simp add: calls_def socket_run_defs world0_def del: dumpMessages.simps)
  from only_matching_sockets_destroyed [OF ip refl refl this] show ?thesis
    by (simp add: to4 family1 numeral_eq_Suc) blast
qed

text \<open>Every connection that the dump reported is dealt with: a run that returns without an error sent one
  destroy request for each matching socket, in the order of the dump and only after it, and the two
  numbers it returns count the acknowledged requests and the others.\<close>

theorem all_matching_sockets_requested:
  assumes "result (DestroySocketsByDestIP E fuel destIP) w = Some (destroyed, errCount, None)"
    and "big = k_bigEndian (o_kernel E)" and "cs = calls (DestroySocketsByDestIP E fuel destIP) w"
  shows "writes cs = dumpRequest big (familyOf destIP) #
      map (destroyRequest big (familyOf destIP)) (targetsIn destIP (dumped big cs)) \<and>
    acks big cs \<le> length (targetsIn destIP (dumped big cs)) \<and> destroyed = wrap64 (int (acks big cs)) \<and>
    errCount = wrap64 (int (length (targetsIn destIP (dumped big cs)) - acks big cs))"
  using tspec_calls [OF DestroySockets_requests [OF assms(2), where fuel = fuel and destIP = destIP], of w] assms(1)
  by (auto simp: destroys_def Let_def assms(3) of_nat_diff)

end
