(* ===== verification/Namespaces.thy ===== *)
theory Namespaces
  imports Netlink
begin

text \<open>
  \<^verbatim>\<open>src/internal/connkill/namespace.go\<close>: destroying the connections to an address in all network
  namespaces of a node, and what an acknowledgement of the agent is worth when this is how it kills.
  Running out of fuel is the value \<open>None\<close>; \<open>kill_returns\<close> shows how much is enough.  That a goroutine is
  locked to its thread is not modelled: the program is the only one that changes the namespace of the
  thread it runs on.
\<close>

section \<open>Network namespaces\<close>

text \<open>\<^verbatim>\<open>strconv.Atoi\<close> succeeds: an optional sign and decimal digits whose value fits an \<^verbatim>\<open>int\<close>.\<close>

definition atoi_ok :: "string \<Rightarrow> bool" where
  "atoi_ok s =
     (let neg = (s \<noteq> [] \<and> hd s = CHR ''-''); ds = (if s \<noteq> [] \<and> hd s \<in> {CHR ''-'', CHR ''+''} then tl s else s) in
      ds \<noteq> [] \<and> list_all is_digit ds \<and> int (nat_of_digits ds) < (if neg then 2 ^ 63 + 1 else 2 ^ 63))"

definition nsPath :: "string \<Rightarrow> string" where
  "nsPath name = ''/proc/'' @ name @ ''/ns/net''"

fun uniqueNamespaces :: "env \<Rightarrow> 64 word list \<Rightarrow> (string \<times> bool) list \<Rightarrow> string list io" where
  "uniqueNamespaces E seen [] = ret []"
| "uniqueNamespaces E seen ((name, isDir) # entries) =
     (if \<not> isDir \<or> \<not> atoi_ok name then uniqueNamespaces E seen entries
      else do {
        r \<leftarrow> stat E (nsPath name);
        case r of
          Inl e \<Rightarrow> uniqueNamespaces E seen entries
        | Inr ino \<Rightarrow>
            if ino \<in> set seen then uniqueNamespaces E seen entries
            else do { rest \<leftarrow> uniqueNamespaces E (ino # seen) entries; ret (nsPath name # rest) } })"

definition enumerateNetworkNamespaces :: "env \<Rightarrow> (go_error + string list) io" where
  "enumerateNetworkNamespaces E =
     do { r \<leftarrow> readDir E ''/proc'';
          case r of
            Inl e \<Rightarrow> ret (Inl (Errorf_w ''reading /proc'' e))
          | Inr entries \<Rightarrow> do { l \<leftarrow> uniqueNamespaces E [] entries; ret (Inr l) } }"

definition isPermissionError :: "go_error option \<Rightarrow> bool" where
  "isPermissionError e = (case e of None \<Rightarrow> False | Some x \<Rightarrow> sublist ''permission denied'' (err_msg x))"

definition killInNamespace :: "env \<Rightarrow> nat \<Rightarrow> string \<Rightarrow> ip \<Rightarrow> (int \<times> int \<times> go_error option) option io" where
  "killInNamespace E fuel path destIP =
     do { o1 \<leftarrow> openFile E ''/proc/self/ns/net'';
          case o1 of
            Inl e \<Rightarrow> ret (Some (0, 0, Some (Errorf_w ''opening current netns'' e)))
          | Inr origNS \<Rightarrow> do {
              o2 \<leftarrow> openFile E path;
              case o2 of
                Inl e \<Rightarrow> do { closeFD origNS; ret (Some (0, 0, Some (Errorf_w (''opening target netns '' @ path) e))) }
              | Inr targetNS \<Rightarrow> do {
                  s \<leftarrow> setns E targetNS;
                  case s of
                    Some e \<Rightarrow> do {
                      closeFD targetNS; closeFD origNS;
                      ret (Some (0, 0, Some (Errorf_w ((if isPermissionError (Some e)
                        then ''permission denied entering netns '' else ''setns to '') @ path) e))) }
                  | None \<Rightarrow> do {
                      k \<leftarrow> DestroySocketsByDestIP E fuel destIP;
                      case k of
                        None \<Rightarrow> ret None
                      | Some (killed, errCount, killErr) \<Rightarrow> do {
                          b \<leftarrow> setns E origNS;
                          closeFD targetNS; closeFD origNS;
                          ret (Some (killed, errCount,
                            case b of Some e \<Rightarrow> Some (Errorf_w ''restoring original netns'' e) | None \<Rightarrow> killErr)) } } } } }"

fun killAll :: "env \<Rightarrow> nat \<Rightarrow> ip \<Rightarrow> string list \<Rightarrow> int \<times> int \<Rightarrow> (int \<times> int) option io" where
  "killAll E fuel destIP [] acc = ret (Some acc)"
| "killAll E fuel destIP (p # ps) (killed, errCount) =
     do { k \<leftarrow> killInNamespace E fuel p destIP;
          case k of
            None \<Rightarrow> ret None
          | Some (nsKilled, nsErrors, nsErr) \<Rightarrow>
              killAll E fuel destIP ps (wrap64 (killed + nsKilled),
                (let n = wrap64 (errCount + nsErrors) in if nsErr \<noteq> None then wrap64 (n + 1) else n)) }"

definition KillConnectionsAllNamespaces :: "env \<Rightarrow> nat \<Rightarrow> ip \<Rightarrow> (int \<times> int \<times> go_error option) option io" where
  "KillConnectionsAllNamespaces E fuel destIP =
     do { n \<leftarrow> enumerateNetworkNamespaces E;
          case n of
            Inl e \<Rightarrow> ret (Some (0, 0, Some (Errorf_w ''enumerating network namespaces'' e)))
          | Inr namespaces \<Rightarrow> do {
              k \<leftarrow> killAll E fuel destIP namespaces (0, 0);
              ret (map_option (\<lambda>(killed, errCount). (killed, errCount, None)) k) } }"

section \<open>Returning\<close>

lemma killIn_returns:
  assumes "dumps_end E left limit"
  shows "eff (\<lambda>_. True) (killInNamespace E (Suc limit) p destIP) (\<lambda>r. r \<noteq> None)"
  unfolding killInNamespace_def openFile_def setns_def closeFD_def
  by (intro eff_bind [OF any_call] eff_case_option eff_case_sum eff_case_prod eff_ret eff_bind [OF Destroy_returns [OF assms]]) auto

lemma killAll_returns:
  assumes "dumps_end E left limit"
  shows "eff (\<lambda>_. True) (killAll E (Suc limit) destIP ps acc) (\<lambda>r. r \<noteq> None)"
proof (induction ps arbitrary: acc)
  case (Cons p ps)
  obtain k e where "acc = (k, e)" by (cases acc)
  then show ?case
    using Cons by (auto intro!: eff_bind [OF killIn_returns [OF assms]])
qed (auto intro: eff_ret)

abbreviation kernel_call :: "entry \<Rightarrow> bool" where
  "kernel_call e \<equiv> \<exists>k. e = Kernel k"

lemma enumerate_emits: "emits kernel_call (enumerateNetworkNamespaces E)"
proof -
  have "emits kernel_call (uniqueNamespaces E seen entries)" for seen entries
    by (induction E seen entries rule: uniqueNamespaces.induct)
      (auto intro!: eff_ret eff_bind [OF emits_call] eff_fmap simp: stat_def split: sum.split)
  then show ?thesis
    unfolding enumerateNetworkNamespaces_def readDir_def
    by (intro eff_bind [OF emits_call] eff_case_sum eff_ret eff_fmap) auto
qed

lemma killAll_emits: "emits kernel_call (killAll E fuel destIP ps acc)"
proof -
  have destroy: "emits kernel_call (DestroySocketsByDestIP E fuel destIP)"
    by (rule emits_weaken [OF Destroy_emits]) (auto elim: socket_entry.elims)
  have one: "emits kernel_call (killInNamespace E fuel p destIP)" for p
    unfolding killInNamespace_def openFile_def setns_def closeFD_def
    by (intro eff_bind [OF emits_call] eff_case_option eff_case_sum eff_case_prod eff_ret eff_bind [OF destroy] TrueI) auto
  show ?thesis
    by (induction ps arbitrary: acc) (auto intro!: eff_ret eff_bind [OF one] split: option.split)
qed

lemma Kill_emits: "emits kernel_call (KillConnectionsAllNamespaces E fuel destIP)"
  unfolding KillConnectionsAllNamespaces_def
  by (intro eff_bind [OF enumerate_emits] eff_case_sum eff_ret eff_fmap killAll_emits TrueI)

section \<open>Namespaces\<close>

text \<open>The paths found, each with its inode: the inodes are distinct and none that was seen is missing.\<close>

definition unique_paths :: "64 word set \<Rightarrow> string list \<Rightarrow> entry list \<Rightarrow> bool" where
  "unique_paths seen ps cs \<longleftrightarrow> (\<exists>inos. list_all2 (\<lambda>p ino. Kernel (Stat p (Inr ino)) \<in> set cs) ps inos \<and>
     distinct inos \<and> set inos \<inter> seen = {} \<and> (\<forall>p ino. Kernel (Stat p (Inr ino)) \<in> set cs \<longrightarrow> ino \<in> seen \<union> set inos))"

lemma unique_paths_skip:
  assumes "unique_paths seen ps cs" "\<And>p ino. e = Kernel (Stat p (Inr ino)) \<Longrightarrow> ino \<in> seen"
  shows "unique_paths seen ps (e # cs)"
proof -
  from assms(1) obtain inos where "list_all2 (\<lambda>p i. Kernel (Stat p (Inr i)) \<in> set cs) ps inos" "distinct inos"
    "set inos \<inter> seen = {}" "\<forall>p i. Kernel (Stat p (Inr i)) \<in> set cs \<longrightarrow> i \<in> seen \<union> set inos"
    unfolding unique_paths_def by blast
  with assms(2) show ?thesis
    unfolding unique_paths_def by (intro exI [of _ inos]) (auto elim!: list_all2_mono)
qed

lemma unique_paths_new:
  assumes "unique_paths (insert ino seen) ps cs" "ino \<notin> seen"
  shows "unique_paths seen (p # ps) (Kernel (Stat p (Inr ino)) # cs)"
proof -
  from assms(1) obtain inos where "list_all2 (\<lambda>p i. Kernel (Stat p (Inr i)) \<in> set cs) ps inos" "distinct inos"
    "set inos \<inter> insert ino seen = {}" "\<forall>p i. Kernel (Stat p (Inr i)) \<in> set cs \<longrightarrow> i \<in> insert ino seen \<union> set inos"
    unfolding unique_paths_def by blast
  with assms(2) show ?thesis
    unfolding unique_paths_def by (intro exI [of _ "ino # inos"]) (auto elim!: list_all2_mono)
qed

lemma uniqueNamespaces_unique: "tspec (uniqueNamespaces E seen entries) (unique_paths (set seen))"
proof (induction entries arbitrary: seen)
  case Nil
  show ?case by (simp add: tspec_ret unique_paths_def)
next
  case (Cons entry entries)
  obtain name isDir where entry: "entry = (name, isDir)" by force
  have new: "tspec (uniqueNamespaces E (ino # seen) entries \<bind> (\<lambda>rest. ret (p # rest)))
      (\<lambda>ps cs. unique_paths (set seen) ps (Kernel (Stat p (Inr ino)) # cs))" if "ino \<notin> set seen" for ino p
    by (rule tspec_bind [OF Cons.IH]) (use that in \<open>auto intro!: tspec_ret unique_paths_new\<close>)
  show ?case
    unfolding entry uniqueNamespaces.simps stat_def
  proof (intro tspec_if tspec_bind_call tspec_case_sum, goal_cases)
    case (4 h ino)
    then show ?case by (auto intro: new)
  qed (auto intro: Cons.IH tspec_weaken [OF Cons.IH] unique_paths_skip)
qed

lemma enumerate_unique:
  "tspec (enumerateNetworkNamespaces E) (\<lambda>r cs. \<forall>ps. r = Inr ps \<longrightarrow> unique_paths {} ps cs)"
  unfolding enumerateNetworkNamespaces_def readDir_def
proof (intro tspec_bind_call tspec_case_sum tspec_ret, goal_cases)
  case (2 h entries)
  show ?case
    by (rule tspec_bind [OF uniqueNamespaces_unique]) (auto intro!: tspec_ret intro: unique_paths_skip)
qed simp

text \<open>The changes of namespace among the calls.\<close>

fun setnsOf :: "entry \<Rightarrow> (int \<times> go_error option) list" where
  "setnsOf (Kernel (Setns fd r)) = [(fd, r)]"
| "setnsOf _ = []"

definition setnses :: "entry list \<Rightarrow> (int \<times> go_error option) list" where
  "setnses cs = concat (map setnsOf cs)"

lemma setnses_simps [simp]:
  "setnses [] = []" "setnses (cs @ ds) = setnses cs @ setnses ds" "setnses (e # cs) = setnsOf e @ setnses cs"
  by (simp_all add: setnses_def)

lemma setnses_none: "\<forall>e \<in> set cs. setnsOf e = [] \<Longrightarrow> setnses cs = []"
  by (simp add: setnses_def)

lemma socket_stays: "socket_entry e \<Longrightarrow> setnsOf e = []"
  by (auto elim: socket_entry.elims)

text \<open>What a run in one namespace leaves: whatever happened, a thread that entered the namespace was told to
  go back, and the run reports an error if it could not.\<close>

definition leaves :: "go_error option \<Rightarrow> entry list \<Rightarrow> bool" where
  "leaves err cs \<longleftrightarrow> (err \<noteq> None \<and> (setnses cs = [] \<or> (\<exists>t e. setnses cs = [(t, Some e)]))) \<or>
     (\<exists>t home r. setnses cs = [(t, None), (home, r)] \<and> Kernel (Open ''/proc/self/ns/net'' (Inr home)) \<in> set cs \<and>
        (r \<noteq> None \<longrightarrow> err \<noteq> None))"

text \<open>A namespace in which every connection was destroyed.\<close>

definition cleaned :: "bool \<Rightarrow> ip \<Rightarrow> string \<Rightarrow> entry list \<Rightarrow> bool" where
  "cleaned big destIP p cs \<longleftrightarrow> (\<exists>t home. Kernel (Open p (Inr t)) \<in> set cs \<and> setnses cs = [(t, None), (home, None)]) \<and>
     writes cs = dumpRequest big (familyOf destIP) #
       map (destroyRequest big (familyOf destIP)) (targetsIn destIP (dumped big cs)) \<and>
     acks big cs = length (targetsIn destIP (dumped big cs))"

definition errors_counted :: "bool \<Rightarrow> ip \<Rightarrow> string \<Rightarrow> (int \<times> int \<times> go_error option) option \<Rightarrow> entry list \<Rightarrow> bool" where
  "errors_counted big destIP p r cs \<longleftrightarrow> (\<forall>k e err. r = Some (k, e, err) \<longrightarrow>
     (\<exists>n::nat. e = wrap64 (int n) \<and> n < length cs \<and> (n = 0 \<and> err = None \<longrightarrow> cleaned big destIP p cs)))"

lemma writes_length: "length (writes cs) + length (setnses cs) \<le> length cs"
proof (induction cs)
  case (Cons e cs)
  have "length (writesOf e) + length (setnsOf e) \<le> 1"
    by (cases e rule: writesOf.cases) (auto intro: setnsOf.cases)
  with Cons show ?case by simp
qed simp

lemma killInNamespace_leaves:
  "tspec (killInNamespace E fuel p destIP) (\<lambda>r cs. \<forall>k e err. r = Some (k, e, err) \<longrightarrow> leaves err cs)"
  unfolding killInNamespace_def openFile_def setns_def closeFD_def
  by (intro tspec_bind_call tspec_case_sum tspec_case_option tspec_case_prod tspec_ret tspec_bind [OF tspec_eff [OF Destroy_emits]])
    (auto simp: leaves_def setnses_none socket_stays)

lemma killInNamespace_counts:
  assumes "big = k_bigEndian (o_kernel E)"
  shows "tspec (killInNamespace E fuel p destIP) (errors_counted big destIP p)"
proof -
  let ?f = "familyOf destIP"
  have main: "errors_counted big destIP p (Some (k, e, case r of None \<Rightarrow> err | Some x \<Rightarrow> Some (Errorf_w what x)))
      (Kernel (Open q (Inr home)) # Kernel (Open p (Inr t)) # Kernel (Setns t None) # cs @
       [Kernel (Setns home r), Kernel (Close t), Kernel (Close home)])"
    if "destroys big destIP (Some (k, e, err)) cs" "setnses cs = []" for k e err r cs q home t what
  proof (cases err)
    case None
    let ?ts = "targetsIn destIP (dumped big cs)"
    have d: "writes cs = dumpRequest big ?f # map (destroyRequest big ?f) ?ts" "acks big cs \<le> length ?ts"
      "e = wrap64 (int (length ?ts - acks big cs))"
      using that(1) None by (auto simp: destroys_def Let_def of_nat_diff)
    have "length ?ts < length cs" using writes_length [of cs] d(1) by simp
    with d that(2) show ?thesis
      by (auto simp: errors_counted_def cleaned_def None split: option.split
          intro!: exI [of _ "length ?ts - acks big cs"])
  next
    case (Some x)
    with that(1) have "e = wrap64 (int 0)" by (simp add: destroys_def Let_def wrap64_def)
    then show ?thesis
      unfolding errors_counted_def by (auto simp: Some split: option.split intro!: exI [of _ 0])
  qed
  have zero: "0 = wrap64 (int 0)" by (simp add: wrap64_def)
  have failed: "cs \<noteq> [] \<Longrightarrow> errors_counted big destIP p (Some (k, 0, Some x)) cs" for k x cs
    unfolding errors_counted_def using zero by (auto intro!: exI [of _ 0])
  show ?thesis
    unfolding killInNamespace_def openFile_def setns_def closeFD_def
  proof (intro tspec_bind_call tspec_case_sum tspec_case_option tspec_case_prod tspec_ret failed
      tspec_bind [OF tspec_conj [OF DestroySockets_requests [OF assms] tspec_eff [OF Destroy_emits]]], goal_cases)
    case (4 h1 home h2 t h3 a cs)
    then have "setnses cs = []" by (auto intro!: setnses_none socket_stays)
    with 4 show ?case by (auto intro!: main)
  qed (auto simp: errors_counted_def)
qed

text \<open>The errors of a run over all namespaces.\<close>

lemma killAll_counts:
  assumes "big = k_bigEndian (o_kernel E)"
  shows "tspec (killAll E fuel destIP ps (k, wrap64 (int e))) (\<lambda>r cs. \<forall>k' e'. r = Some (k', e') \<longrightarrow>
     (in_int64 k \<longrightarrow> in_int64 k') \<and> (\<exists>n css. e' = wrap64 (int (e + n)) \<and> n \<le> length cs \<and> (n = 0 \<longrightarrow> cs = concat css \<and> list_all2 (cleaned big destIP) ps css)))"
proof (induction ps arbitrary: k e)
  case Nil
  show ?case by (auto intro!: tspec_ret exI [of _ "[]"])
next
  case (Cons p ps)
  show ?case
    unfolding killAll.simps
  proof (rule tspec_bind [OF killInNamespace_counts [OF assms]], goal_cases)
    case (1 a cs)
    show ?case
    proof (cases a)
      case None
      then show ?thesis by (simp add: tspec_ret)
    next
      case (Some x)
      obtain nk ne err where x: "x = (nk, ne, err)" by (cases x)
      from 1 obtain m where m: "ne = wrap64 (int m)" "m < length cs" "m = 0 \<and> err = None \<longrightarrow> cleaned big destIP p cs"
        unfolding errors_counted_def Some x by blast
      let ?m = "m + (if err = None then 0 else 1)"
      have e: "(let n = wrap64 (wrap64 (int e) + ne) in if err \<noteq> None then wrap64 (n + 1) else n) = wrap64 (int (e + ?m))"
        by (simp add: m(1) wrap64_add Let_def add.assoc)
      show ?thesis
        unfolding Some option.case x case_prod_conv e
      proof (rule tspec_weaken [OF Cons.IH], intro allI impI, goal_cases)
        case (1 r ds k' e')
        then obtain n css where n: "e' = wrap64 (int (e + ?m + n))" "n \<le> length ds"
          "n = 0 \<longrightarrow> ds = concat css \<and> list_all2 (cleaned big destIP) ps css" and k': "in_int64 k'"
          using wrap64_in by blast
        show ?case
          using n m k' by (intro conjI impI exI [of _ "?m + n"] exI [of _ "cs # css"]) (auto simp: add.assoc)
      qed
    qed
  qed
qed

section \<open>An acknowledgement without errors\<close>

text \<open>A run over all namespaces, seen as the enumeration and one part per namespace.\<close>

definition all_cleaned :: "bool \<Rightarrow> ip \<Rightarrow> entry list \<Rightarrow> bool" where
  "all_cleaned big destIP cs \<longleftrightarrow> (\<exists>ps es css. cs = es @ concat css \<and> unique_paths {} ps es \<and> list_all2 (cleaned big destIP) ps css)"

lemma Kill_counts:
  assumes "big = k_bigEndian (o_kernel E)"
  shows "tspec (KillConnectionsAllNamespaces E fuel destIP) (\<lambda>r cs. \<forall>k e err. r = Some (k, e, err) \<longrightarrow> in_int64 k \<and>
     (\<exists>n. e = wrap64 (int n) \<and> n \<le> length cs \<and> (n = 0 \<and> err = None \<longrightarrow> all_cleaned big destIP cs)))"
  unfolding KillConnectionsAllNamespaces_def
proof (rule tspec_bind [OF enumerate_unique], goal_cases)
  case (1 a cs)
  show ?case
  proof (cases a)
    case (Inl e)
    have "0 = wrap64 (int 0)" "in_int64 0" by (simp_all add: wrap64_def in_int64_def)
    then show ?thesis unfolding Inl by (auto intro!: tspec_ret exI [of _ 0])
  next
    case (Inr ps)
    with 1 have ps: "unique_paths {} ps cs" by blast
    have zero: "(0, 0) = (0 :: int, wrap64 (int 0))" by (simp add: wrap64_def)
    show ?thesis
      unfolding Inr sum.case zero
    proof (rule tspec_bind [OF killAll_counts [OF assms]], rule tspec_ret, intro allI impI, goal_cases)
      case (1 x ds k e err)
      then obtain n css where "e = wrap64 (int n)" "n \<le> length ds" "in_int64 k"
        "n = 0 \<longrightarrow> ds = concat css \<and> list_all2 (cleaned big destIP) ps css" by (fastforce simp: in_int64_def)
      with ps show ?case by (intro conjI exI [of _ n]) (auto simp: all_cleaned_def)
    qed
  qed
qed

text \<open>The kill program of an agent; no answer is an error.\<close>

definition agentKiller :: "env \<Rightarrow> nat \<Rightarrow> killer" where
  "agentKiller E fuel destIP =
     do { r \<leftarrow> KillConnectionsAllNamespaces E fuel destIP;
          ret (case r of Some x \<Rightarrow> x | None \<Rightarrow> (0, 0, Some (Errorf ''the dump does not end''))) }"

interpretation agent_kill: counting_killer "agentKiller E fuel" "all_cleaned (k_bigEndian (o_kernel E))" for E fuel
proof
  fix destIP
  show "tspec (agentKiller E fuel destIP) (\<lambda>(k, e, err) cs. (\<forall>c \<in> set cs. \<not> is_configmap_write c) \<and> in_int64 k \<and>
     (\<exists>n. e = wrap64 (int n) \<and> n \<le> length cs \<and> (n = 0 \<and> err = None \<longrightarrow> all_cleaned (k_bigEndian (o_kernel E)) destIP cs)))"
    unfolding agentKiller_def
  proof (rule tspec_bind [OF tspec_conj [OF Kill_counts [OF refl] tspec_eff [OF Kill_emits]]], rule tspec_ret, goal_cases)
    case (1 r cs)
    then have "\<forall>c \<in> set cs. \<not> is_configmap_write c" by (auto simp: is_configmap_write_def)
    moreover have "0 = wrap64 (int 0)" "in_int64 0" by (simp_all add: wrap64_def in_int64_def)
    ultimately show ?case using 1 by (cases r) (auto intro: exI [of _ 0])
  qed
qed

lemma names: "atoi_ok ''1''" "\<not> atoi_ok ''self''"
  by (simp_all add: atoi_ok_def Let_def is_digit_def nat_of_digits_def)

lemma oneProcess_run:
  "result (KillConnectionsAllNamespaces oneProcess (Suc 0) destIP1) w = Some (1, 0, None)"
  "length (w_hist (final (KillConnectionsAllNamespaces oneProcess (Suc 0) destIP1) w)) = length (w_hist w) + 17"
  by (simp_all add: result_def final_def KillConnectionsAllNamespaces_def enumerateNetworkNamespaces_def names killInNamespace_def
      socket_run_defs del: dumpMessages.simps)

section \<open>Properties\<close>

text \<open>C29: Killing the connections returns: if every dump of the kernel ends, within some number of datagrams,
  with its end marker or an error, then one more step of fuel than that is enough in all namespaces.\<close>

theorem kill_returns:
  assumes "dumps_end E left limit"
  shows "\<exists>killed errCount err. result (KillConnectionsAllNamespaces E (Suc limit) destIP) w = Some (killed, errCount, err)"
proof -
  have "eff (\<lambda>_. True) (KillConnectionsAllNamespaces E (Suc limit) destIP) (\<lambda>r. r \<noteq> None)"
    unfolding KillConnectionsAllNamespaces_def
    by (intro eff_bind [OF emits_weaken [OF enumerate_emits TrueI]] eff_case_sum eff_ret eff_bind [OF killAll_returns [OF assms]])
      simp_all
  from eff_result [OF this] show ?thesis by auto
qed

theorem kill_returns_witness:
  "\<exists>killed errCount err. result (KillConnectionsAllNamespaces oneProcess (Suc 0) destIP1) world0 = Some (killed, errCount, err)"
proof -
  have "dumps_end oneProcess (\<lambda>_. 0) 0"
    by (simp add: dumps_end_def endsDump_def parse_conn)
  from kill_returns [OF this] show ?thesis .
qed





end
