(* ===== verification/Watchers.thy ===== *)
theory Watchers
  imports RemoteCluster Namespaces
begin

text \<open>
  The loops that keep the components listening: \<^verbatim>\<open>Agent.Watch\<close> of \<^verbatim>\<open>src/internal/connkill/agent.go\<close> and the
  \<^verbatim>\<open>RemoteWatcher\<close> of \<^verbatim>\<open>src/internal/remotecluster/watcher.go\<close>, which enqueues a reconcile request for every
  FailoverService that changes in the other cluster.  What a \<^verbatim>\<open>select\<close> receives is the environment's
  choice.  The loops only end when the context is cancelled, so they have fuel, one unit for each turn, and
  running out of it is the value \<open>None\<close>: a run that is still going on.  The properties speak about the calls
  made so far, for any fuel.
\<close>

section \<open>Calls\<close>

definition watchConfigMap :: "env \<Rightarrow> nsname \<Rightarrow> go_error option io" where
  "watchConfigMap E k = call (\<lambda>h. s_watchConfigMap (o_watching E) h k) (\<lambda>r. Session (WatchConfigMap k r))"
definition stopWatch :: "unit io" where
  "stopWatch = call (\<lambda>_. ()) (\<lambda>_. Session StopWatch)"
definition receive :: "env \<Rightarrow> channel_case option io" where
  "receive E = call (s_receive (o_watching E)) (\<lambda>r. Session (ReceiveEvent r))"
definition wait :: "env \<Rightarrow> int \<Rightarrow> bool io" where
  "wait E d = call (\<lambda>h. s_wait (o_watching E) h d) (\<lambda>r. Session (Wait d r))"
definition select :: "env \<Rightarrow> select_case io" where
  "select E = call (s_select (o_watching E)) (\<lambda>r. Session (Select r))"
definition ctxDone :: "env \<Rightarrow> bool io" where
  "ctxDone E = call (s_ctxDone (o_watching E)) (\<lambda>r. Session (CtxDone r))"
definition newDynamic :: "env \<Rightarrow> rest_config \<Rightarrow> go_error option io" where
  "newDynamic E c = call (\<lambda>h. s_newDynamic (o_watching E) h c) (\<lambda>r. Session (NewDynamic c r))"
definition listRemote :: "env \<Rightarrow> rclient \<Rightarrow> (go_error + string \<times> nsname list) io" where
  "listRemote E c = call (\<lambda>h. s_listRemote (o_watching E) h c) (\<lambda>r. Session (ListRemote c r))"
definition retryWatch :: "env \<Rightarrow> rclient \<Rightarrow> string \<Rightarrow> go_error option io" where
  "retryWatch E c rv = call (\<lambda>h. s_retryWatch (o_watching E) h c rv) (\<lambda>r. Session (RetryWatch c rv r))"
definition enqueue :: "nsname \<Rightarrow> unit io" where
  "enqueue k = call (\<lambda>_. ()) (\<lambda>_. Session (Enqueue k))"

lemmas session_defs = watchConfigMap_def stopWatch_def receive_def wait_def select_def ctxDone_def newDynamic_def listRemote_def
  retryWatch_def enqueue_def

definition ctxErr :: go_error where
  "ctxErr = GoError OtherErr ''context canceled''"

section \<open>The agent's watch\<close>

text \<open>\<^verbatim>\<open>RunOnce\<close> with its error logged.\<close>

definition runLogged :: "env \<Rightarrow> killer \<Rightarrow> AgentConfig \<Rightarrow> seqs \<Rightarrow> seqs io" where
  "runLogged E kill a l = do { r \<leftarrow> RunOnce E kill a l; ret (fst r) }"

fun watchEvents :: "nat \<Rightarrow> env \<Rightarrow> killer \<Rightarrow> AgentConfig \<Rightarrow> seqs \<Rightarrow> (seqs \<times> go_error) option io" where
  "watchEvents 0 E kill a l = ret None"
| "watchEvents (Suc fuel) E kill a l =
     do { c \<leftarrow> receive E;
          case c of
            None \<Rightarrow> ret (Some (l, ctxErr))
          | Some ChannelClosed \<Rightarrow> ret (Some (l, Errorf ''watch channel closed''))
          | Some (Event t obj) \<Rightarrow>
              if t = ''MODIFIED'' \<or> t = ''ADDED''
              then do { l1 \<leftarrow> runLogged E kill a l; watchEvents fuel E kill a l1 }
              else watchEvents fuel E kill a l }"

definition watchOnce :: "nat \<Rightarrow> env \<Rightarrow> killer \<Rightarrow> AgentConfig \<Rightarrow> seqs \<Rightarrow> (seqs \<times> go_error) option io" where
  "watchOnce fuel E kill a l =
     do { w \<leftarrow> watchConfigMap E (ag_Namespace a, ConfigMapName);
          case w of
            Some e \<Rightarrow> ret (Some (l, Errorf_w ''starting configmap watch'' e))
          | None \<Rightarrow> do {
              l1 \<leftarrow> runLogged E kill a l;
              r \<leftarrow> watchEvents fuel E kill a l1;
              case r of
                None \<Rightarrow> ret None
              | Some x \<Rightarrow> do { stopWatch; ret (Some x) } } }"

fun pollWatch :: "nat \<Rightarrow> env \<Rightarrow> killer \<Rightarrow> AgentConfig \<Rightarrow> int \<Rightarrow> seqs \<Rightarrow> (seqs \<times> go_error) option io" where
  "pollWatch 0 E kill a interval l = ret None"
| "pollWatch (Suc fuel) E kill a interval l =
     do { t \<leftarrow> wait E interval;
          if \<not> t then ret (Some (l, ctxErr))
          else do { l1 \<leftarrow> runLogged E kill a l; pollWatch fuel E kill a interval l1 } }"

fun reconnect :: "nat \<Rightarrow> env \<Rightarrow> killer \<Rightarrow> AgentConfig \<Rightarrow> int \<Rightarrow> seqs \<Rightarrow> (seqs \<times> go_error) option io" where
  "reconnect 0 E kill a interval l = ret None"
| "reconnect (Suc fuel) E kill a interval l =
     do { r \<leftarrow> watchOnce fuel E kill a l;
          case r of
            None \<Rightarrow> ret None
          | Some (l1, e) \<Rightarrow> do {
              stop \<leftarrow> ctxDone E;
              if stop then ret (Some (l1, ctxErr))
              else do {
                t \<leftarrow> wait E interval;
                if \<not> t then ret (Some (l1, ctxErr)) else reconnect fuel E kill a interval l1 } } }"

definition Watch :: "nat \<Rightarrow> env \<Rightarrow> killer \<Rightarrow> AgentConfig \<Rightarrow> bool \<Rightarrow> int \<Rightarrow> seqs \<Rightarrow> (seqs \<times> go_error) option io" where
  "Watch fuel E kill a hasClientset interval l =
     do { l1 \<leftarrow> initFromConfigMap E a l;
          if \<not> hasClientset then pollWatch fuel E kill a interval l1 else reconnect fuel E kill a interval l1 }"

section \<open>The remote watcher\<close>

definition minHealthyDuration :: int where "minHealthyDuration = 30 * second"
definition maxBackoff :: int where "maxBackoff = 30 * second"

record RemoteWatcher =
  rw_lastConfigVer :: string
  rw_listClient :: "rclient option"
  rw_watchClient :: "rclient option"

definition GetRESTConfig :: "env \<Rightarrow> ClientProvider \<Rightarrow> (go_error + rest_config \<times> string) io" where
  "GetRESTConfig E p =
     do { c \<leftarrow> GetClient E p;
          case c of
            Inl e \<Rightarrow> ret (Inl e)
          | Inr _ \<Rightarrow> do {
              cache \<leftarrow> getCache;
              case pc_Config cache of
                None \<Rightarrow> ret (Inl nil_dereference)
              | Some cfg \<Rightarrow> ret (Inr (cfg, pc_ResourceVer cache)) } }"

text \<open>The clients are rebuilt together: the list client keeps the request timeout, the watch client has none.\<close>

definition refreshClients ::
    "env \<Rightarrow> rest_config \<Rightarrow> string \<Rightarrow> RemoteWatcher \<Rightarrow> ((go_error + rclient \<times> rclient option \<times> string) \<times> RemoteWatcher) io" where
  "refreshClients E cfg configVer w =
     do { e1 \<leftarrow> newDynamic E cfg;
          case e1 of
            Some e \<Rightarrow> ret (Inl (Errorf_w ''creating list dynamic client'' e), w)
          | None \<Rightarrow> do {
              let watchCfg = cfg\<lparr>rcfg_Timeout := 0\<rparr>;
              e2 \<leftarrow> newDynamic E watchCfg;
              case e2 of
                Some e \<Rightarrow> ret (Inl (Errorf_w ''creating watch dynamic client'' e), w)
              | None \<Rightarrow> ret (Inr (RClient cfg, Some (RClient watchCfg), configVer),
                  \<lparr>rw_lastConfigVer = configVer, rw_listClient = Some (RClient cfg), rw_watchClient = Some (RClient watchCfg)\<rparr>) } }"

definition getDynamicClients ::
    "env \<Rightarrow> ClientProvider \<Rightarrow> RemoteWatcher \<Rightarrow> ((go_error + rclient \<times> rclient option \<times> string) \<times> RemoteWatcher) io" where
  "getDynamicClients E p w =
     do { r \<leftarrow> GetRESTConfig E p;
          case r of
            Inl e \<Rightarrow> ret (Inl e, w)
          | Inr (cfg, configVer) \<Rightarrow>
              (case rw_listClient w of
                 Some lc \<Rightarrow>
                   if rw_lastConfigVer w = configVer then ret (Inr (lc, rw_watchClient w, configVer), w)
                   else refreshClients E cfg configVer w
               | None \<Rightarrow> refreshClients E cfg configVer w) }"

definition configChanged :: "env \<Rightarrow> ClientProvider \<Rightarrow> string \<Rightarrow> bool io" where
  "configChanged E p knownVer =
     do { r \<leftarrow> SecretResourceVersion E p;
          case r of
            Inl e \<Rightarrow> ret (IsNotFound e)
          | Inr currentVer \<Rightarrow> ret (currentVer \<noteq> knownVer) }"

fun enqueueList :: "nsname list \<Rightarrow> unit io" where
  "enqueueList [] = ret ()"
| "enqueueList (k # ks) = do { enqueue k; enqueueList ks }"

definition enqueueEvent :: "nsname option \<Rightarrow> unit io" where
  "enqueueEvent obj = (case obj of None \<Rightarrow> ret () | Some k \<Rightarrow> enqueue k)"

text \<open>The inner loop of \<^verbatim>\<open>watchLoop\<close>; the value \<open>Some None\<close> is its return without an error.\<close>

fun watchSession :: "nat \<Rightarrow> env \<Rightarrow> ClientProvider \<Rightarrow> string \<Rightarrow> go_error option option io" where
  "watchSession 0 E p configVer = ret None"
| "watchSession (Suc fuel) E p configVer =
     do { c \<leftarrow> select E;
          case c of
            Cancelled \<Rightarrow> ret (Some None)
          | Tick \<Rightarrow> do {
              changed \<leftarrow> configChanged E p configVer;
              if changed then ret (Some (Some (Errorf ''kubeconfig rotated''))) else watchSession fuel E p configVer }
          | Receive ChannelClosed \<Rightarrow> ret (Some (Some (Errorf ''watch channel closed'')))
          | Receive (Event t obj) \<Rightarrow>
              if t = ''ERROR'' then ret (Some (Some (Errorf ''watch error event received'')))
              else do { enqueueEvent obj; watchSession fuel E p configVer } }"

text \<open>\<^verbatim>\<open>watchLoop\<close> once it has the clients: list, enqueue everything, watch from there.\<close>

definition listAndWatch ::
    "nat \<Rightarrow> env \<Rightarrow> ClientProvider \<Rightarrow> rclient \<Rightarrow> rclient option \<Rightarrow> string \<Rightarrow> go_error option option io" where
  "listAndWatch fuel E p listDynClient watchDynClient configVer =
     do { l \<leftarrow> listRemote E listDynClient;
          case l of
            Inl e \<Rightarrow> ret (Some (Some (Errorf_w ''listing remote FailoverServices'' e)))
          | Inr (rv, items) \<Rightarrow> do {
              enqueueList items;
              case watchDynClient of
                None \<Rightarrow> ret (Some (Some nil_dereference))
              | Some wc \<Rightarrow> do {
                  e \<leftarrow> retryWatch E wc rv;
                  case e of
                    Some err \<Rightarrow> ret (Some (Some (Errorf_w ''creating retry watcher'' err)))
                  | None \<Rightarrow> do {
                      s \<leftarrow> watchSession fuel E p configVer;
                      case s of
                        None \<Rightarrow> ret None
                      | Some res \<Rightarrow> do { stopWatch; ret (Some res) } } } } }"

definition watchLoop :: "nat \<Rightarrow> env \<Rightarrow> ClientProvider \<Rightarrow> RemoteWatcher \<Rightarrow> (go_error option \<times> RemoteWatcher) option io" where
  "watchLoop fuel E p w =
     do { (r, w1) \<leftarrow> getDynamicClients E p w;
          case r of
            Inl e \<Rightarrow> ret (Some (Some (Errorf_w ''getting dynamic clients'' e), w1))
          | Inr (listDynClient, watchDynClient, configVer) \<Rightarrow> do {
              s \<leftarrow> listAndWatch fuel E p listDynClient watchDynClient configVer;
              ret (map_option (\<lambda>res. (res, w1)) s) } }"

text \<open>A session that ran long enough resets the delay.\<close>

definition backoffAfter :: "int \<Rightarrow> int \<Rightarrow> int" where
  "backoffAfter elapsed backoff = (if elapsed \<ge> minHealthyDuration then second else backoff)"

fun runWatcher :: "nat \<Rightarrow> env \<Rightarrow> ClientProvider \<Rightarrow> int \<Rightarrow> RemoteWatcher \<Rightarrow> RemoteWatcher option io" where
  "runWatcher 0 E p backoff w = ret None"
| "runWatcher (Suc fuel) E p backoff w =
     do { start \<leftarrow> now E;
          r \<leftarrow> watchLoop fuel E p w;
          case r of
            None \<Rightarrow> ret None
          | Some (err, w1) \<Rightarrow> do {
              stop \<leftarrow> ctxDone E;
              if stop then ret (Some w1)
              else do {
                t \<leftarrow> now E;
                let b = backoffAfter (t - start) backoff;
                ok \<leftarrow> wait E b;
                if \<not> ok then ret (Some w1)
                else runWatcher fuel E p (min (b * 2) maxBackoff) w1 } } }"

definition StartWatcher :: "nat \<Rightarrow> env \<Rightarrow> ClientProvider \<Rightarrow> RemoteWatcher \<Rightarrow> RemoteWatcher option io" where
  "StartWatcher fuel E p w = runWatcher fuel E p second w"

section \<open>Properties of whole runs\<close>

text \<open>A property of every call in a run, given what comes before it, that does not depend on how far back the
  history goes; and the same with what comes after it.\<close>

definition preceded :: "(entry list \<Rightarrow> entry \<Rightarrow> bool) \<Rightarrow> entry list \<Rightarrow> bool" where
  "preceded J cs \<longleftrightarrow> (\<forall>pre e post. cs = pre @ e # post \<longrightarrow> J pre e)"

definition followed :: "(entry \<Rightarrow> entry list \<Rightarrow> bool) \<Rightarrow> entry list \<Rightarrow> bool" where
  "followed J cs \<longleftrightarrow> (\<forall>pre e post. cs = pre @ e # post \<longrightarrow> J e post)"

lemma preceded_append:
  assumes "preceded J cs" "preceded J ds" and "\<And>a pre e. J pre e \<Longrightarrow> J (a @ pre) e"
  shows "preceded J (cs @ ds)"
  unfolding preceded_def
proof (intro allI impI)
  fix pre e post
  assume "cs @ ds = pre @ e # post"
  then consider us where "cs = pre @ e # us" | us where "pre = cs @ us" "ds = us @ e # post"
    by (auto simp: append_eq_append_conv2 append_eq_Cons_conv)
  then show "J pre e" using assms by cases (auto simp: preceded_def)
qed

lemma followed_append:
  assumes "followed J cs" "followed J ds" and "\<And>a post e. J e post \<Longrightarrow> J e (post @ a)"
  shows "followed J (cs @ ds)"
  unfolding followed_def
proof (intro allI impI)
  fix pre e post
  assume "cs @ ds = pre @ e # post"
  then consider us where "cs = pre @ e # us" "post = us @ ds" | us where "ds = us @ e # post"
    by (auto simp: append_eq_append_conv2 append_eq_Cons_conv)
  then show "J e post" using assms by cases (auto simp: followed_def)
qed

lemma preceded_quiet: "(\<And>e pre. e \<in> set cs \<Longrightarrow> J pre e) \<Longrightarrow> preceded J cs"
  unfolding preceded_def by auto

lemma preceded_snoc: "preceded J cs \<Longrightarrow> J cs e \<Longrightarrow> preceded J (cs @ [e])"
  unfolding preceded_def by (auto simp: append_eq_append_conv2 append_eq_Cons_conv Cons_eq_append_conv)

lemma followed_quiet: "(\<And>e post. e \<in> set cs \<Longrightarrow> J e post) \<Longrightarrow> followed J cs"
  unfolding followed_def by auto

lemma followed_Cons: "followed J (e # cs) \<longleftrightarrow> J e cs \<and> followed J cs"
  unfolding followed_def by (metis append_Cons append_Nil append_eq_Cons_conv list.inject)

text \<open>The calls to the API that a check of the kubeconfig makes.\<close>

definition secret_entry :: "entry \<Rightarrow> bool" where
  "secret_entry e \<longleftrightarrow> (\<exists>k r. e = GetSecret k r) \<or> (\<exists>c r. e = NewClient c r)"

lemma configChanged_emits: "emits secret_entry (configChanged E p v)"
  unfolding configChanged_def SecretResourceVersion_def call_defs
  by (intro eff_bind [OF eff_bind [OF emits_call]] eff_case_sum eff_ret TrueI) (simp add: secret_entry_def)

lemma GetRESTConfig_emits: "emits secret_entry (GetRESTConfig E p)"
  unfolding GetRESTConfig_def
  by (intro eff_bind [OF emits_weaken [OF GetClient_calls]] eff_case_sum eff_case_option eff_ret TrueI eff_bind [OF eff_getCache])
    (auto simp: secret_entry_def)

text \<open>The two clients of the watcher belong together.\<close>

fun watch_client_of :: "rclient \<Rightarrow> rclient" where
  "watch_client_of (RClient cfg) = RClient (cfg\<lparr>rcfg_Timeout := 0\<rparr>)"

definition clients_paired :: "RemoteWatcher \<Rightarrow> bool" where
  "clients_paired w \<longleftrightarrow> rw_watchClient w = map_option watch_client_of (rw_listClient w)"

definition dynamic_entry :: "entry \<Rightarrow> bool" where
  "dynamic_entry e \<longleftrightarrow> secret_entry e \<or> (\<exists>c r. e = Session (NewDynamic c r))"

lemma refreshClients_paired:
  assumes "clients_paired w"
  shows "eff dynamic_entry (refreshClients E cfg v w)
    (\<lambda>(r, w'). clients_paired w' \<and> (\<forall>lc wc v'. r = Inr (lc, wc, v') \<longrightarrow> wc = Some (watch_client_of lc)))"
  unfolding refreshClients_def session_defs Let_def
  by (intro eff_bind [OF emits_call] eff_case_option eff_ret) (use assms in \<open>auto simp: clients_paired_def dynamic_entry_def\<close>)

lemma getDynamicClients_paired:
  assumes "clients_paired w"
  shows "eff dynamic_entry (getDynamicClients E p w)
    (\<lambda>(r, w'). clients_paired w' \<and> (\<forall>lc wc v. r = Inr (lc, wc, v) \<longrightarrow> wc = Some (watch_client_of lc)))"
  unfolding getDynamicClients_def
  by (intro eff_bind [OF emits_weaken [OF GetRESTConfig_emits]] eff_case_sum eff_case_option eff_case_prod eff_if eff_ret
      refreshClients_paired assms) (use assms in \<open>auto simp: clients_paired_def dynamic_entry_def\<close>)

text \<open>What can be said about the calls of a session of the remote watcher, whatever the property: it holds if it
  holds of the pieces a session consists of.\<close>

definition quiet_case :: "select_case \<Rightarrow> bool" where
  "quiet_case c \<longleftrightarrow> (\<forall>t obj. c = Receive (Event t obj) \<longrightarrow> t = ''ERROR'' \<or> obj = None)"

definition quiet_entry :: "entry \<Rightarrow> bool" where
  "quiet_entry e \<longleftrightarrow> dynamic_entry e \<or> e = Session StopWatch \<or> (\<exists>b. e = Session (CtxDone b)) \<or>
     (\<exists>c. quiet_case c \<and> e = Session (Select c)) \<or> (\<exists>c err. e = Session (ListRemote c (Inl err)))"

definition listing :: "rclient \<Rightarrow> string \<Rightarrow> nsname list \<Rightarrow> go_error option \<Rightarrow> entry list" where
  "listing c rv items r = Session (ListRemote c (Inr (rv, items))) # map (\<lambda>k. Session (Enqueue k)) items @
     [Session (RetryWatch (watch_client_of c) rv r)]"

definition arrival :: "string \<Rightarrow> nsname \<Rightarrow> entry list" where
  "arrival t k = [Session (Select (Receive (Event t (Some k)))), Session (Enqueue k)]"

locale session_law =
  fixes B :: "entry list \<Rightarrow> bool"
  assumes quiet: "\<And>cs. (\<And>e. e \<in> set cs \<Longrightarrow> quiet_entry e) \<Longrightarrow> B cs"
    and append: "\<And>cs ds. B cs \<Longrightarrow> B ds \<Longrightarrow> B (cs @ ds)"
    and listing: "\<And>c rv items r. B (listing c rv items r)"
    and arrival: "\<And>t k. t \<noteq> ''ERROR'' \<Longrightarrow> B (arrival t k)"
begin

lemma quiet_Cons: "quiet_entry e \<Longrightarrow> B cs \<Longrightarrow> B (e # cs)"
  using append [of "[e]" cs] quiet [of "[e]"] by simp

lemma nil: "B []"
  by (rule quiet) simp

lemma after: "B pre \<Longrightarrow> tspec m (\<lambda>_. B) \<Longrightarrow> tspec m (\<lambda>_ cs. B (pre @ cs))"
  by (erule tspec_weaken) (rule append)

lemma bind: "tspec m (\<lambda>_. B) \<Longrightarrow> (\<And>a. tspec (k a) (\<lambda>_. B)) \<Longrightarrow> tspec (m \<bind> k) (\<lambda>_. B)"
  by (erule tspec_bind) (erule after)

lemma quietly: "emits quiet_entry m \<Longrightarrow> tspec m (\<lambda>_. B)"
  by (drule tspec_eff, erule tspec_weaken) (blast intro: quiet)

lemma ret: "tspec (ret x) (\<lambda>_. B)"
  by (rule quietly) (rule eff_ret, simp)

lemma watchSession: "tspec (watchSession fuel E p v) (\<lambda>_. B)"
proof (induction fuel)
  case (Suc fuel)
  have changed: "tspec (configChanged E p v) (\<lambda>_. B)"
    by (rule quietly, rule emits_weaken [OF configChanged_emits]) (simp add: quiet_entry_def dynamic_entry_def)
  let ?turn = "\<lambda>c. case c of
            Cancelled \<Rightarrow> ret (Some None)
          | Tick \<Rightarrow> do {
              changed \<leftarrow> configChanged E p v;
              if changed then ret (Some (Some (Errorf ''kubeconfig rotated''))) else watchSession fuel E p v }
          | Receive ChannelClosed \<Rightarrow> ret (Some (Some (Errorf ''watch channel closed'')))
          | Receive (Event t obj) \<Rightarrow>
              if t = ''ERROR'' then ret (Some (Some (Errorf ''watch error event received'')))
              else do { enqueueEvent obj; watchSession fuel E p v }"
  have turn: "tspec (?turn c) (\<lambda>_ cs. B (Session (Select c) # cs))" for c
  proof (cases "quiet_case c")
    case True
    have "tspec (?turn c) (\<lambda>_. B)"
      using True Suc changed
      by (auto simp: quiet_case_def enqueueEvent_def intro!: ret bind split: select_case.split channel_case.split)
    then show ?thesis
      by (rule tspec_weaken) (use True in \<open>auto intro!: quiet_Cons simp: quiet_entry_def\<close>)
  next
    case False
    then obtain t k where c: "c = Receive (Event t (Some k))" "t \<noteq> ''ERROR''"
      by (auto simp: quiet_case_def)
    show ?thesis
      unfolding c enqueueEvent_def enqueue_def
      by (simp add: c(2)) (rule tspec_bind_call, use after [OF arrival [OF c(2)] Suc] in \<open>simp add: arrival_def\<close>)
  qed
  show ?case
    unfolding watchSession.simps select_def by (rule tspec_bind_call) (rule turn)
qed (simp add: ret)

lemma enqueueList:
  "tspec m R \<Longrightarrow> tspec (enqueueList items \<bind> (\<lambda>_. m)) (\<lambda>x cs. \<exists>ds. cs = map (\<lambda>k. Session (Enqueue k)) items @ ds \<and> R x ds)"
  by (induction items)
    (auto simp: enqueue_def intro!: tspec_bind_call elim: tspec_weaken)

lemma listAndWatch: "tspec (listAndWatch fuel E p lc (Some (watch_client_of lc)) v) (\<lambda>_. B)"
proof -
  let ?watch = "\<lambda>e. case e of
      Some err \<Rightarrow> ret (Some (Some (Errorf_w ''creating retry watcher'' err)))
    | None \<Rightarrow> do {
        s \<leftarrow> watchSession fuel E p v;
        case s of
          None \<Rightarrow> ret None
        | Some res \<Rightarrow> do { stopWatch; ret (Some res) } }"
  have "tspec stopWatch (\<lambda>_. B)"
    by (rule quietly) (simp add: stopWatch_def emits_call quiet_entry_def)
  then have watch: "tspec (?watch e) (\<lambda>_. B)" for e
    by (auto intro!: ret bind watchSession split: option.split)
  have "tspec (retryWatch E (watch_client_of lc) rv \<bind> ?watch)
      (\<lambda>_ cs. \<exists>r ds. cs = Session (RetryWatch (watch_client_of lc) rv r) # ds \<and> B ds)" for rv
    unfolding retryWatch_def by (rule tspec_bind_call) (rule tspec_weaken [OF watch], blast)
  note listed = enqueueList [OF this]
  have "tspec (enqueueList items \<bind> (\<lambda>_. retryWatch E (watch_client_of lc) rv \<bind> ?watch))
      (\<lambda>_ cs. B (Session (ListRemote lc (Inr (rv, items))) # cs))" for rv items
    by (rule tspec_weaken [OF listed]) (use append [OF listing] in \<open>auto simp: listing_def\<close>)
  then show ?thesis
    unfolding listAndWatch_def listRemote_def
    by (intro tspec_bind_call tspec_case_sum tspec_case_prod tspec_ret) (auto intro!: quiet simp: quiet_entry_def)
qed

lemma watchLoop:
  assumes "clients_paired w"
  shows "tspec (watchLoop fuel E p w) (\<lambda>r cs. B cs \<and> (\<forall>err w'. r = Some (err, w') \<longrightarrow> clients_paired w'))"
  unfolding watchLoop_def
proof (rule tspec_bind [OF tspec_eff [OF getDynamicClients_paired [OF assms]]], goal_cases)
  case (1 a cs)
  obtain r w1 where a: "a = (r, w1)" by fastforce
  have cs: "B cs" by (rule quiet) (use 1 in \<open>simp add: quiet_entry_def\<close>)
  have w1: "clients_paired w1" using 1 by (simp add: a)
  have "tspec (listAndWatch fuel E p lc wc v \<bind> (\<lambda>s. ret (map_option (\<lambda>res. (res, w1)) s)))
      (\<lambda>r ds. B (cs @ ds) \<and> (\<forall>err w'. r = Some (err, w') \<longrightarrow> clients_paired w'))" if "r = Inr (lc, wc, v)" for lc wc v
    using 1 w1 unfolding that a
    by (auto intro!: tspec_bind [OF listAndWatch] tspec_ret append cs nil)
  then show ?case
    unfolding a by (auto intro!: tspec_ret simp: cs w1 split: sum.split)
qed

end

text \<open>A whole run also waits between its sessions.\<close>

locale watcher_law = session_law +
  assumes waiting: "\<And>d r. B [Session (Wait d r)]"
    and clock: "\<And>t. B [Now t]"
begin

lemma runWatcher:
  "clients_paired w \<Longrightarrow> tspec (runWatcher fuel E p backoff w) (\<lambda>_. B)"
proof (induction fuel arbitrary: backoff w)
  case (Suc fuel)
  have calls: "tspec (now E) (\<lambda>_. B)" "tspec (ctxDone E) (\<lambda>_. B)" "tspec (wait E d) (\<lambda>_. B)" for d
    unfolding call_defs session_defs by (rule tspec_call, auto intro!: quiet waiting clock simp: quiet_entry_def)+
  have next_turn: "tspec (case r of
            None \<Rightarrow> ret None
          | Some (err, w1) \<Rightarrow> do {
              stop \<leftarrow> ctxDone E;
              if stop then ret (Some w1)
              else do {
                t \<leftarrow> now E;
                let b = backoffAfter (t - start) backoff;
                ok \<leftarrow> wait E b;
                if \<not> ok then ret (Some w1)
                else runWatcher fuel E p (min (b * 2) maxBackoff) w1 } }) (\<lambda>_. B)"
    if "\<forall>err w'. r = Some (err, w') \<longrightarrow> clients_paired w'" for r start
    using that by (auto simp: Let_def intro!: ret bind calls Suc.IH split: option.split)
  show ?case
    unfolding runWatcher.simps
    by (rule bind [OF calls(1)], rule tspec_bind [OF watchLoop [OF Suc.prems]], rule after, simp, rule next_turn, simp)
qed (simp add: ret)

lemma StartWatcher: "clients_paired w \<Longrightarrow> tspec (StartWatcher fuel E p w) (\<lambda>_. B)"
  unfolding StartWatcher_def by (rule runWatcher)

end

text \<open>The requests the watcher adds to the queue, and those that the answers it receives call for.\<close>

definition enqueued_by :: "entry \<Rightarrow> nsname list" where
  "enqueued_by e = (case e of Session s \<Rightarrow> (case s of Enqueue k \<Rightarrow> [k] | _ \<Rightarrow> []) | _ \<Rightarrow> [])"

definition announced_by :: "entry \<Rightarrow> nsname list" where
  "announced_by e = (case e of
       Session s \<Rightarrow> (case s of
           ListRemote c r \<Rightarrow> (case r of Inl _ \<Rightarrow> [] | Inr (rv, items) \<Rightarrow> items)
         | Select (Receive (Event t (Some k))) \<Rightarrow> if t = ''ERROR'' then [] else [k]
         | _ \<Rightarrow> [])
     | _ \<Rightarrow> [])"

definition balanced :: "entry list \<Rightarrow> bool" where
  "balanced cs \<longleftrightarrow> concat (map enqueued_by cs) = concat (map announced_by cs)"

lemma quiet_balanced: "quiet_entry e \<Longrightarrow> enqueued_by e = [] \<and> announced_by e = []"
  unfolding quiet_entry_def dynamic_entry_def secret_entry_def quiet_case_def
  by (auto simp: enqueued_by_def announced_by_def split: select_case.split channel_case.split option.split)

lemma concat_singletons: "concat (map (\<lambda>k. [k]) ks) = ks"
  by (induction ks) simp_all

interpretation balance: watcher_law balanced
proof
  show "balanced cs" if "\<And>e. e \<in> set cs \<Longrightarrow> quiet_entry e" for cs
    using that by (induction cs) (simp_all add: balanced_def quiet_balanced)
  show "balanced (listing c rv items r)" for c rv items r
    by (simp add: balanced_def listing_def enqueued_by_def announced_by_def concat_singletons o_def)
  show "balanced (arrival t k)" if "t \<noteq> ''ERROR''" for t k
    using that by (simp add: balanced_def arrival_def enqueued_by_def announced_by_def)
qed (simp_all add: balanced_def enqueued_by_def announced_by_def)

text \<open>A watch starts where a listing ended, with the watch client that belongs to the list client.\<close>

definition anchored :: "entry list \<Rightarrow> entry \<Rightarrow> bool" where
  "anchored pre e \<longleftrightarrow> (\<forall>wc rv r. e = Session (RetryWatch wc rv r) \<longrightarrow>
     (\<exists>lc items before. wc = watch_client_of lc \<and>
        pre = before @ Session (ListRemote lc (Inr (rv, items))) # map (\<lambda>k. Session (Enqueue k)) items))"

lemma anchored_mono: "anchored pre e \<Longrightarrow> anchored (a @ pre) e"
  unfolding anchored_def by (metis append_assoc)

interpretation anchor: watcher_law "preceded anchored"
proof
  show "preceded anchored cs" if "\<And>e. e \<in> set cs \<Longrightarrow> quiet_entry e" for cs
    by (rule preceded_quiet, drule that)
      (auto simp: anchored_def quiet_entry_def dynamic_entry_def secret_entry_def)
  show "preceded anchored (cs @ ds)" if "preceded anchored cs" "preceded anchored ds" for cs ds
    using that by (rule preceded_append) (rule anchored_mono)
  show "preceded anchored (listing c rv items r)" for c rv items r
    unfolding listing_def append_Cons [symmetric]
  proof (rule preceded_snoc)
    show "preceded anchored (Session (ListRemote c (Inr (rv, items))) # map (\<lambda>k. Session (Enqueue k)) items)"
      by (rule preceded_quiet) (auto simp: anchored_def)
    show "anchored (Session (ListRemote c (Inr (rv, items))) # map (\<lambda>k. Session (Enqueue k)) items)
        (Session (RetryWatch (watch_client_of c) rv r))"
      unfolding anchored_def by (metis append_Nil entry.inject(22) sentry.inject(8))
  qed
  show "preceded anchored (arrival t k)" for t k
    by (rule preceded_quiet) (auto simp: anchored_def arrival_def)
  show "preceded anchored [Session (Wait d r)]" "preceded anchored [Now t]" for d r t
    by (rule preceded_quiet, simp add: anchored_def)+
qed

text \<open>The waits between the sessions.\<close>

definition timing :: "entry \<Rightarrow> bool" where
  "timing e \<longleftrightarrow> (case e of Now _ \<Rightarrow> True | Session (Wait _ _) \<Rightarrow> True | _ \<Rightarrow> False)"

inductive schedule :: "int \<Rightarrow> entry list \<Rightarrow> bool" where
  idle: "schedule b []"
| session: "schedule b [Now s]"
| cancelled: "schedule b [Now s, Now t, Session (Wait (backoffAfter (t - s) b) False)]"
| turn: "d = backoffAfter (t - s) b \<Longrightarrow> schedule (min (d * 2) maxBackoff) es \<Longrightarrow> schedule b (Now s # Now t # Session (Wait d True) # es)"

lemma schedule_bounded:
  "schedule b es \<Longrightarrow> second \<le> b \<Longrightarrow> b \<le> maxBackoff \<Longrightarrow> Session (Wait d r) \<in> set es \<Longrightarrow> second \<le> d \<and> d \<le> maxBackoff"
  by (induction rule: schedule.induct)
    (auto simp: backoffAfter_def maxBackoff_def second_def min_def split: if_splits)

interpretation untimed: session_law "\<lambda>cs. filter timing cs = []"
proof
  show "filter timing cs = []" if "\<And>e. e \<in> set cs \<Longrightarrow> quiet_entry e" for cs
    using that by (fastforce simp: filter_empty_conv timing_def quiet_entry_def dynamic_entry_def secret_entry_def)
qed (auto simp: listing_def arrival_def timing_def filter_empty_conv)

lemma runWatcher_schedule:
  "clients_paired w \<Longrightarrow> tspec (runWatcher fuel E p backoff w) (\<lambda>_ cs. schedule backoff (filter timing cs))"
proof (induction fuel arbitrary: backoff w)
  case 0
  show ?case by (simp add: tspec_ret idle)
next
  case (Suc fuel)
  have calls: "timing (Now t)" "timing (Session (Wait d r))" "\<not> timing (Session (CtxDone c))" for t d r c
    by (simp_all add: timing_def)
  show ?case
    unfolding runWatcher.simps now_def ctxDone_def wait_def Let_def
  proof (rule tspec_bind_call, rule tspec_bind [OF untimed.watchLoop [OF Suc.prems]], goal_cases)
    case (1 h r cs)
    then show ?case
      by (intro tspec_case_option tspec_case_prod tspec_bind_call tspec_if tspec_ret tspec_weaken [OF Suc.IH])
        (auto simp: calls intro!: schedule.intros)
  qed
qed


text \<open>What makes the agent look at the ConfigMap: that the watch is established, or a change it reports; without a
  clientset, the ticker.\<close>

definition wakes :: "bool \<Rightarrow> sentry \<Rightarrow> bool" where
  "wakes hasClientset e \<longleftrightarrow>
     (\<exists>k. e = WatchConfigMap k None) \<or> (\<exists>t obj. e = ReceiveEvent (Some (Event t obj)) \<and> (t = ''MODIFIED'' \<or> t = ''ADDED'')) \<or>
     (\<not> hasClientset \<and> (\<exists>d. e = Wait d True))"

definition answered :: "bool \<Rightarrow> AgentConfig \<Rightarrow> entry \<Rightarrow> entry list \<Rightarrow> bool" where
  "answered hasClientset a e post \<longleftrightarrow> (\<forall>s. e = Session s \<longrightarrow> wakes hasClientset s \<longrightarrow>
     (\<exists>r rest. post = GetConfigMap (ag_Namespace a, ConfigMapName) r # rest))"

definition local_entry :: "entry \<Rightarrow> bool" where
  "local_entry e \<longleftrightarrow> (\<forall>s. e \<noteq> Session s)"

lemma answered_append: "answered b a e post \<Longrightarrow> answered b a e (post @ rest)"
  unfolding answered_def by fastforce

lemma answered_local: "\<forall>e \<in> set cs. local_entry e \<Longrightarrow> followed (answered b a) cs"
  by (rule followed_quiet) (auto simp: local_entry_def answered_def)

lemma answered_seq: "followed (answered b a) cs \<Longrightarrow> followed (answered b a) ds \<Longrightarrow> followed (answered b a) (cs @ ds)"
  by (rule followed_append) (auto intro: answered_append)

lemma answered_bind:
  assumes "tspec m (\<lambda>_. followed (answered b a))" "\<And>x. tspec (k x) (\<lambda>_. followed (answered b a))"
  shows "tspec (m \<bind> k) (\<lambda>_. followed (answered b a))"
  using assms by (blast intro: tspec_bind tspec_weaken answered_seq)

lemma runLogged_reads:
  "tspec (runLogged E (agentKiller E n) a l)
     (\<lambda>_ cs. \<exists>r ds. cs = GetConfigMap (ag_Namespace a, ConfigMapName) r # ds \<and> (\<forall>e \<in> set ds. local_entry e))"
proof -
  have kill: "emits local_entry (agentKiller E n ip)" for ip
    unfolding agentKiller_def by (rule eff_fmap, rule emits_weaken [OF Kill_emits]) (auto simp: local_entry_def)
  have signal: "signal_entry e \<Longrightarrow> local_entry e" for e
    by (cases e) (auto simp: local_entry_def)
  have process: "tspec (processEntries E (agentKiller E n) a l es) (\<lambda>_ cs. \<forall>e \<in> set cs. local_entry e)" for es
    by (rule tspec_weaken [OF tspec_eff [OF processEntries_mono [OF kill signal]]]) simp_all
  show ?thesis
    unfolding runLogged_def RunOnce_def call_defs
    by (auto intro!: tspec_bind_call tspec_ret process split: sum.split simp: bind_assoc)
qed

lemma wake_up:
  assumes "\<And>x. tspec (k x) (\<lambda>_. followed (answered b a))"
  shows "tspec (runLogged E (agentKiller E n) a l \<bind> k) (\<lambda>_ cs. followed (answered b a) (e # cs))"
proof (rule tspec_bind [OF runLogged_reads], elim exE conjE, goal_cases)
  case (1 x cs r ds)
  have "followed (answered b a) cs"
    unfolding 1 by (rule answered_local) (use 1 in \<open>simp add: local_entry_def\<close>)
  then show ?case
    by (intro tspec_weaken [OF assms]) (use 1 in \<open>auto simp: followed_Cons answered_def
        intro: answered_seq\<close>)
qed

lemma asleep: "\<not> wakes b s \<Longrightarrow> followed (answered b a) cs \<Longrightarrow> followed (answered b a) (Session s # cs)"
  by (simp add: followed_Cons answered_def)

lemma answered_nil: "followed (answered b a) []"
  by (rule answered_local) simp

lemma watchEvents_answered: "tspec (watchEvents fuel E (agentKiller E n) a l) (\<lambda>_. followed (answered b a))"
proof (induction fuel arbitrary: l)
  case (Suc fuel)
  have "tspec (if t = ''MODIFIED'' \<or> t = ''ADDED''
      then runLogged E (agentKiller E n) a l \<bind> watchEvents fuel E (agentKiller E n) a
      else watchEvents fuel E (agentKiller E n) a l)
    (\<lambda>_ cs. followed (answered b a) (Session (ReceiveEvent (Some (Event t obj))) # cs))" for t obj
    by (rule tspec_if) (rule wake_up [OF Suc], auto intro!: tspec_weaken [OF Suc] asleep simp: wakes_def)
  then show ?case
    unfolding watchEvents.simps receive_def
    by (intro tspec_bind_call) (auto intro!: tspec_ret asleep answered_nil simp: wakes_def split: option.split channel_case.split)
qed (simp add: tspec_ret answered_nil)

lemma watchOnce_answered: "tspec (watchOnce fuel E (agentKiller E n) a l) (\<lambda>_. followed (answered b a))"
proof -
  have stop: "tspec (case r of None \<Rightarrow> ret None | Some x \<Rightarrow> do { stopWatch; ret (Some x) }) (\<lambda>_. followed (answered b a))"
    for r :: "(seqs \<times> go_error) option"
    unfolding stopWatch_def
    by (auto intro!: tspec_ret tspec_bind_call asleep answered_nil simp: wakes_def split: option.split)
  have up: "tspec (runLogged E (agentKiller E n) a l \<bind> (\<lambda>l1. watchEvents fuel E (agentKiller E n) a l1 \<bind>
      (\<lambda>r. case r of None \<Rightarrow> ret None | Some x \<Rightarrow> do { stopWatch; ret (Some x) })))
      (\<lambda>_ cs. followed (answered b a) (e # cs))" for e
    by (intro wake_up answered_bind watchEvents_answered stop)
  show ?thesis
    unfolding watchOnce_def watchConfigMap_def
    by (intro tspec_bind_call) (auto intro!: up tspec_ret asleep answered_nil simp: wakes_def split: option.split)
qed

lemma pollWatch_answered: "tspec (pollWatch fuel E (agentKiller E n) a interval l) (\<lambda>_. followed (answered b a))"
proof (induction fuel arbitrary: l)
  case (Suc fuel)
  show ?case
    unfolding pollWatch.simps wait_def
    by (intro tspec_bind_call) (auto intro!: wake_up Suc tspec_ret asleep answered_nil simp: wakes_def)
qed (simp add: tspec_ret answered_nil)

lemma reconnect_answered: "tspec (reconnect fuel E (agentKiller E n) a interval l) (\<lambda>_. followed (answered True a))"
proof (induction fuel arbitrary: l)
  case (Suc fuel)
  have calls: "tspec (ctxDone E) (\<lambda>_. followed (answered True a))" "tspec (wait E d) (\<lambda>_. followed (answered True a))" for d
    unfolding session_defs by (rule tspec_call, simp add: asleep wakes_def answered_nil)+
  show ?case
    unfolding reconnect.simps
    by (intro answered_bind watchOnce_answered tspec_case_option tspec_case_prod calls tspec_if tspec_ret answered_nil Suc)
qed (simp add: tspec_ret answered_nil)

section \<open>Theorems\<close>

definition newWatcher :: RemoteWatcher where
  "newWatcher = \<lparr>rw_lastConfigVer = '''', rw_listClient = None, rw_watchClient = None\<rparr>"

lemma newWatcher_paired: "clients_paired newWatcher"
  by (simp add: clients_paired_def newWatcher_def)

text \<open>C25: Nothing that happens in the other cluster is lost or made up: over a whole run of the remote watcher, with
  all its reconnections, the reconcile requests added to the queue are exactly the items of the listings received
  and the objects of the events received (other than error events), in that order.\<close>

theorem remote_changes_enqueued:
  "concat (map enqueued_by (calls (StartWatcher fuel E p newWatcher) w)) =
   concat (map announced_by (calls (StartWatcher fuel E p newWatcher) w))"
  using tspec_calls [OF balance.StartWatcher [OF newWatcher_paired]] by (simp add: balanced_def)

text \<open>C26: No change falls between a listing and the watch that follows it.  Every watch the remote watcher opens
  starts at the resource version of a listing it received just before, all of whose items it had enqueued, and it
  uses the configuration of the client that listed, without a request timeout.\<close>

theorem watch_resumes_after_listing:
  assumes "calls (StartWatcher fuel E p newWatcher) w = pre @ Session (RetryWatch wc rv r) # post"
  shows "\<exists>cfg items before. wc = RClient (cfg\<lparr>rcfg_Timeout := 0\<rparr>) \<and>
    pre = before @ Session (ListRemote (RClient cfg) (Inr (rv, items))) # map (\<lambda>k. Session (Enqueue k)) items"
proof -
  have "anchored pre (Session (RetryWatch wc rv r))"
    using tspec_calls [OF anchor.StartWatcher [OF newWatcher_paired], of fuel E p w] assms by (simp add: preceded_def)
  then obtain lc items before where "wc = watch_client_of lc"
    "pre = before @ Session (ListRemote lc (Inr (rv, items))) # map (\<lambda>k. Session (Enqueue k)) items"
    unfolding anchored_def by blast
  then show ?thesis by (cases lc) auto
qed


text \<open>The agent misses no signal while it is disconnected or busy: whenever its watch on the ConfigMap is
  established, and whenever that watch reports that the ConfigMap was added or modified (without a clientset: whenever
  the ticker fires), the next call it makes is the reading of the ConfigMap in which it looks for signals.\<close>

theorem agent_reads_on_every_wakeup:
  assumes "calls (Watch fuel E (agentKiller E n) a hasClientset interval l) w = pre @ Session s # post" "wakes hasClientset s"
  shows "\<exists>r rest. post = GetConfigMap (ag_Namespace a, ConfigMapName) r # rest"
proof -
  have init: "tspec (initFromConfigMap E a l) (\<lambda>_. followed (answered hasClientset a))"
    unfolding initFromConfigMap_def call_defs
    by (intro tspec_bind_call) (auto intro!: tspec_ret answered_local simp: local_entry_def split: sum.split)
  have "tspec (Watch fuel E (agentKiller E n) a hasClientset interval l) (\<lambda>_. followed (answered hasClientset a))"
    unfolding Watch_def by (intro answered_bind [OF init] tspec_if pollWatch_answered) (simp add: reconnect_answered)
  from tspec_calls [OF this, of w] assms show ?thesis by (simp add: followed_def answered_def)
qed

text \<open>Whether the answer to a reading of the kubeconfig Secret shows that the credentials are no longer those of the
  clients.\<close>

definition stale :: "string \<Rightarrow> go_error + Secret \<Rightarrow> bool" where
  "stale knownVer r = (case r of Inl e \<Rightarrow> IsNotFound e | Inr secret \<Rightarrow> sec_ResourceVersion secret \<noteq> knownVer)"

definition rotated :: "go_error option option" where
  "rotated = Some (Some (Errorf ''kubeconfig rotated''))"

definition verdict :: "string \<Rightarrow> go_error option option \<Rightarrow> go_error + Secret \<Rightarrow> entry list \<Rightarrow> bool" where
  "verdict v x r post \<longleftrightarrow> (if stale v r then post = [] \<and> x = rotated else post \<noteq> [] \<or> x = None)"

definition checked :: "string \<Rightarrow> go_error option option \<Rightarrow> entry list \<Rightarrow> bool" where
  "checked v x cs \<longleftrightarrow> (\<forall>pre k r post. cs = pre @ Session (Select Tick) # GetSecret k r # post \<longrightarrow> verdict v x r post)"

lemma checked_other: "e \<noteq> Session (Select Tick) \<Longrightarrow> checked v x cs \<Longrightarrow> checked v x (e # cs)"
  unfolding checked_def by (auto simp: Cons_eq_append_conv)

lemma checked_tick:
  "checked v x cs \<Longrightarrow> verdict v x r cs \<Longrightarrow> checked v x (Session (Select Tick) # GetSecret k r # cs)"
  unfolding checked_def by (auto simp: Cons_eq_append_conv)

lemma configChanged_stale:
  "configChanged E p v = do { r \<leftarrow> getSecret E (cp_SecretNamespace p, cp_SecretName p); ret (stale v r) }"
  unfolding configChanged_def SecretResourceVersion_def bind_assoc
  by (rule arg_cong [where f = "State_Monad.bind _"])
    (auto simp: fun_eq_iff stale_def IsNotFound_def Errorf_w_def split: sum.split)

lemma checked_nil: "checked v x []"
  by (simp add: checked_def)

lemma watchSession_checked:
  "tspec (watchSession fuel E p v) (\<lambda>x cs. checked v x cs \<and> (cs \<noteq> [] \<or> x = None))"
proof (induction fuel)
  case (Suc fuel)
  note rest = tspec_weaken [OF Suc]
  have "tspec (configChanged E p v \<bind> (\<lambda>changed. if changed then ret (Some (Some (Errorf ''kubeconfig rotated'')))
      else watchSession fuel E p v)) (\<lambda>x cs. checked v x (Session (Select Tick) # cs))"
    unfolding configChanged_stale getSecret_def bind_assoc
    by (intro tspec_bind_call) (auto intro!: tspec_ret rest checked_tick checked_nil simp: verdict_def rotated_def)
  moreover have "tspec (enqueueEvent obj \<bind> (\<lambda>_. watchSession fuel E p v))
      (\<lambda>x cs. checked v x (Session (Select (Receive c)) # cs))" for obj c
    unfolding enqueueEvent_def enqueue_def
    by (auto intro!: tspec_bind_call rest checked_other split: option.split)
  ultimately show ?case
    unfolding watchSession.simps select_def
    by (intro tspec_bind_call) (auto intro!: tspec_ret checked_other checked_nil split: select_case.split channel_case.split)
qed (simp add: tspec_ret checked_nil)

text \<open>A session of the remote watcher does not outlive its credentials, and is not cut short while they are good.
  When a periodic check finds that the kubeconfig Secret has another version or is gone, that check is the last call of
  the session, which returns with the error that makes the watcher reconnect; when the check finds the same version or
  fails for another reason, the session goes on.\<close>

theorem stale_credentials_end_session:
  assumes "calls (watchSession fuel E p v) w = pre @ Session (Select Tick) # GetSecret k r # post"
  shows "if stale v r then post = [] \<and> result (watchSession fuel E p v) w = rotated
    else post \<noteq> [] \<or> result (watchSession fuel E p v) w = None"
proof -
  have "verdict v (result (watchSession fuel E p v) w) r post"
    using tspec_calls [OF watchSession_checked, of v fuel E p w] assms unfolding checked_def by blast
  then show ?thesis by (simp add: verdict_def)
qed

definition watchedRemote :: env where
  "watchedRemote = quietEnv\<lparr>o_getSecret := \<lambda>_ _. Inr \<lparr>sec_ResourceVersion = ''7'', sec_Data = Some [(''kubeconfig'', ''c'')]\<rparr>,
     o_watching := quietWatching\<lparr>s_listRemote := \<lambda>_ _. Inr (''42'', [(''default'', ''db'')])\<rparr>\<rparr>"

definition sampleProvider :: ClientProvider where
  "sampleProvider = \<lparr>cp_SecretName = ''remote'', cp_SecretNamespace = ''sys''\<rparr>"

definition sampleRest :: rest_config where
  "sampleRest = tuneRESTConfig \<lparr>rcfg_Kubeconfig = ''c'', rcfg_Timeout = 0, rcfg_DialTimeout = 0, rcfg_DialKeepAlive = 0\<rparr>"

lemma quiet_kubeconfig:
  "x_parseKubeconfig quietEnv s = Inr \<lparr>rcfg_Kubeconfig = s, rcfg_Timeout = 0, rcfg_DialTimeout = 0, rcfg_DialKeepAlive = 0\<rparr>"
  by (simp add: quietEnv_def)

theorem watch_resumes_after_listing_witness:
  "\<exists>cfg items before. RClient (sampleRest\<lparr>rcfg_Timeout := 0\<rparr>) = RClient (cfg\<lparr>rcfg_Timeout := 0\<rparr>) \<and>
    take 7 (calls (StartWatcher 2 watchedRemote sampleProvider newWatcher) world0) =
      before @ Session (ListRemote (RClient cfg) (Inr (''42'', items))) # map (\<lambda>k. Session (Enqueue k)) items"
proof -
  let ?pre = "[Now (10 * 10 ^ 9), GetSecret (''sys'', ''remote'') (Inr \<lparr>sec_ResourceVersion = ''7'', sec_Data = Some [(''kubeconfig'', ''c'')]\<rparr>),
      NewClient sampleRest None, Session (NewDynamic sampleRest None), Session (NewDynamic (sampleRest\<lparr>rcfg_Timeout := 0\<rparr>) None),
      Session (ListRemote (RClient sampleRest) (Inr (''42'', [(''default'', ''db'')]))), Session (Enqueue (''default'', ''db''))]"
  have run: "calls (StartWatcher 2 watchedRemote sampleProvider newWatcher) world0 =
      ?pre @ Session (RetryWatch (RClient (sampleRest\<lparr>rcfg_Timeout := 0\<rparr>)) ''42'' None) #
      [Session (Select Cancelled), Session StopWatch, Session (CtxDone True)]"
    by (simp add: calls_def StartWatcher_def numeral_eq_Suc watchLoop_def getDynamicClients_def GetRESTConfig_def GetClient_def
        refreshClients_def listAndWatch_def session_defs call_defs call_def Let_def watchedRemote_def sampleProvider_def
        newWatcher_def world0_def getCache_def setCache_def quietWatching_def quiet_kubeconfig sampleRest_def)
  have "take 7 (calls (StartWatcher 2 watchedRemote sampleProvider newWatcher) world0) = ?pre"
    unfolding run by simp
  with watch_resumes_after_listing [OF run] show ?thesis by metis
qed

end
