(* ===== verification/Controller.thy ===== *)
theory Controller
  imports ServiceManager Actions ConnSignaler
begin

text \<open>
  \<^verbatim>\<open>src/internal/controller/failoverservice_controller.go\<close>: the reconciler.  One definition per method,
  in the order of the source, each with all its calls, clock readings and metrics in their order.  The
  FailoverService in memory is passed along explicitly; an update call returns the object as it is in
  memory after the response has been decoded into it, which is a response of the environment.

  Two local variables share memory with that object when the response of an \<^verbatim>\<open>Update\<close> is decoded into
  it: in \<^verbatim>\<open>completeTransition\<close>, \<^verbatim>\<open>fs.Status.LastKnownFailoverActive\<close> is the address of the local
  \<^verbatim>\<open>transitionedToFailover\<close>, and wherever the remote wins, \<^verbatim>\<open>fs.Status.RemoteState\<close> is the pointer
  \<^verbatim>\<open>syncResult.RemoteState\<close>.  Decoding JSON writes through a pointer that is not nil, so after the call the
  locals hold what the object holds (\<open>aliasedLastKnown\<close>, \<open>aliasedRemoteState\<close>); the same goes for the start
  time that \<^verbatim>\<open>beginTransition\<close> passes on after its status update (\<open>aliasedStartedAt\<close>).
\<close>

section \<open>Constants and the reconciler\<close>

definition finalizerName :: string where "finalizerName = ''k8s-failover.zyno.io/finalizer''"
definition forceAdvanceAnnotation :: string where "forceAdvanceAnnotation = ''k8s-failover.zyno.io/force-advance''"
definition antiEntropyInterval :: int where "antiEntropyInterval = 60 * second"
definition defaultBackoffMin :: int where "defaultBackoffMin = 5 * second"
definition defaultRequeueInterval :: int where "defaultRequeueInterval = 5 * second"
definition jobRequeueInterval :: int where "jobRequeueInterval = 30 * second"
definition defaultMaxRetries :: int where "defaultMaxRetries = 5"
definition connKillPollInterval :: int where "connKillPollInterval = 1 * second"
definition connKillTimeout :: int where "connKillTimeout = 60 * second"
definition directionFailover :: string where "directionFailover = ''failover''"
definition directionFailback :: string where "directionFailback = ''failback''"
definition rolePrimary :: string where "rolePrimary = ''primary''"
definition roleFailover :: string where "roleFailover = ''failover''"
definition triggerManual :: string where "triggerManual = ''manual''"
definition triggerRemoteSync :: string where "triggerRemoteSync = ''remote-sync''"

lemma direction_distinct [simp]: "directionFailover \<noteq> directionFailback" "directionFailback \<noteq> directionFailover"
  by (simp_all add: directionFailover_def directionFailback_def)

record CtrlResult =
  cr_Requeue :: bool
  cr_RequeueAfter :: int

definition noRequeue :: CtrlResult where "noRequeue = \<lparr>cr_Requeue = False, cr_RequeueAfter = 0\<rparr>"
definition requeue :: CtrlResult where "requeue = \<lparr>cr_Requeue = True, cr_RequeueAfter = 0\<rparr>"
definition requeueAfter :: "int \<Rightarrow> CtrlResult" where
  "requeueAfter d = \<lparr>cr_Requeue = False, cr_RequeueAfter = d\<rparr>"

type_synonym reply = "go_error + CtrlResult"
type_synonym RemoteSyncer = "env \<Rightarrow> FailoverService \<Rightarrow> (go_error + SyncResult) io"

record Reconciler =
  rec_ClusterRole :: string
  rec_ClusterID :: string
  rec_ServiceManager :: Manager
  rec_Syncer :: "RemoteSyncer option"
  rec_ConnSignaler :: "Signaler option"
  rec_ActionExecutor :: "MultiExecutor option"
  rec_RemoteWatcher :: "ClientProvider option" \<comment> \<open>the provider of the watcher, all that is set before it runs\<close>

section \<open>Updating the object in memory\<close>

definition setStatus :: "(FailoverServiceStatus \<Rightarrow> FailoverServiceStatus) \<Rightarrow> FailoverService \<Rightarrow> FailoverService" where
  "setStatus g fs = fs\<lparr>fs_Status := g (fs_Status fs)\<rparr>"

definition setTransition :: "TransitionStatus option \<Rightarrow> FailoverService \<Rightarrow> FailoverService" where
  "setTransition tr = setStatus (\<lambda>s. s\<lparr>st_Transition := tr\<rparr>)"

definition mkCondition :: "string \<Rightarrow> bool \<Rightarrow> FailoverService \<Rightarrow> time \<Rightarrow> string \<Rightarrow> string \<Rightarrow> Condition" where
  "mkCondition ty ok fs t reason msg =
     \<lparr>cond_Type = ty, cond_Status = (if ok then ''True'' else ''False''), cond_ObservedGeneration = fs_Generation fs,
      cond_LastTransitionTime = t, cond_Reason = reason, cond_Message = msg\<rparr>"

definition setCondition_at ::
    "env \<Rightarrow> string \<Rightarrow> bool \<Rightarrow> time \<Rightarrow> string \<Rightarrow> string \<Rightarrow> FailoverService \<Rightarrow> FailoverService" where
  "setCondition_at E ty ok t reason msg fs =
     setStatus (\<lambda>s. s\<lparr>st_Conditions := x_setStatusCondition E (st_Conditions s) (mkCondition ty ok fs t reason msg)\<rparr>) fs"

definition setConditionNow ::
    "env \<Rightarrow> string \<Rightarrow> bool \<Rightarrow> string \<Rightarrow> string \<Rightarrow> FailoverService \<Rightarrow> FailoverService io" where
  "setConditionNow E ty ok reason msg fs = do { t \<leftarrow> now E; ret (setCondition_at E ty ok t reason msg fs) }"

definition removeCond :: "env \<Rightarrow> string \<Rightarrow> FailoverService \<Rightarrow> FailoverService" where
  "removeCond E ty = setStatus (\<lambda>s. s\<lparr>st_Conditions := x_removeStatusCondition E (st_Conditions s) ty\<rparr>)"

text \<open>\<^verbatim>\<open>r.Status().Update\<close> followed by the return that most handlers end with.\<close>

definition saveStatus :: "env \<Rightarrow> FailoverService \<Rightarrow> CtrlResult \<Rightarrow> reply io" where
  "saveStatus E fs ok =
     do { u \<leftarrow> updateFSStatus E fs;
          case u of Inl e \<Rightarrow> ret (Inl e) | Inr _ \<Rightarrow> ret (Inr ok) }"

fun upsertCluster :: "ClusterStatus \<Rightarrow> ClusterStatus list \<Rightarrow> ClusterStatus list" where
  "upsertCluster c [] = [c]"
| "upsertCluster c (d # ds) = (if cs_ClusterID d = cs_ClusterID c then c # ds else d # upsertCluster c ds)"

definition updateClusterStatus ::
    "env \<Rightarrow> Reconciler \<Rightarrow> FailoverService \<Rightarrow> FailoverPhase \<Rightarrow> FailoverService io" where
  "updateClusterStatus E r fs phase =
     do { t \<leftarrow> now E;
          ret (setStatus (\<lambda>s. s\<lparr>st_Clusters := upsertCluster
            \<lparr>cs_ClusterID = rec_ClusterID r, cs_AppliedGeneration = st_ActiveGeneration s,
             cs_LastAppliedTime = Some t, cs_Phase = phase\<rparr> (st_Clusters s)\<rparr>) fs) }"

section \<open>Pure helpers\<close>

definition localTarget :: "Reconciler \<Rightarrow> FailoverService \<Rightarrow> ClusterTarget" where
  "localTarget r fs = (if rec_ClusterRole r = rolePrimary then sp_PrimaryCluster (fs_Spec fs)
     else sp_FailoverCluster (fs_Spec fs))"

definition getTransitionHooks :: "Reconciler \<Rightarrow> FailoverService \<Rightarrow> string \<Rightarrow> TransitionActions option" where
  "getTransitionHooks r fs direction =
     (if direction = directionFailover then ct_OnFailover (localTarget r fs) else ct_OnFailback (localTarget r fs))"

definition getTransitionAddresses :: "Reconciler \<Rightarrow> FailoverService \<Rightarrow> string \<Rightarrow> string \<times> string" where
  "getTransitionAddresses r fs direction =
     (let target = localTarget r fs in
      if direction = directionFailover then (ct_PrimaryModeAddress target, ct_FailoverModeAddress target)
      else (ct_FailoverModeAddress target, ct_PrimaryModeAddress target))"

definition getOldTargetAddress :: "Reconciler \<Rightarrow> FailoverService \<Rightarrow> string" where
  "getOldTargetAddress r fs =
     (let target = localTarget r fs in
      case fs_Transition fs of
        None \<Rightarrow> ct_FailoverModeAddress target
      | Some tr \<Rightarrow>
          if tr_OldAddressSnapshot tr \<noteq> '''' then tr_OldAddressSnapshot tr
          else if tr_TargetDirection tr = directionFailover then ct_PrimaryModeAddress target
          else ct_FailoverModeAddress target)"

definition actionType :: "FailoverAction \<Rightarrow> string" where
  "actionType a =
     (if fa_HTTP a \<noteq> None then ''http'' else if fa_Job a \<noteq> None then ''job''
      else if fa_Scale a \<noteq> None then ''scale'' else if fa_WaitReady a \<noteq> None then ''waitReady''
      else if fa_WaitRemote a \<noteq> None then ''waitRemote'' else ''unknown'')"

definition makeActionResults :: "FailoverAction list \<Rightarrow> ActionResult list" where
  "makeActionResults actions = map (\<lambda>a. \<lparr>ar_Name = fa_Name a, ar_Status = ActionStatusPending, ar_Message = '''',
     ar_StartedAt = None, ar_CompletedAt = None, ar_JobName = '''', ar_RetryCount = 0\<rparr>) actions"

definition actionRequeueInterval :: "FailoverAction \<Rightarrow> int" where
  "actionRequeueInterval a =
     (case fa_RetryIntervalSeconds a of
        Some s \<Rightarrow> wrap64 (s * second)
      | None \<Rightarrow> if fa_Job a \<noteq> None then jobRequeueInterval else defaultRequeueInterval)"

definition actionMaxRetries :: "FailoverAction \<Rightarrow> int" where
  "actionMaxRetries a = (case fa_MaxRetries a of Some n \<Rightarrow> n | None \<Rightarrow> defaultMaxRetries)"

definition failoverEventName :: "FailoverService \<Rightarrow> string \<Rightarrow> time \<Rightarrow> string" where
  "failoverEventName fs direction startedAt =
     truncate_hashed 63 4 (fs_Name fs @ ''-'' @ direction @ ''-'' @ show_int (wrap64 startedAt))"

section \<open>FailoverEvents\<close>

definition createFailoverEvent ::
    "env \<Rightarrow> FailoverService \<Rightarrow> string \<Rightarrow> string \<Rightarrow> time \<Rightarrow> go_error option io" where
  \<comment> \<open>errors of the calls are only logged; the result is the panic on a missing transition\<close>
  "createFailoverEvent E fs direction trigger startedAt =
     (case fs_Transition fs of
        None \<Rightarrow> ret (Some nil_dereference)
      | Some tr \<Rightarrow>
         (let event = \<lparr>fe_Meta = emptyMeta\<lparr>m_Name := tr_EventName tr, m_Namespace := fs_Namespace fs,
                m_OwnerReferences := [x_newControllerRef E (fs_Meta fs) FailoverServiceKind]\<rparr>,
              fe_Spec = \<lparr>es_FailoverServiceRef = fs_Name fs, es_Direction = direction, es_TriggeredBy = trigger\<rparr>,
              fe_Status = emptyEventStatus\<rparr> in
          do { c \<leftarrow> kwrite E (CreateEvent event);
               case c of
                 Some e \<Rightarrow> ret None
               | None \<Rightarrow> do {
                   kwrite E (UpdateEventStatus (event\<lparr>fe_Status := emptyEventStatus\<lparr>et_StartedAt := Some startedAt,
                     et_Outcome := EventOutcomeInProgress,
                     et_ActiveGenerationBefore := st_ActiveGeneration (fs_Status fs)\<rparr>\<rparr>));
                   ret None } }))"

text \<open>Which outcomes may replace a terminal one.\<close>

definition outcomeUpdateAllowed :: "string \<Rightarrow> string \<Rightarrow> bool" where
  "outcomeUpdateAllowed currentOutcome outcome \<longleftrightarrow>
     currentOutcome = '''' \<or> currentOutcome = EventOutcomeInProgress \<or>
     currentOutcome = EventOutcomeFailed \<and> outcome = EventOutcomeForceAdvanced \<or>
     currentOutcome = EventOutcomeForceAdvanced \<and> outcome = EventOutcomeFailed \<or>
     currentOutcome = EventOutcomeForceAdvanced \<and> outcome = EventOutcomeSucceeded"

definition recordedStatus :: "FailoverService \<Rightarrow> TransitionStatus \<Rightarrow> string \<Rightarrow> FailoverEventStatus \<Rightarrow> FailoverEventStatus" where
  "recordedStatus fs tr outcome st =
     (let st1 = st\<lparr>et_PreActionResults := tr_PreActionResults tr, et_PostActionResults := tr_PostActionResults tr,
          et_ConnectionKillResult := tr_ConnectionKill tr\<rparr> in
      if outcome = EventOutcomeSucceeded \<and> et_Outcome st = EventOutcomeForceAdvanced
      then st1\<lparr>et_ActiveGenerationAfter := st_ActiveGeneration (fs_Status fs)\<rparr>
      else st1\<lparr>et_Outcome := outcome, et_ActiveGenerationAfter := st_ActiveGeneration (fs_Status fs)\<rparr>)"

definition updateFailoverEvent :: "env \<Rightarrow> FailoverService \<Rightarrow> string \<Rightarrow> unit io" where
  "updateFailoverEvent E fs outcome =
     (case fs_Transition fs of
        None \<Rightarrow> ret ()
      | Some tr \<Rightarrow>
         if tr_EventName tr = '''' then ret ()
         else do {
           g \<leftarrow> getEvent E (fs_Namespace fs, tr_EventName tr);
           case g of
             Inl e \<Rightarrow> ret ()
           | Inr event \<Rightarrow>
               if \<not> outcomeUpdateAllowed (et_Outcome (fe_Status event)) outcome then ret ()
               else if outcome \<noteq> EventOutcomeForceAdvanced then do {
                 t \<leftarrow> now E;
                 kwrite E (UpdateEventStatus (event\<lparr>fe_Status :=
                   (recordedStatus fs tr outcome (fe_Status event))\<lparr>et_CompletedAt := Some t\<rparr>\<rparr>));
                 ret () }
               else do {
                 kwrite E (UpdateEventStatus (event\<lparr>fe_Status := recordedStatus fs tr outcome (fe_Status event)\<rparr>));
                 ret () } })"

section \<open>Beginning a transition\<close>

definition aliasedStartedAt :: "time \<Rightarrow> FailoverService \<Rightarrow> time" where
  "aliasedStartedAt t fs = (case Option.bind (fs_Transition fs) tr_StartedAt of None \<Rightarrow> t | Some u \<Rightarrow> u)"

definition newTransition :: "Reconciler \<Rightarrow> FailoverService \<Rightarrow> string \<Rightarrow> time \<Rightarrow> TransitionStatus" where
  "newTransition r fs direction t =
     (let (oldAddress, newAddress) = getTransitionAddresses r fs direction;
          hooks = getTransitionHooks r fs direction in
      \<lparr>tr_Phase = (case hooks of Some h \<Rightarrow> if ta_PreActions h \<noteq> [] then PhaseExecutingPreActions else PhaseUpdatingResources
         | None \<Rightarrow> PhaseUpdatingResources),
       tr_TargetDirection = direction, tr_OldAddressSnapshot = oldAddress, tr_NewAddressSnapshot = newAddress,
       tr_TransitionID = show_int (wrap64 t), tr_CurrentActionIndex = 0,
       tr_PreActionResults = (case hooks of None \<Rightarrow> [] | Some h \<Rightarrow> makeActionResults (ta_PreActions h)),
       tr_PostActionResults = (case hooks of None \<Rightarrow> [] | Some h \<Rightarrow> makeActionResults (ta_PostActions h)),
       tr_StartedAt = Some t, tr_ConnectionKill = None, tr_EventName = failoverEventName fs direction t\<rparr>)"

definition beginTransition :: "env \<Rightarrow> Reconciler \<Rightarrow> FailoverService \<Rightarrow> string \<Rightarrow> reply io" where
  "beginTransition E r fs trigger =
     (let direction = (if sp_FailoverActive (fs_Spec fs) then directionFailover else directionFailback);
          metricDirection = (if direction = directionFailback then ''to-primary'' else ''to-failover'') in
      do { emit (FailoverTransitionsTotal (fs_Name fs) (fs_Namespace fs) metricDirection);
           t \<leftarrow> now E;
           let transition = newTransition r fs direction t;
           let fs1 = setCondition_at E ConditionTransitionInProgress True t ''TransitionStarted''
             (''Transition to '' @ direction @ '' started'') (setTransition (Some transition) fs);
           fs2 \<leftarrow> updateClusterStatus E r fs1 (tr_Phase transition);
           u \<leftarrow> updateFSStatus E fs2;
           case u of
             Inl e \<Rightarrow> ret (Inl e)
           | Inr fs3 \<Rightarrow> do {
               p \<leftarrow> createFailoverEvent E fs3 direction trigger (aliasedStartedAt t fs3);
               case p of Some e \<Rightarrow> ret (Inl e) | None \<Rightarrow> ret (Inr requeue) } })"


section \<open>Completing a transition and the steady state\<close>

text \<open>What a local that shares memory with the object holds after a response was decoded.\<close>

definition aliasedLastKnown :: "bool \<Rightarrow> FailoverService \<Rightarrow> bool" where
  "aliasedLastKnown b fs = (case st_LastKnownFailoverActive (fs_Status fs) of None \<Rightarrow> b | Some c \<Rightarrow> c)"

definition aliasedRemoteState :: "RemoteState \<Rightarrow> FailoverService \<Rightarrow> RemoteState" where
  "aliasedRemoteState rs fs = (case st_RemoteState (fs_Status fs) of None \<Rightarrow> rs | Some x \<Rightarrow> x)"

definition applyRemoteWinnerState :: "FailoverService \<Rightarrow> RemoteState \<Rightarrow> bool \<Rightarrow> FailoverService" where
  "applyRemoteWinnerState fs remoteState previousFailoverActive =
     setStatus (\<lambda>s. s\<lparr>st_LastKnownFailoverActive := Some previousFailoverActive,
        st_ObservedGeneration := fs_Generation fs, st_RemoteState := Some remoteState,
        st_SpecChangeTime := rs_SpecChangeTime remoteState,
        st_ActiveGeneration := rs_ActiveGeneration remoteState,
        st_ActiveCluster := (if rs_ActiveCluster remoteState \<noteq> '''' then rs_ActiveCluster remoteState
           else st_ActiveCluster s)\<rparr>) fs"

fun cleanupJobs :: "env \<Rightarrow> MultiExecutor \<Rightarrow> string \<Rightarrow> ActionResult list \<Rightarrow> unit io" where
  "cleanupJobs E m ns [] = ret ()"
| "cleanupJobs E m ns (res # rest) =
     (if ar_JobName res \<noteq> '''' then do { MultiCleanup m E (ar_JobName res) ns; cleanupJobs E m ns rest }
      else cleanupJobs E m ns rest)"

definition cleanupTransitionJobs :: "env \<Rightarrow> Reconciler \<Rightarrow> FailoverService \<Rightarrow> TransitionStatus \<Rightarrow> unit io" where
  "cleanupTransitionJobs E r fs tr =
     (case rec_ActionExecutor r of
        None \<Rightarrow> ret ()
      | Some m \<Rightarrow> cleanupJobs E m (fs_Namespace fs) (tr_PreActionResults tr @ tr_PostActionResults tr))"

definition cleanupSignalsOf :: "env \<Rightarrow> Reconciler \<Rightarrow> FailoverService \<Rightarrow> unit io" where
  "cleanupSignalsOf E r fs =
     (case rec_ConnSignaler r of
        None \<Rightarrow> ret ()
      | Some s \<Rightarrow> do { CleanupSignals E s (fs_Namespace fs) (fs_Name fs); ret () })"

definition failoverGauge :: "FailoverService \<Rightarrow> bool \<Rightarrow> unit io" where
  "failoverGauge fs active = emit (FailoverActiveGauge (fs_Name fs) (fs_Namespace fs) (if active then 1 else 0))"

text \<open>The status of a completed transition, before it is synchronised.\<close>

definition completedStatus :: "env \<Rightarrow> Reconciler \<Rightarrow> TransitionStatus \<Rightarrow> time \<Rightarrow> FailoverService \<Rightarrow> FailoverService" where
  "completedStatus E r tr t fs =
     setStatus (\<lambda>s. s\<lparr>st_LastKnownFailoverActive := Some (tr_TargetDirection tr = directionFailover),
        st_LastTransitionTime := Some t, st_ObservedGeneration := fs_Generation fs, st_Transition := None,
        st_ActiveGeneration := wrap64 (st_ActiveGeneration s + 1), st_ActiveCluster := rec_ClusterID r\<rparr>) fs"

definition syncFailed :: "env \<Rightarrow> FailoverService \<Rightarrow> go_error \<Rightarrow> FailoverService io" where
  "syncFailed E fs e =
     do { emit (ReconcileErrorsTotal (fs_Name fs) (fs_Namespace fs) ''remote-sync'');
          setConditionNow E ConditionRemoteSynced False ''SyncFailed'' (err_msg e) fs }"

definition syncSucceeded :: "env \<Rightarrow> FailoverService \<Rightarrow> FailoverService io" where
  "syncSucceeded E fs =
     setConditionNow E ConditionRemoteSynced True ''Synced'' ''Remote cluster state is in sync'' fs"

text \<open>The end of \<^verbatim>\<open>completeTransition\<close>: persist the status, then record the outcome in the event.\<close>

definition finishTransition :: "env \<Rightarrow> FailoverService \<Rightarrow> TransitionStatus \<Rightarrow> reply io" where
  "finishTransition E fs savedTransition =
     do { u \<leftarrow> updateFSStatus E fs;
          case u of
            Inl e \<Rightarrow> ret (Inl e)
          | Inr fs1 \<Rightarrow> do {
              updateFailoverEvent E (setTransition (Some savedTransition) fs1) EventOutcomeSucceeded;
              ret (Inr (requeueAfter antiEntropyInterval)) } }"

definition remoteWonAfterTransition ::
    "env \<Rightarrow> Reconciler \<Rightarrow> FailoverService \<Rightarrow> TransitionStatus \<Rightarrow> bool \<Rightarrow> RemoteState \<Rightarrow> reply io" where
  "remoteWonAfterTransition E r fs savedTransition transitionedToFailover remoteState =
     do { u \<leftarrow> updateFS E (fs\<lparr>fs_Spec := (fs_Spec fs)\<lparr>sp_FailoverActive := rs_FailoverActive remoteState\<rparr>\<rparr>);
          case u of
            Inl e \<Rightarrow> ret (Inl e)
          | Inr fs1 \<Rightarrow> do {
              let transitioned = aliasedLastKnown transitionedToFailover fs1;
              let fs2 = removeCond E ConditionActionFailed (removeCond E ConditionTransitionInProgress
                (setTransition None (applyRemoteWinnerState fs1 (aliasedRemoteState remoteState fs1) transitioned)));
              fs3 \<leftarrow> updateClusterStatus E r fs2 PhaseIdle;
              v \<leftarrow> updateFSStatus E fs3;
              case v of
                Inl e \<Rightarrow> ret (Inl e)
              | Inr fs4 \<Rightarrow> do {
                  updateFailoverEvent E (setTransition (Some savedTransition) fs4) EventOutcomeSucceeded;
                  if transitioned \<noteq> sp_FailoverActive (fs_Spec fs4)
                  then beginTransition E r (setTransition None fs4) triggerRemoteSync
                  else ret (Inr requeue) } } }"

definition completeTransition :: "env \<Rightarrow> Reconciler \<Rightarrow> FailoverService \<Rightarrow> reply io" where
  "completeTransition E r fs =
     (case fs_Transition fs of
        None \<Rightarrow> ret (Inl nil_dereference)
      | Some tr \<Rightarrow> do {
          (case tr_StartedAt tr of
             None \<Rightarrow> ret ()
           | Some s \<Rightarrow> do {
               t \<leftarrow> now E;
               emit (TransitionDuration (fs_Name fs) (fs_Namespace fs) (tr_TargetDirection tr) (t - s)) });
          cleanupTransitionJobs E r fs tr;
          cleanupSignalsOf E r fs;
          let transitionedToFailover = (tr_TargetDirection tr = directionFailover);
          failoverGauge fs transitionedToFailover;
          t \<leftarrow> now E;
          fs1 \<leftarrow> updateClusterStatus E r (completedStatus E r tr t fs) PhaseIdle;
          let fs2 = removeCond E ConditionActionFailed (removeCond E ConditionTransitionInProgress fs1);
          case rec_Syncer r of
            None \<Rightarrow> finishTransition E fs2 tr
          | Some sync \<Rightarrow> do {
              s \<leftarrow> sync E fs2;
              case s of
                Inl e \<Rightarrow> do { fs3 \<leftarrow> syncFailed E fs2 e; finishTransition E fs3 tr }
              | Inr res \<Rightarrow> do {
                  let fs3 = setStatus (\<lambda>x. x\<lparr>st_RemoteState := Some (sr_RemoteState res)\<rparr>) fs2;
                  if sr_RemoteWins res
                  then remoteWonAfterTransition E r fs3 tr transitionedToFailover (sr_RemoteState res)
                  else do { fs4 \<leftarrow> syncSucceeded E fs3; finishTransition E fs4 tr } } } })"

definition recordSteadyState :: "env \<Rightarrow> Reconciler \<Rightarrow> FailoverService \<Rightarrow> reply io" where
  "recordSteadyState E r fs =
     do { fs1 \<leftarrow> updateClusterStatus E r (setStatus (\<lambda>s. s\<lparr>st_ObservedGeneration := fs_Generation fs,
            st_LastKnownFailoverActive := Some (sp_FailoverActive (fs_Spec fs))\<rparr>) fs) PhaseIdle;
          failoverGauge fs1 (sp_FailoverActive (fs_Spec fs1));
          saveStatus E fs1 (requeueAfter antiEntropyInterval) }"

definition remoteWonSteady :: "env \<Rightarrow> Reconciler \<Rightarrow> FailoverService \<Rightarrow> bool \<Rightarrow> RemoteState \<Rightarrow> reply io" where
  "remoteWonSteady E r fs currentFailoverActive remoteState =
     do { u \<leftarrow> updateFS E (fs\<lparr>fs_Spec := (fs_Spec fs)\<lparr>sp_FailoverActive := rs_FailoverActive remoteState\<rparr>\<rparr>);
          case u of
            Inl e \<Rightarrow> ret (Inl e)
          | Inr fs1 \<Rightarrow> do {
              fs2 \<leftarrow> updateClusterStatus E r
                (applyRemoteWinnerState fs1 (aliasedRemoteState remoteState fs1) currentFailoverActive) PhaseIdle;
              v \<leftarrow> updateFSStatus E fs2;
              case v of
                Inl e \<Rightarrow> ret (Inl e)
              | Inr fs3 \<Rightarrow>
                  if currentFailoverActive \<noteq> sp_FailoverActive (fs_Spec fs3)
                  then beginTransition E r fs3 triggerRemoteSync
                  else ret (Inr requeue) } }"

definition reconcileSteadyState :: "env \<Rightarrow> Reconciler \<Rightarrow> FailoverService \<Rightarrow> reply io" where
  "reconcileSteadyState E r fs =
     (case rec_Syncer r of
        None \<Rightarrow> recordSteadyState E r fs
      | Some sync \<Rightarrow> do {
          s \<leftarrow> sync E fs;
          case s of
            Inl e \<Rightarrow> do { fs1 \<leftarrow> syncFailed E fs e; recordSteadyState E r fs1 }
          | Inr res \<Rightarrow> do {
              let fs1 = setStatus (\<lambda>x. x\<lparr>st_RemoteState := Some (sr_RemoteState res)\<rparr>) fs;
              if sr_RemoteWins res
              then remoteWonSteady E r fs1 (sp_FailoverActive (fs_Spec fs)) (sr_RemoteState res)
              else do { fs2 \<leftarrow> syncSucceeded E fs1; recordSteadyState E r fs2 } } })"

section \<open>Action phases\<close>

definition phaseActions :: "Reconciler \<Rightarrow> FailoverService \<Rightarrow> TransitionStatus \<Rightarrow> bool \<Rightarrow> FailoverAction list" where
  "phaseActions r fs tr isPrePhase =
     (case getTransitionHooks r fs (tr_TargetDirection tr) of
        None \<Rightarrow> []
      | Some h \<Rightarrow> if isPrePhase then ta_PreActions h else ta_PostActions h)"

definition phaseResults :: "bool \<Rightarrow> TransitionStatus \<Rightarrow> ActionResult list" where
  "phaseResults isPrePhase tr = (if isPrePhase then tr_PreActionResults tr else tr_PostActionResults tr)"

text \<open>Writing through the pointer \<^verbatim>\<open>result\<close> into the results of the transition.\<close>

definition storeResult :: "bool \<Rightarrow> nat \<Rightarrow> ActionResult \<Rightarrow> TransitionStatus \<Rightarrow> TransitionStatus" where
  "storeResult isPrePhase i res tr =
     (if isPrePhase then tr\<lparr>tr_PreActionResults := (tr_PreActionResults tr)[i := res]\<rparr>
      else tr\<lparr>tr_PostActionResults := (tr_PostActionResults tr)[i := res]\<rparr>)"

definition incrIndex :: "TransitionStatus \<Rightarrow> TransitionStatus" where
  "incrIndex tr = tr\<lparr>tr_CurrentActionIndex := wrap64 (tr_CurrentActionIndex tr + 1)\<rparr>"

definition saveTransition :: "env \<Rightarrow> FailoverService \<Rightarrow> TransitionStatus \<Rightarrow> CtrlResult \<Rightarrow> reply io" where
  "saveTransition E fs tr ok = saveStatus E (setTransition (Some tr) fs) ok"

definition countAction :: "FailoverService \<Rightarrow> FailoverAction \<Rightarrow> string \<Rightarrow> unit io" where
  "countAction fs a outcome =
     emit (ActionExecutionsTotal (fs_Name fs) (fs_Namespace fs) (fa_Name a) (actionType a) outcome)"

text \<open>One of the three timeout checks: \<open>limit\<close> is the timeout in seconds when the check applies.\<close>

definition checkActionTimeout ::
    "env \<Rightarrow> FailoverService \<Rightarrow> bool \<Rightarrow> FailoverAction \<Rightarrow> ActionResult \<Rightarrow> TransitionStatus \<Rightarrow> int option \<Rightarrow> string \<Rightarrow>
     reply option io" where
  "checkActionTimeout E fs isPrePhase a res tr limit what =
     (case (limit, ar_StartedAt res) of
        (Some timeout, Some started) \<Rightarrow> do {
          late \<leftarrow> CheckTimeout E (Some started) timeout;
          if late then do {
            t \<leftarrow> now E;
            countAction fs a ''failure'';
            reply \<leftarrow> saveTransition E fs (storeResult isPrePhase (nat (tr_CurrentActionIndex tr))
              (res\<lparr>ar_Status := ActionStatusFailed, ar_CompletedAt := Some t,
                ar_Message := what @ show_int timeout @ ''s''\<rparr>) tr) requeue;
            ret (Some reply) }
          else ret None }
      | _ \<Rightarrow> ret None)"

definition timeoutOr300 :: "int option \<Rightarrow> int" where
  "timeoutOr300 t = (case t of None \<Rightarrow> 300 | Some s \<Rightarrow> s)"

definition handleActionState ::
    "env \<Rightarrow> FailoverService \<Rightarrow> bool \<Rightarrow> FailoverAction \<Rightarrow> ActionResult \<Rightarrow> TransitionStatus \<Rightarrow> reply option io" where
  "handleActionState E fs isPrePhase a res tr =
     (let i = nat (tr_CurrentActionIndex tr) in
      if ar_Status res = ActionStatusSucceeded \<or> ar_Status res = ActionStatusSkipped then do {
        reply \<leftarrow> saveTransition E fs (incrIndex tr) requeue;
        ret (Some reply) }
      else if ar_Status res = ActionStatusFailed then
        (if fa_IgnoreFailure a then do {
           t \<leftarrow> now E;
           reply \<leftarrow> saveTransition E fs (incrIndex (storeResult isPrePhase i
             (res\<lparr>ar_Status := ActionStatusSkipped, ar_CompletedAt := Some t\<rparr>) tr)) requeue;
           ret (Some reply) }
         else do {
           updateFailoverEvent E fs EventOutcomeFailed;
           fs1 \<leftarrow> setConditionNow E ConditionActionFailed True ''ActionFailed''
             (''Action '' @ quote (fa_Name a) @ '' failed: '' @ ar_Message res) fs;
           reply \<leftarrow> saveStatus E fs1 noRequeue;
           ret (Some reply) })
      else if ar_Status res = ActionStatusPending then do {
        t \<leftarrow> now E;
        reply \<leftarrow> saveTransition E fs (storeResult isPrePhase i
          (res\<lparr>ar_Status := ActionStatusRunning, ar_StartedAt := Some t\<rparr>) tr) requeue;
        ret (Some reply) }
      else do {
        w \<leftarrow> checkActionTimeout E fs isPrePhase a res tr
          (map_option (\<lambda>x. timeoutOr300 (wra_TimeoutSeconds x)) (fa_WaitReady a)) ''Timed out after '';
        case w of Some reply \<Rightarrow> ret (Some reply)
        | None \<Rightarrow> do {
            s \<leftarrow> checkActionTimeout E fs isPrePhase a res tr
              (case fa_Scale a of None \<Rightarrow> None
               | Some x \<Rightarrow> if sa_WaitReady x then Some (timeoutOr300 (sa_TimeoutSeconds x)) else None)
              ''Timed out waiting for readiness after '';
            case s of Some reply \<Rightarrow> ret (Some reply)
            | None \<Rightarrow> checkActionTimeout E fs isPrePhase a res tr
                (map_option (\<lambda>x. timeoutOr300 (wrm_ActionTimeoutSeconds x)) (fa_WaitRemote a))
                ''Timed out waiting for remote after '' } })"

text \<open>The context and the name prefix that an action runs with.\<close>

definition actionContext :: "env \<Rightarrow> FailoverService \<Rightarrow> TransitionStatus \<Rightarrow> ExecCtx" where
  "actionContext E fs tr =
     (let ctx = ContextWithOwnerRef backgroundCtx (Some (x_newControllerRef E (fs_Meta fs) FailoverServiceKind));
          ctx1 = (case tr_StartedAt tr of None \<Rightarrow> ctx | Some t \<Rightarrow> ContextWithTransitionStartedAt ctx t) in
      ContextWithTransitionDirection ctx1 (tr_TargetDirection tr))"

definition actionPrefix :: "FailoverService \<Rightarrow> TransitionStatus \<Rightarrow> string" where
  "actionPrefix fs tr = fs_Name fs @ ''-'' @ tr_TargetDirection tr @ ''-'' @ tr_TransitionID tr"

definition actionErrored ::
    "env \<Rightarrow> FailoverService \<Rightarrow> bool \<Rightarrow> FailoverAction \<Rightarrow> ActionResult \<Rightarrow> TransitionStatus \<Rightarrow> go_error \<Rightarrow> reply io" where
  "actionErrored E fs isPrePhase a res tr err =
     (let i = nat (tr_CurrentActionIndex tr);
          count = wrap64 (ar_RetryCount res + 1); maxRetries = actionMaxRetries a in
      if count > maxRetries then do {
        t \<leftarrow> now E;
        countAction fs a ''failure'';
        saveTransition E fs (storeResult isPrePhase i (res\<lparr>ar_RetryCount := count, ar_Status := ActionStatusFailed,
          ar_CompletedAt := Some t,
          ar_Message := ''failed after '' @ show_int count @ '' retries: '' @ err_msg err\<rparr>) tr) requeue }
      else saveTransition E fs (storeResult isPrePhase i (res\<lparr>ar_RetryCount := count,
          ar_Message := ''transient error (retry '' @ show_int count @ ''/'' @ show_int maxRetries @ ''): '' @ err_msg err\<rparr>) tr)
        (requeueAfter (actionRequeueInterval a)))"

definition actionCompleted ::
    "env \<Rightarrow> FailoverService \<Rightarrow> bool \<Rightarrow> FailoverAction \<Rightarrow> ActionResult \<Rightarrow> TransitionStatus \<Rightarrow> ExecResult \<Rightarrow> reply io" where
  "actionCompleted E fs isPrePhase a res tr x =
     (let i = nat (tr_CurrentActionIndex tr);
          res1 = res\<lparr>ar_JobName := ex_JobName x, ar_Message := ex_Message x\<rparr> in
      if \<not> ex_Completed x
      then saveTransition E fs (storeResult isPrePhase i res1 tr) (requeueAfter (actionRequeueInterval a))
      else do {
        t \<leftarrow> now E;
        let res2 = res1\<lparr>ar_CompletedAt := Some t\<rparr>;
        if ex_Succeeded x then do {
          (case ar_StartedAt res of
             None \<Rightarrow> ret ()
           | Some s \<Rightarrow> do {
               emit (ActionExecutionDuration (fs_Name fs) (fs_Namespace fs) (fa_Name a) (actionType a) (t - s));
               countAction fs a ''success'' });
          saveTransition E fs (incrIndex (storeResult isPrePhase i (res2\<lparr>ar_Status := ActionStatusSucceeded\<rparr>) tr)) requeue }
        else do {
          (case ar_StartedAt res of None \<Rightarrow> ret () | Some s \<Rightarrow> countAction fs a ''failure'');
          saveTransition E fs (storeResult isPrePhase i (res2\<lparr>ar_Status := ActionStatusFailed\<rparr>) tr) requeue } })"

definition runAction ::
    "env \<Rightarrow> Reconciler \<Rightarrow> FailoverService \<Rightarrow> bool \<Rightarrow> FailoverAction \<Rightarrow> ActionResult \<Rightarrow> TransitionStatus \<Rightarrow> reply io" where
  "runAction E r fs isPrePhase a res tr =
     (case rec_ActionExecutor r of
        None \<Rightarrow> ret (Inl nil_dereference)
      | Some m \<Rightarrow> do {
          x \<leftarrow> MultiExecute m E (actionContext E fs tr) a (fs_Namespace fs) (actionPrefix fs tr) (tr_CurrentActionIndex tr);
          case x of
            Inl err \<Rightarrow> actionErrored E fs isPrePhase a res tr err
          | Inr execResult \<Rightarrow> actionCompleted E fs isPrePhase a res tr execResult })"

text \<open>The end of an action phase, reached when no action is left or the specification lost actions.\<close>

definition endActionPhase :: "env \<Rightarrow> Reconciler \<Rightarrow> FailoverService \<Rightarrow> TransitionStatus \<Rightarrow> bool \<Rightarrow> reply io" where
  "endActionPhase E r fs tr isPrePhase =
     (if isPrePhase then do {
        fs1 \<leftarrow> updateClusterStatus E r (setTransition (Some (tr\<lparr>tr_Phase := PhaseUpdatingResources,
          tr_CurrentActionIndex := 0\<rparr>)) fs) PhaseUpdatingResources;
        saveStatus E fs1 requeue }
      else completeTransition E r (setTransition (Some tr) fs))"

definition executeActionPhase :: "env \<Rightarrow> Reconciler \<Rightarrow> FailoverService \<Rightarrow> bool \<Rightarrow> reply io" where
  "executeActionPhase E r fs isPrePhase =
     (case fs_Transition fs of
        None \<Rightarrow> ret (Inl nil_dereference)
      | Some tr0 \<Rightarrow>
         (let tr = (if tr_CurrentActionIndex tr0 < 0 then tr0\<lparr>tr_CurrentActionIndex := 0\<rparr> else tr0);
              actions = phaseActions r fs tr isPrePhase; results = phaseResults isPrePhase tr;
              idx = tr_CurrentActionIndex tr in
          if idx < int (length actions) \<and> idx \<ge> int (length results) then endActionPhase E r fs tr isPrePhase
          else if idx \<ge> int (length actions) then endActionPhase E r fs tr isPrePhase
          else do {
            let a = actions ! nat idx;
            let res = results ! nat idx;
            let fs1 = setTransition (Some tr) fs;
            h \<leftarrow> handleActionState E fs1 isPrePhase a res tr;
            case h of Some reply \<Rightarrow> ret reply | None \<Rightarrow> runAction E r fs1 isPrePhase a res tr }))"

section \<open>Updating resources and flushing connections\<close>

definition serviceFailed :: "FailoverService \<Rightarrow> unit io" where
  "serviceFailed fs = emit (ReconcileErrorsTotal (fs_Name fs) (fs_Namespace fs) ''service'')"

definition reconcileUpdatingResources :: "env \<Rightarrow> Reconciler \<Rightarrow> FailoverService \<Rightarrow> reply io" where
  "reconcileUpdatingResources E r fs =
     (case fs_Transition fs of
        None \<Rightarrow> ret (Inl nil_dereference)
      | Some tr \<Rightarrow>
         (let targetAddress = (if tr_NewAddressSnapshot tr = ''''
               then snd (getTransitionAddresses r fs (tr_TargetDirection tr)) else tr_NewAddressSnapshot tr) in
          do { e \<leftarrow> ReconcileWithAddress E fs targetAddress;
               case e of
                 Some err \<Rightarrow> do { serviceFailed fs; ret (Inr (requeueAfter defaultBackoffMin)) }
               | None \<Rightarrow> do {
                   fs1 \<leftarrow> setConditionNow E ConditionServiceReady True ''Reconciled'' ''Service is correctly configured'' fs;
                   fs2 \<leftarrow> updateClusterStatus E r (setTransition (Some (tr\<lparr>tr_Phase := PhaseFlushingConnections,
                     tr_CurrentActionIndex := 0\<rparr>)) fs1) PhaseFlushingConnections;
                   saveStatus E fs2 requeue } }))"

text \<open>The last part of \<^verbatim>\<open>reconcileFlushingConnections\<close>: on to the post-actions, or done.\<close>

definition advanceAfterFlush :: "env \<Rightarrow> Reconciler \<Rightarrow> FailoverService \<Rightarrow> TransitionStatus \<Rightarrow> reply io" where
  "advanceAfterFlush E r fs tr =
     (case getTransitionHooks r fs (tr_TargetDirection tr) of
        Some h \<Rightarrow>
          if ta_PostActions h \<noteq> [] then do {
            fs1 \<leftarrow> updateClusterStatus E r (setTransition (Some (tr\<lparr>tr_Phase := PhaseExecutingPostActions,
              tr_CurrentActionIndex := 0\<rparr>)) fs) PhaseExecutingPostActions;
            saveStatus E fs1 requeue }
          else completeTransition E r (setTransition (Some tr) fs)
      | None \<Rightarrow> completeTransition E r (setTransition (Some tr) fs))"

definition skipFlush :: "env \<Rightarrow> Reconciler \<Rightarrow> FailoverService \<Rightarrow> TransitionStatus \<Rightarrow> reply io" where
  "skipFlush E r fs tr =
     do { fs1 \<leftarrow> setConditionNow E ConditionConnectionsKilled True ''Skipped''
            ''Connection kill not applicable for this transition'' fs;
          advanceAfterFlush E r fs1 tr }"

definition saveIgnoring :: "env \<Rightarrow> FailoverService \<Rightarrow> CtrlResult \<Rightarrow> reply io" where
  \<comment> \<open>a status update whose error is only logged\<close>
  "saveIgnoring E fs ok = do { updateFSStatus E fs; ret (Inr ok) }"

definition flushSignal ::
    "env \<Rightarrow> Reconciler \<Rightarrow> Signaler \<Rightarrow> FailoverService \<Rightarrow> TransitionStatus \<Rightarrow> string \<Rightarrow> reply io" where
  "flushSignal E r sg fs tr oldAddress =
     do { n \<leftarrow> now E;
          let killToken = tr_TransitionID tr @ ''-'' @ show_int (wrap64 n);
          s \<leftarrow> SignalKill E sg oldAddress killToken (fs_Namespace fs) (fs_Name fs);
          case s of
            Inl err \<Rightarrow> do {
              emit (ReconcileErrorsTotal (fs_Name fs) (fs_Namespace fs) ''connkill'');
              fs1 \<leftarrow> setConditionNow E ConditionConnectionsKilled False ''SignalFailed'' (err_msg err) fs;
              saveIgnoring E fs1 (requeueAfter defaultBackoffMin) }
          | Inr nodeNames \<Rightarrow>
              if nodeNames = [] then do {
                fs1 \<leftarrow> setConditionNow E ConditionConnectionsKilled True ''Skipped''
                  ''No ready connection-killer agents available; connection kill skipped''
                  (setTransition (Some (tr\<lparr>tr_ConnectionKill := None\<rparr>)) fs);
                advanceAfterFlush E r fs1 (tr\<lparr>tr_ConnectionKill := None\<rparr>) }
              else do {
                t \<leftarrow> now E;
                let fs1 = setCondition_at E ConditionConnectionsKilled False t ''WaitingForAcks''
                  (''Kill signal sent for '' @ oldAddress @ '', waiting for '' @ show_nat (length nodeNames) @ '' node ACKs'')
                  (setTransition (Some (tr\<lparr>tr_ConnectionKill := Some \<lparr>ck_SignalSent = True, ck_KillToken = killToken,
                     ck_ExpectedNodes = nodeNames, ck_AckedNodes = [], ck_SignaledAt = Some t\<rparr>\<rparr>)) fs);
                fs2 \<leftarrow> updateClusterStatus E r fs1 PhaseFlushingConnections;
                saveIgnoring E fs2 (requeueAfter connKillPollInterval) } }"

text \<open>Printing a slice with \<open>%v\<close>.\<close>

fun spaced :: "string list \<Rightarrow> string" where
  "spaced [] = []"
| "spaced [x] = x"
| "spaced (x # y # xs) = x @ '' '' @ spaced (y # xs)"

definition ackExpired :: "env \<Rightarrow> ConnectionKillStatus \<Rightarrow> bool io" where
  "ackExpired E ck =
     (case ck_SignaledAt ck of
        None \<Rightarrow> ret False
      | Some s \<Rightarrow> do { n \<leftarrow> now E; ret (n - s > connKillTimeout) })"

text \<open>On a timeout the pipeline halts until an operator advances it.\<close>

definition haltOnAckTimeout :: "env \<Rightarrow> FailoverService \<Rightarrow> string \<Rightarrow> reply io" where
  "haltOnAckTimeout E fs msg =
     do { fs1 \<leftarrow> setConditionNow E ConditionConnectionsKilled False ''AckTimeout'' msg fs;
          u \<leftarrow> updateFSStatus E fs1;
          case u of
            Inl e \<Rightarrow> ret (Inr (requeueAfter connKillPollInterval))
          | Inr _ \<Rightarrow> ret (Inr noRequeue) }"

definition flushPoll ::
    "env \<Rightarrow> Reconciler \<Rightarrow> Signaler \<Rightarrow> FailoverService \<Rightarrow> TransitionStatus \<Rightarrow> ConnectionKillStatus \<Rightarrow> string \<Rightarrow> reply io" where
  "flushPoll E r sg fs tr ck oldAddress =
     do { a \<leftarrow> CheckAcks E sg (ck_KillToken ck) (ck_ExpectedNodes ck) (fs_Namespace fs) (fs_Name fs);
          case a of
            Inl err \<Rightarrow> do {
              late \<leftarrow> ackExpired E ck;
              if late then haltOnAckTimeout E fs (''Timed out checking ACKs: '' @ err_msg err)
              else ret (Inr (requeueAfter defaultBackoffMin)) }
          | Inr ackStatus \<Rightarrow> do {
              let tr1 = tr\<lparr>tr_ConnectionKill := Some (ck\<lparr>ck_AckedNodes := as_AckedNodes ackStatus\<rparr>)\<rparr>;
              let fs1 = setTransition (Some tr1) fs;
              if \<not> as_AllAcked ackStatus then do {
                late \<leftarrow> ackExpired E ck;
                if late then haltOnAckTimeout E fs1
                  (''Timed out waiting for ACKs from nodes: ['' @ spaced (as_PendingNodes ackStatus) @ '']'')
                else saveIgnoring E fs1 (requeueAfter connKillPollInterval) }
              else do {
                emit ConnectionsKilledTotal;
                fs2 \<leftarrow> setConditionNow E ConditionConnectionsKilled True ''AllNodesAcked''
                  (''All '' @ show_nat (length (ck_ExpectedNodes ck)) @ '' nodes confirmed connection kill for '' @ oldAddress) fs1;
                advanceAfterFlush E r fs2 tr1 } } }"

definition reconcileFlushingConnections :: "env \<Rightarrow> Reconciler \<Rightarrow> FailoverService \<Rightarrow> reply io" where
  "reconcileFlushingConnections E r fs =
     (case fs_Transition fs of
        None \<Rightarrow> ret (Inl nil_dereference)
      | Some tr \<Rightarrow>
         (case rec_ConnSignaler r of
            None \<Rightarrow> skipFlush E r fs tr
          | Some sg \<Rightarrow>
             (let oldAddress = getOldTargetAddress r fs in
              if oldAddress \<noteq> '''' \<and> is_ip oldAddress then
                (case tr_ConnectionKill tr of
                   Some ck \<Rightarrow> if ck_SignalSent ck then flushPoll E r sg fs tr ck oldAddress
                     else flushSignal E r sg fs tr oldAddress
                 | None \<Rightarrow> flushSignal E r sg fs tr oldAddress)
              else skipFlush E r fs tr)))"

section \<open>Force-advance\<close>

definition forceAdvanceActionPhase :: "env \<Rightarrow> TransitionStatus \<Rightarrow> bool \<Rightarrow> TransitionStatus io" where
  "forceAdvanceActionPhase E tr isPrePhase =
     (let results = phaseResults isPrePhase tr; idx = tr_CurrentActionIndex tr in
      if idx \<ge> 0 \<and> idx < int (length results) then do {
        t \<leftarrow> now E;
        ret (incrIndex (storeResult isPrePhase (nat idx) ((results ! nat idx)\<lparr>ar_Status := ActionStatusSkipped,
          ar_CompletedAt := Some t, ar_Message := ''Force-advanced by operator''\<rparr>) tr)) }
      else ret tr)"

definition handleForceAdvance :: "env \<Rightarrow> FailoverService \<Rightarrow> (bool \<times> FailoverService) io" where
  "handleForceAdvance E fs =
     (case fs_Transition fs of
        None \<Rightarrow> ret (False, fs)
      | Some tr \<Rightarrow> do {
          updateFailoverEvent E fs EventOutcomeForceAdvanced;
          tr1 \<leftarrow> (if tr_Phase tr = PhaseExecutingPreActions then forceAdvanceActionPhase E tr True
            else if tr_Phase tr = PhaseExecutingPostActions then forceAdvanceActionPhase E tr False
            else if tr_Phase tr = PhaseUpdatingResources
            then ret (tr\<lparr>tr_Phase := PhaseFlushingConnections, tr_CurrentActionIndex := 0\<rparr>)
            else if tr_Phase tr = PhaseFlushingConnections
            then ret (tr\<lparr>tr_Phase := PhaseExecutingPostActions, tr_CurrentActionIndex := 0\<rparr>)
            else ret tr);
          ret (True, removeCond E ConditionActionFailed (setTransition (Some tr1) fs)) })"

section \<open>Idle\<close>

definition reconcileIdle :: "env \<Rightarrow> Reconciler \<Rightarrow> FailoverService \<Rightarrow> reply io" where
  "reconcileIdle E r fs =
     (if st_LastKnownFailoverActive (fs_Status fs) \<noteq> None \<and>
         st_LastKnownFailoverActive (fs_Status fs) \<noteq> Some (sp_FailoverActive (fs_Spec fs))
      then do {
        t \<leftarrow> now E;
        beginTransition E r (setStatus (\<lambda>s. s\<lparr>st_SpecChangeTime := Some t\<rparr>) fs) triggerManual }
      else do {
        e \<leftarrow> ServiceReconcile E (rec_ServiceManager r) fs;
        case e of
          Some err \<Rightarrow> do {
            serviceFailed fs;
            fs1 \<leftarrow> setConditionNow E ConditionServiceReady False ''ReconcileFailed'' (err_msg err) fs;
            saveIgnoring E fs1 (requeueAfter defaultBackoffMin) }
        | None \<Rightarrow> do {
            fs1 \<leftarrow> setConditionNow E ConditionServiceReady True ''Reconciled'' ''Service is correctly configured'' fs;
            reconcileSteadyState E r fs1 } })"

section \<open>Reconcile\<close>

definition isDeleted :: "FailoverService \<Rightarrow> bool" where
  "isDeleted fs \<longleftrightarrow> (case m_DeletionTimestamp (fs_Meta fs) of None \<Rightarrow> False | Some t \<Rightarrow> t \<noteq> zeroTime)"

definition setFinalizers :: "string list \<Rightarrow> FailoverService \<Rightarrow> FailoverService" where
  "setFinalizers l fs = fs\<lparr>fs_Meta := (fs_Meta fs)\<lparr>m_Finalizers := l\<rparr>\<rparr>"

definition removeAnnotation :: "string \<Rightarrow> FailoverService \<Rightarrow> FailoverService" where
  "removeAnnotation k fs = fs\<lparr>fs_Meta := (fs_Meta fs)\<lparr>m_Annotations := map_option (mdelete k) (m_Annotations (fs_Meta fs))\<rparr>\<rparr>"

definition reconcileDeletion :: "env \<Rightarrow> Reconciler \<Rightarrow> FailoverService \<Rightarrow> reply io" where
  "reconcileDeletion E r fs =
     (if x_containsFinalizer E (m_Finalizers (fs_Meta fs)) finalizerName then do {
        cleanupSignalsOf E r fs;
        u \<leftarrow> updateFS E (setFinalizers (x_removeFinalizer E (m_Finalizers (fs_Meta fs)) finalizerName) fs);
        case u of Inl e \<Rightarrow> ret (Inl e) | Inr _ \<Rightarrow> ret (Inr noRequeue) }
      else ret (Inr noRequeue))"

definition reconcileForceAdvance :: "env \<Rightarrow> FailoverService \<Rightarrow> reply io" where
  "reconcileForceAdvance E fs =
     (let unannotate = (\<lambda>fs. do {
            u \<leftarrow> updateFS E (removeAnnotation forceAdvanceAnnotation fs);
            case u of Inl e \<Rightarrow> ret (Inl e) | Inr _ \<Rightarrow> ret (Inr requeue) }) in
      do { (changed, fs1) \<leftarrow> handleForceAdvance E fs;
           if changed then do {
             u \<leftarrow> updateFSStatus E fs1;
             case u of Inl e \<Rightarrow> ret (Inl e) | Inr fs2 \<Rightarrow> unannotate fs2 }
           else unannotate fs1 })"

definition reconcileUnknownPhase :: "env \<Rightarrow> Reconciler \<Rightarrow> FailoverService \<Rightarrow> FailoverPhase \<Rightarrow> reply io" where
  "reconcileUnknownPhase E r fs phase =
     do { fs1 \<leftarrow> setConditionNow E ConditionActionFailed True ''UnknownPhase''
            (''Unknown transition phase '' @ quote phase @ ''; transition was reset'') fs;
          fs2 \<leftarrow> updateClusterStatus E r (setTransition None (removeCond E ConditionTransitionInProgress fs1)) PhaseIdle;
          saveStatus E fs2 requeue }"

definition dispatchPhase :: "env \<Rightarrow> Reconciler \<Rightarrow> FailoverService \<Rightarrow> reply io" where
  "dispatchPhase E r fs =
     (let phase = (case fs_Transition fs of None \<Rightarrow> PhaseIdle | Some tr \<Rightarrow> tr_Phase tr) in
      if phase = PhaseIdle then reconcileIdle E r fs
      else if phase = PhaseExecutingPreActions then executeActionPhase E r fs True
      else if phase = PhaseUpdatingResources then reconcileUpdatingResources E r fs
      else if phase = PhaseFlushingConnections then reconcileFlushingConnections E r fs
      else if phase = PhaseExecutingPostActions then executeActionPhase E r fs False
      else reconcileUnknownPhase E r fs phase)"

text \<open>From the cluster ID annotation on, with the object that carries the finalizer.\<close>

definition reconcileAnnotated :: "env \<Rightarrow> Reconciler \<Rightarrow> FailoverService \<Rightarrow> reply io" where
  "reconcileAnnotated E r fs =
     (if mget (m_Annotations (fs_Meta fs)) forceAdvanceAnnotation \<noteq> '''' then reconcileForceAdvance E fs
      else dispatchPhase E r fs)"

definition reconcileFinalized :: "env \<Rightarrow> Reconciler \<Rightarrow> FailoverService \<Rightarrow> reply io" where
  "reconcileFinalized E r fs =
     (if m_Annotations (fs_Meta fs) = None \<or>
         mget (m_Annotations (fs_Meta fs)) clusterIDAnnotation \<noteq> rec_ClusterID r
      then do {
        u \<leftarrow> updateFS E (SetClusterIDAnnotation fs (rec_ClusterID r));
        case u of Inl e \<Rightarrow> ret (Inl e) | Inr fs1 \<Rightarrow> reconcileAnnotated E r fs1 }
      else reconcileAnnotated E r fs)"

definition Reconcile :: "env \<Rightarrow> Reconciler \<Rightarrow> nsname \<Rightarrow> reply io" where
  "Reconcile E r req =
     do { g \<leftarrow> getFS E req;
          case g of
            Inl e \<Rightarrow> if IsNotFound e then ret (Inr noRequeue) else ret (Inl e)
          | Inr fs \<Rightarrow>
              if isDeleted fs then reconcileDeletion E r fs
              else if \<not> x_containsFinalizer E (m_Finalizers (fs_Meta fs)) finalizerName then do {
                u \<leftarrow> updateFS E (setFinalizers (x_addFinalizer E (m_Finalizers (fs_Meta fs)) finalizerName) fs);
                case u of Inl e \<Rightarrow> ret (Inl e) | Inr fs1 \<Rightarrow> reconcileFinalized E r fs1 }
              else reconcileFinalized E r fs }"

section \<open>Construction\<close>

text \<open>\<^verbatim>\<open>NewReconcilerFromEnv\<close>, with the process environment as a function from variable to value.\<close>

definition newReconciler :: "string \<Rightarrow> string \<Rightarrow> ClientProvider \<Rightarrow> string \<Rightarrow> Reconciler" where
  "newReconciler clusterRole clusterID provider controllerNamespace =
     (let syncer = \<lparr>sy_ClientProvider = provider, sy_ClusterID = clusterID, sy_SyncTimeout = 0\<rparr> in
      \<lparr>rec_ClusterRole = clusterRole, rec_ClusterID = clusterID,
       rec_ServiceManager = \<lparr>mgr_ClusterRole = clusterRole\<rparr>, rec_Syncer = Some (\<lambda>E fs. Sync E syncer fs),
       rec_ConnSignaler = Some \<lparr>sg_Namespace = controllerNamespace\<rparr>,
       rec_ActionExecutor = Some (actionExecutor provider), rec_RemoteWatcher = Some provider\<rparr>)"

definition NewReconcilerFromEnv :: "(string \<Rightarrow> string) \<Rightarrow> go_error + Reconciler" where
  "NewReconcilerFromEnv getenv =
     (let clusterRole = (if getenv ''CLUSTER_ROLE'' = '''' then rolePrimary else getenv ''CLUSTER_ROLE'');
          clusterID = getenv ''CLUSTER_ID''; secretName = getenv ''REMOTE_KUBECONFIG_SECRET'';
          secretNamespace = getenv ''REMOTE_KUBECONFIG_NAMESPACE'';
          controllerNamespace = (if getenv ''CONTROLLER_NAMESPACE'' = '''' then ''k8s-failover-manager-system''
            else getenv ''CONTROLLER_NAMESPACE'');
          provider = \<lparr>cp_SecretName = secretName, cp_SecretNamespace = secretNamespace\<rparr> in
      if clusterRole \<noteq> rolePrimary \<and> clusterRole \<noteq> roleFailover
      then Inl (Errorf (''CLUSTER_ROLE must be 'primary' or 'failover', got '' @ quote clusterRole))
      else if clusterID = '''' then Inl (Errorf ''CLUSTER_ID is required'')
      else if secretName = '''' then Inl (Errorf ''REMOTE_KUBECONFIG_SECRET is required'')
      else if secretNamespace = '''' then Inl (Errorf ''REMOTE_KUBECONFIG_NAMESPACE is required'')
      else Inr (newReconciler clusterRole clusterID provider controllerNamespace))"

end
