(* ===== verification/Pipeline.thy ===== *)
theory Pipeline
  imports Controller Fixtures
begin

text \<open>
  The transition state machine of the controller.  \<open>pipeline\<close> is its abstract specification, a step relation
  on the transition stored in the status (\<open>None\<close> when idle) with the guards that the documentation of the
  pipeline promises; \<open>forced\<close> are the steps an operator can force.  The handlers of \<open>Controller\<close> are shown to
  refine it: every status that a reconciliation writes is one step from the stored transition, whatever the
  API server, the actions and the other cluster answer (\<open>refines\<close>, with the rules above it).  The lemmas are
  proved in the locale \<open>sound_reconciler\<close>, which asks of the configured syncer and executors only that they
  leave the FailoverService and the managed objects alone, and are used through its interpretation on the
  reconciler that \<^verbatim>\<open>NewReconcilerFromEnv\<close> builds.  Invariants of the machine (\<open>pre_passed\<close>, \<open>identity\<close>) then
  carry over to the controller.
\<close>

section \<open>Calls that leave the FailoverService and the managed objects alone\<close>

fun is_fs_write :: "entry \<Rightarrow> bool" where
  "is_fs_write (UpdateFS _ _) = True"
| "is_fs_write (UpdateFSStatus _ _) = True"
| "is_fs_write _ = False"

definition quiet :: "entry \<Rightarrow> bool" where
  "quiet e \<longleftrightarrow> \<not> is_service_entry e \<and> \<not> is_fs_write e"

lemma quiet_simps [simp]:
  "quiet (Now t)" "quiet (GetFS k gf)" "quiet (GetEvent k ge)" "quiet (Metric mt)" "quiet (GetSecret k gs)"
  "quiet (NewClient cf ce)" "quiet (RemoteGetFS rc k gf)" "quiet (GetJob k gj)"
  "quiet (Write (CreateEvent ev) we)" "quiet (Write (UpdateEventStatus ev) we)"
  "quiet (Write (RemoteUpdateFS rc f) we)" "quiet (Write (DeleteJob j) we)"
  "\<not> quiet (UpdateFS f uf)" "\<not> quiet (UpdateFSStatus f uf)"
  by (simp_all add: quiet_def)

lemma signal_entry_quiet: "signal_entry e \<Longrightarrow> quiet e"
  by (cases e rule: signal_entry.cases) (simp_all add: quiet_def)

lemma action_entry_quiet: "action_entry ns e \<Longrightarrow> quiet e"
  by (cases "(ns, e)" rule: action_entry.cases) (simp_all add: quiet_def)

lemma quiet_no_service: "quiet e \<Longrightarrow> \<not> is_service_entry e"
  by (simp add: quiet_def)

lemma Sync_quiet: "emits quiet (Sync E s fs)"
proof -
  have client: "emits quiet (GetClient E p)" for p
    by (rule emits_weaken [OF GetClient_calls]) auto
  have push: "emits quiet (pushState E c local)" for c local
    unfolding pushState_def call_defs by (intro eff_OnError eff_intros TrueI) simp_all
  have "emits quiet (syncBody E s fs)"
    unfolding syncBody_def Let_def call_defs
    by (intro eff_bind [OF client] eff_case_sum eff_bind [OF emits_call] eff_bind [OF push] eff_case_option eff_if eff_ret)
      simp_all
  then show ?thesis
    unfolding Sync_def Let_def call_defs
    by (intro eff_bind [OF emits_call] eff_ret) (auto intro!: eff_bind [OF emits_call] eff_ret elim: eff_bind)
qed

text \<open>What the pipeline relies on: the executors and the syncer it is configured with leave the
  FailoverService and the managed objects to it.\<close>

locale sound_reconciler =
  fixes r :: Reconciler
  assumes sync_quiet: "rec_Syncer r = Some s \<Longrightarrow> emits quiet (s E fs)"
    and exec_quiet: "rec_ActionExecutor r = Some m \<Longrightarrow> emits quiet (MultiExecute m E ctx a ns p i)"
    and cleanup_quiet: "rec_ActionExecutor r = Some m \<Longrightarrow> emits quiet (MultiCleanup m E n ns)"

interpretation controller: sound_reconciler "newReconciler role cid provider ns" for role cid provider ns
proof
  show "rec_Syncer (newReconciler role cid provider ns) = Some s \<Longrightarrow> emits quiet (s E fs)" for s E fs
    by (auto simp: newReconciler_def Let_def Sync_quiet)
  show "rec_ActionExecutor (newReconciler role cid provider ns) = Some m \<Longrightarrow>
      emits quiet (MultiExecute m E ctx a n p i)" for m E ctx a n p i
    by (auto simp: newReconciler_def Let_def intro: eff_weaken [OF actions.contract action_entry_quiet])
  show "rec_ActionExecutor (newReconciler role cid provider ns) = Some m \<Longrightarrow> emits quiet (MultiCleanup m E n k)" for m E n k
    by (auto simp: newReconciler_def Let_def MultiCleanup_def actionExecutor_def JobCleanup_def call_defs
        intro!: eff_bind [OF emits_call] emits_call eff_ret split: sum.split)
qed

lemma quiet_calls [eff_rules]:
  "emits quiet (now E)" "emits quiet (emit mt)" "emits quiet (getEvent E k)" "emits quiet (getFS E k)"
  "emits quiet (kwrite E (CreateEvent ev))" "emits quiet (kwrite E (UpdateEventStatus ev))"
  by (simp_all add: call_defs emits_call)

lemma quiet_helpers:
  "emits quiet (CheckTimeout E st t)" "emits quiet (countAction fs a s)" "emits quiet (serviceFailed fs)"
  "emits quiet (failoverGauge fs b)" "emits quiet (ackExpired E ck)"
  "emits quiet (SignalKill E sg ip tok ns f)" "emits quiet (CheckAcks E sg tok nn ns f)"
  "emits quiet (CleanupSignals E sg ns f)" "emits quiet (cleanupSignalsOf E r fs)"
proof -
  show *: "emits quiet (CleanupSignals E sg ns f)" for sg
    by (rule emits_weaken [OF CleanupSignals_confined signal_entry_quiet])
  show "emits quiet (cleanupSignalsOf E r fs)"
    unfolding cleanupSignalsOf_def
    by (intro eff_case_option eff_bind [OF emits_weaken [OF CleanupSignals_confined signal_entry_quiet]] eff_ret) simp_all
qed (simp_all add: CheckTimeout_def countAction_def serviceFailed_def failoverGauge_def ackExpired_def quiet_calls
    eff_case_option eff_bind [OF quiet_calls(1)] eff_ret emits_weaken [OF SignalKill_confined signal_entry_quiet]
    emits_weaken [OF CheckAcks_confined signal_entry_quiet] split: option.split)

lemma updateFailoverEvent_quiet: "emits quiet (updateFailoverEvent E fs outcome)"
  unfolding updateFailoverEvent_def
  by (intro eff_case_option eff_if eff_ret eff_bind [OF quiet_calls(3)] eff_case_sum eff_bind [OF quiet_calls(1)]
      eff_bind [OF quiet_calls(6)]) simp_all

lemma createFailoverEvent_quiet: "emits quiet (createFailoverEvent E fs d t s)"
  unfolding createFailoverEvent_def Let_def
  by (intro eff_case_option eff_ret eff_bind [OF quiet_calls(5)] eff_bind [OF quiet_calls(6)]) simp_all


section \<open>The object in memory\<close>

lemma status_simps [simp]:
  "fs_Meta (setStatus g fs) = fs_Meta fs" "fs_Spec (setStatus g fs) = fs_Spec fs"
  "fs_Status (setStatus g fs) = g (fs_Status fs)"
  "fs_Meta (setTransition tr fs) = fs_Meta fs" "fs_Spec (setTransition tr fs) = fs_Spec fs"
  "fs_Status (setTransition tr fs) = (fs_Status fs)\<lparr>st_Transition := tr\<rparr>"
  "fs_Meta (removeCond E ty fs) = fs_Meta fs" "fs_Spec (removeCond E ty fs) = fs_Spec fs"
  "fs_Transition (removeCond E ty fs) = fs_Transition fs"
  "fs_Meta (setCondition_at E ty ok t re msg fs) = fs_Meta fs"
  "fs_Spec (setCondition_at E ty ok t re msg fs) = fs_Spec fs"
  "fs_Transition (setCondition_at E ty ok t re msg fs) = fs_Transition fs"
  by (simp_all add: setStatus_def setTransition_def removeCond_def setCondition_at_def)

text \<open>Updating conditions or the entry of this cluster changes neither specification nor transition.\<close>

definition same_object :: "FailoverService \<Rightarrow> FailoverService \<Rightarrow> bool" where
  "same_object fs fs' \<longleftrightarrow> fs_Meta fs' = fs_Meta fs \<and> fs_Spec fs' = fs_Spec fs \<and> fs_Transition fs' = fs_Transition fs"

lemma same_objectD:
  "same_object fs fs' \<Longrightarrow> fs_Meta fs' = fs_Meta fs" "same_object fs fs' \<Longrightarrow> fs_Spec fs' = fs_Spec fs"
  "same_object fs fs' \<Longrightarrow> fs_Transition fs' = fs_Transition fs"
  by (simp_all add: same_object_def)

lemma updateClusterStatus_quiet: "eff quiet (updateClusterStatus E r fs p) (same_object fs)"
  unfolding updateClusterStatus_def
  by (intro eff_bind [OF quiet_calls(1)] eff_ret) (simp add: same_object_def)

lemma setConditionNow_quiet: "eff quiet (setConditionNow E ty ok re msg fs) (same_object fs)"
  unfolding setConditionNow_def
  by (intro eff_bind [OF quiet_calls(1)] eff_ret) (simp add: same_object_def)

lemma syncFailed_quiet: "eff quiet (syncFailed E fs e) (same_object fs)"
  unfolding syncFailed_def by (intro eff_bind [OF quiet_calls(2)] setConditionNow_quiet)

lemma syncSucceeded_quiet: "eff quiet (syncSucceeded E fs) (same_object fs)"
  unfolding syncSucceeded_def by (rule setConditionNow_quiet)

section \<open>The phase machine\<close>

text \<open>What a transition was started for; nothing of it changes while the transition lasts.\<close>

definition idle :: "TransitionStatus option \<Rightarrow> bool" where
  "idle t \<longleftrightarrow> (case t of None \<Rightarrow> True | Some tr \<Rightarrow> tr_Phase tr = PhaseIdle)"

lemma idle_simps [simp]: "idle None" "idle (Some tr) \<longleftrightarrow> tr_Phase tr = PhaseIdle"
  by (simp_all add: idle_def)

definition passed :: "ActionResult \<Rightarrow> bool" where
  "passed res \<longleftrightarrow> ar_Status res = ActionStatusSucceeded \<or> ar_Status res = ActionStatusSkipped"

text \<open>How the status of one action may change: it starts, it ends, a failure is skipped.  A status that is none
  of the known ones is treated like Running.\<close>

definition underway :: "string \<Rightarrow> bool" where
  "underway s \<longleftrightarrow> s \<noteq> ActionStatusPending \<and> s \<noteq> ActionStatusSucceeded \<and> s \<noteq> ActionStatusFailed \<and> s \<noteq> ActionStatusSkipped"

definition status_step :: "string \<Rightarrow> string \<Rightarrow> bool" where
  "status_step s s' \<longleftrightarrow> s' = s \<or> (s = ActionStatusPending \<and> s' = ActionStatusRunning) \<or>
     (s = ActionStatusFailed \<and> s' = ActionStatusSkipped) \<or>
     (underway s \<and> (s' = ActionStatusSucceeded \<or> s' = ActionStatusFailed))"

text \<open>A status write of an action phase: the result of the current action is replaced, and the index
  moves on by one only past an action that succeeded or was skipped.\<close>

definition atIndex :: "TransitionStatus \<Rightarrow> nat" where
  "atIndex tr = nat (tr_CurrentActionIndex tr)"

abbreviation currentStatus :: "bool \<Rightarrow> TransitionStatus \<Rightarrow> string" where
  "currentStatus isPre tr \<equiv> ar_Status (phaseResults isPre tr ! atIndex tr)"

inductive action_step :: "bool \<Rightarrow> TransitionStatus \<Rightarrow> TransitionStatus \<Rightarrow> bool" for isPre tr where
  record_result: "atIndex tr < length (phaseResults isPre tr) \<Longrightarrow> status_step (currentStatus isPre tr) (ar_Status res) \<Longrightarrow>
    action_step isPre tr (storeResult isPre (atIndex tr) res (tr\<lparr>tr_CurrentActionIndex := int (atIndex tr)\<rparr>))"
| next_action: "atIndex tr < length (phaseResults isPre tr) \<Longrightarrow> status_step (currentStatus isPre tr) (ar_Status res) \<Longrightarrow>
    passed res \<Longrightarrow>
    action_step isPre tr (incrIndex (storeResult isPre (atIndex tr) res (tr\<lparr>tr_CurrentActionIndex := int (atIndex tr)\<rparr>)))"

type_synonym plan = "string \<Rightarrow> bool \<Rightarrow> nat" \<comment> \<open>number of actions by direction and phase\<close>

definition behind :: "plan \<Rightarrow> bool \<Rightarrow> TransitionStatus \<Rightarrow> bool" where
  "behind pl isPre tr \<longleftrightarrow> length (phaseResults isPre tr) \<le> atIndex tr \<or> pl (tr_TargetDirection tr) isPre \<le> atIndex tr"

inductive pipeline :: "plan \<Rightarrow> TransitionStatus option \<Rightarrow> TransitionStatus option \<Rightarrow> bool" for pl where
  stay: "idle t \<Longrightarrow> pipeline pl t t"
| start: "idle t \<Longrightarrow> tr_Phase tr = (if tr_PreActionResults tr \<noteq> [] then PhaseExecutingPreActions else PhaseUpdatingResources) \<Longrightarrow>
    tr_CurrentActionIndex tr = 0 \<Longrightarrow> tr_TargetDirection tr \<in> {directionFailover, directionFailback} \<Longrightarrow>
    \<forall>res \<in> set (tr_PreActionResults tr @ tr_PostActionResults tr). ar_Status res = ActionStatusPending \<Longrightarrow>
    pipeline pl t (Some tr)"
| pre_action: "tr_Phase tr = PhaseExecutingPreActions \<Longrightarrow> action_step True tr tr' \<Longrightarrow> pipeline pl (Some tr) (Some tr')"
| pre_done: "tr_Phase tr = PhaseExecutingPreActions \<Longrightarrow> behind pl True tr \<Longrightarrow>
    pipeline pl (Some tr) (Some (tr\<lparr>tr_Phase := PhaseUpdatingResources, tr_CurrentActionIndex := 0\<rparr>))"
| switched: "tr_Phase tr = PhaseUpdatingResources \<Longrightarrow>
    pipeline pl (Some tr) (Some (tr\<lparr>tr_Phase := PhaseFlushingConnections, tr_CurrentActionIndex := 0\<rparr>))"
| flush: "tr_Phase tr = PhaseFlushingConnections \<Longrightarrow> pipeline pl (Some tr) (Some (tr\<lparr>tr_ConnectionKill := ck\<rparr>))"
| flushed: "tr_Phase tr = PhaseFlushingConnections \<Longrightarrow> pl (tr_TargetDirection tr) False \<noteq> 0 \<Longrightarrow>
    pipeline pl (Some tr) (Some (tr\<lparr>tr_ConnectionKill := ck, tr_Phase := PhaseExecutingPostActions, tr_CurrentActionIndex := 0\<rparr>))"
| post_action: "tr_Phase tr = PhaseExecutingPostActions \<Longrightarrow> action_step False tr tr' \<Longrightarrow> pipeline pl (Some tr) (Some tr')"
| finish_flush: "tr_Phase tr = PhaseFlushingConnections \<Longrightarrow> pl (tr_TargetDirection tr) False = 0 \<Longrightarrow> pipeline pl (Some tr) None"
| finish_post: "tr_Phase tr = PhaseExecutingPostActions \<Longrightarrow> behind pl False tr \<Longrightarrow> pipeline pl (Some tr) None"
| reset: "PhaseOrder (tr_Phase tr) < 0 \<Longrightarrow> pipeline pl (Some tr) None"

inductive_cases pipelineE: "pipeline pl t t'"

text \<open>Calls that follow the machine: each status write is a step from the state after the one before,
  and Services and EndpointSlices are touched only if \<open>sw\<close> allows it, and never after a status write.\<close>

fun steps :: "plan \<Rightarrow> bool \<Rightarrow> TransitionStatus option \<Rightarrow> entry list \<Rightarrow> bool" where
  "steps pl sw t (UpdateFSStatus f (Inr _) # cs) = (pipeline pl t (fs_Transition f) \<and> steps pl False (fs_Transition f) cs)"
| "steps pl sw t (UpdateFSStatus f (Inl _) # cs) = (pipeline pl t (fs_Transition f) \<and> steps pl False t cs)"
| "steps pl sw t (e # cs) = ((is_service_entry e \<longrightarrow> sw) \<and> steps pl sw t cs)"
| "steps pl sw t [] = True"

definition refines :: "plan \<Rightarrow> bool \<Rightarrow> TransitionStatus option \<Rightarrow> 'a io \<Rightarrow> bool" where
  "refines pl sw t m \<longleftrightarrow> tspec m (\<lambda>_ cs. steps pl sw t cs)"

lemma steps_quiet: "\<forall>e \<in> set cs. quiet e \<Longrightarrow> steps pl sw t (cs @ ds) = steps pl sw t ds"
proof (induction cs)
  case (Cons e cs)
  then show ?case by (cases e) (simp_all add: quiet_def)
qed simp

lemma refines_ret [simp]: "refines pl sw t (ret x)"
  by (simp add: refines_def tspec_ret)

lemma refines_quiet: "emits quiet m \<Longrightarrow> refines pl sw t m"
  unfolding refines_def
  by (rule tspec_weaken [OF tspec_eff]) (use steps_quiet [where ds = "[]"] in auto)

lemma refines_bind:
  "eff quiet m Q \<Longrightarrow> (\<And>a. Q a \<Longrightarrow> refines pl sw t (k a)) \<Longrightarrow> refines pl sw t (m \<bind> k)"
  unfolding refines_def by (rule tspec_bind [OF tspec_eff]) (auto simp: steps_quiet)

lemma refines_updateFSStatus:
  assumes "pipeline pl t (fs_Transition fs)" "\<And>e. refines pl False t (k (Inl e))" "\<And>f. refines pl False (fs_Transition fs) (k (Inr f))"
  shows "refines pl sw t (updateFSStatus E fs \<bind> k)"
  unfolding refines_def updateFSStatus_def
proof (rule tspec_bind_call)
  fix h
  show "tspec (k (o_updateFSStatus E h fs)) (\<lambda>x cs. steps pl sw t (UpdateFSStatus fs (o_updateFSStatus E h fs) # cs))"
    using assms by (cases "o_updateFSStatus E h fs") (auto simp: refines_def)
qed

lemma refines_updateFS:
  assumes "\<And>e. refines pl sw t (k (Inl e))" "\<And>h f. o_updateFS E h fs = Inr f \<Longrightarrow> refines pl sw t (k (Inr f))"
  shows "refines pl sw t (updateFS E fs \<bind> k)"
  unfolding refines_def updateFS_def
proof (rule tspec_bind_call)
  fix h
  show "tspec (k (o_updateFS E h fs)) (\<lambda>x cs. steps pl sw t (UpdateFS fs (o_updateFS E h fs) # cs))"
    using assms(1) assms(2) [of h] by (cases "o_updateFS E h fs") (auto simp: refines_def)
qed

lemma refines_saveStatus: "pipeline pl t (fs_Transition fs) \<Longrightarrow> refines pl sw t (saveStatus E fs ok)"
  unfolding saveStatus_def by (rule refines_updateFSStatus) simp_all

lemma refines_saveIgnoring: "pipeline pl t (fs_Transition fs) \<Longrightarrow> refines pl sw t (saveIgnoring E fs ok)"
  unfolding saveIgnoring_def by (rule refines_updateFSStatus) simp_all

lemma refines_saveTransition: "pipeline pl t (Some tr) \<Longrightarrow> refines pl sw t (saveTransition E fs tr ok)"
  unfolding saveTransition_def by (rule refines_saveStatus) simp

text \<open>A program that may settle the matter itself: when it leaves it open, it made no write and \<open>P\<close> holds.\<close>

definition handles :: "plan \<Rightarrow> bool \<Rightarrow> TransitionStatus option \<Rightarrow> bool \<Rightarrow> 'a option io \<Rightarrow> bool" where
  "handles pl sw t P m \<longleftrightarrow> tspec m (\<lambda>h cs. steps pl sw t cs \<and> (h = None \<longrightarrow> P \<and> (\<forall>e \<in> set cs. quiet e)))"

lemma handles_ret: "P \<Longrightarrow> handles pl sw t P (ret None)"
  by (simp add: handles_def tspec_ret)

lemma handles_bind:
  assumes "eff quiet m Q" "\<And>a. Q a \<Longrightarrow> handles pl sw t P (k a)"
  shows "handles pl sw t P (m \<bind> k)"
  unfolding handles_def
proof (rule tspec_bind [OF tspec_eff [OF assms(1)]], goal_cases)
  case (1 a cs)
  then show ?case
    by (intro tspec_weaken [OF assms(2) [unfolded handles_def, of a]]) (auto simp: steps_quiet)
qed

lemma handles_if:
  "(b \<Longrightarrow> handles pl sw t P m) \<Longrightarrow> (\<not> b \<Longrightarrow> handles pl sw t P n) \<Longrightarrow> handles pl sw t P (if b then m else n)"
  by simp

lemma handles_reply: "refines pl sw t m \<Longrightarrow> handles pl sw t P (m \<bind> (\<lambda>reply. ret (Some reply)))"
  unfolding handles_def refines_def by (erule tspec_bind) (auto intro: tspec_ret)

lemma handled_or:
  assumes "handles pl sw t P m" "handles pl sw t P n"
  shows "handles pl sw t P (m \<bind> (\<lambda>h. case h of Some x \<Rightarrow> ret (Some x) | None \<Rightarrow> n))"
  unfolding handles_def
proof (rule tspec_bind [OF assms(1) [unfolded handles_def]], goal_cases)
  case (1 a cs)
  show ?case
  proof (cases a)
    case None
    show ?thesis
      unfolding None option.case
      by (intro tspec_weaken [OF assms(2) [unfolded handles_def]]) (use 1 None in \<open>auto simp: steps_quiet\<close>)
  qed (use 1 in \<open>auto intro: tspec_ret\<close>)
qed

lemma refines_handled:
  assumes "handles pl sw t P m" "P \<Longrightarrow> refines pl sw t n"
  shows "refines pl sw t (m \<bind> (\<lambda>h. case h of Some reply \<Rightarrow> ret reply | None \<Rightarrow> n))"
  unfolding refines_def
proof (rule tspec_bind [OF assms(1) [unfolded handles_def]], goal_cases)
  case (1 a cs)
  then show ?case
    using assms(2) by (cases a) (auto simp: refines_def steps_quiet intro: tspec_ret)
qed

section \<open>The reconciler refines the phase machine\<close>

text \<open>A change of \<^verbatim>\<open>spec.failoverActive\<close> that no transition has carried out, and the states in which the
  managed objects may be touched: no transition and none pending, or the phase that switches.\<close>

definition pending :: "FailoverService \<Rightarrow> bool" where
  "pending fs \<longleftrightarrow> st_LastKnownFailoverActive (fs_Status fs) \<noteq> None \<and>
     st_LastKnownFailoverActive (fs_Status fs) \<noteq> Some (sp_FailoverActive (fs_Spec fs))"

definition may_switch :: "FailoverService \<Rightarrow> bool" where
  "may_switch fs \<longleftrightarrow> idle (fs_Transition fs) \<and> \<not> pending fs \<or>
     (\<exists>tr. fs_Transition fs = Some tr \<and> tr_Phase tr = PhaseUpdatingResources)"

text \<open>The number of actions the specification asks for.\<close>

definition planOf :: "Reconciler \<Rightarrow> FailoverService \<Rightarrow> plan" where
  "planOf r fs direction isPre = length (case getTransitionHooks r fs direction of None \<Rightarrow> []
     | Some h \<Rightarrow> if isPre then ta_PreActions h else ta_PostActions h)"

text \<open>Documented behaviour of the API server: the status is a subresource and updates are checked against
  the resource version, so a successful update of the specification answers with the status that is
  stored, which is still the one that was read.\<close>

definition spec_update_keeps :: "env \<Rightarrow> FailoverService \<Rightarrow> bool" where
  "spec_update_keeps E fs \<longleftrightarrow> (\<forall>h f f'. o_updateFS E h f = Inr f' \<longrightarrow> fs_Transition f' = fs_Transition fs)"

lemma newTransition_starts:
  "idle t \<Longrightarrow> d \<in> {directionFailover, directionFailback} \<Longrightarrow> pipeline pl t (Some (newTransition r fs d n))"
  by (rule start) (auto simp: newTransition_def Let_def makeActionResults_def split: prod.split option.split)

lemma beginTransition_refines: "idle t \<Longrightarrow> refines pl sw t (beginTransition E r fs trigger)"
  unfolding beginTransition_def Let_def
  by (intro refines_bind [OF quiet_calls(2)] refines_bind [OF quiet_calls(1)] refines_bind [OF updateClusterStatus_quiet]
      refines_updateFSStatus)
    (auto dest!: same_objectD(3) intro: newTransition_starts refines_bind [OF createFailoverEvent_quiet]
      split: option.split)

lemma finishTransition_refines: "pipeline pl t (fs_Transition fs) \<Longrightarrow> refines pl sw t (finishTransition E fs tr)"
  unfolding finishTransition_def
  by (intro refines_updateFSStatus) (auto intro: refines_bind [OF updateFailoverEvent_quiet])

lemma remoteWonAfterTransition_refines:
  "pipeline pl t None \<Longrightarrow> refines pl sw t (remoteWonAfterTransition E r fs tr b rs)"
  unfolding remoteWonAfterTransition_def Let_def
  by (intro refines_updateFS; simp?; intro refines_bind [OF updateClusterStatus_quiet] refines_updateFSStatus)
    (auto dest!: same_objectD(3) intro!: refines_bind [OF updateFailoverEvent_quiet] intro: beginTransition_refines)

lemma recordSteadyState_refines: "idle (fs_Transition fs) \<Longrightarrow> t = fs_Transition fs \<Longrightarrow> refines pl sw t (recordSteadyState E r fs)"
  unfolding recordSteadyState_def
  by (intro refines_bind [OF updateClusterStatus_quiet] refines_bind [OF quiet_helpers(4)] refines_saveStatus)
    (auto dest!: same_objectD(3) intro: stay)

lemma applyRemoteWinnerState_transition [simp]: "fs_Transition (applyRemoteWinnerState fs rs b) = fs_Transition fs"
  by (simp add: applyRemoteWinnerState_def)

lemma remoteWonSteady_refines:
  assumes "idle t" "\<And>h f f'. o_updateFS E h f = Inr f' \<Longrightarrow> fs_Transition f' = t"
  shows "refines pl sw t (remoteWonSteady E r fs b rs)"
  unfolding remoteWonSteady_def
  by (intro refines_updateFS; simp?; intro refines_bind [OF updateClusterStatus_quiet] refines_updateFSStatus)
    (use assms in \<open>auto dest!: same_objectD(3) intro: beginTransition_refines stay\<close>)

context sound_reconciler
begin

lemma cleanupJobs_quiet: "rec_ActionExecutor r = Some m \<Longrightarrow> emits quiet (cleanupJobs E m ns l)"
  by (induction l) (auto intro!: eff_ret eff_bind [OF cleanup_quiet])

lemma cleanupTransitionJobs_quiet: "emits quiet (cleanupTransitionJobs E r fs tr)"
  unfolding cleanupTransitionJobs_def by (intro eff_case_option eff_ret cleanupJobs_quiet) simp_all

lemma completeTransition_refines:
  assumes "pipeline pl t None" "fs_Transition fs = Some tr"
  shows "refines pl sw t (completeTransition E r fs)"
proof -
  have duration: "emits quiet (case tr_StartedAt tr of None \<Rightarrow> ret () | Some s \<Rightarrow>
      do { n \<leftarrow> now E; emit (TransitionDuration (fs_Name fs) (fs_Namespace fs) (tr_TargetDirection tr) (n - s)) })"
    by (intro eff_case_option eff_ret eff_bind [OF quiet_calls(1)] quiet_calls) simp
  have cleared: "fs_Transition (completedStatus E r tr n fs) = None" for n
    by (simp add: completedStatus_def)
  show ?thesis
    unfolding completeTransition_def Let_def assms(2) option.case
    apply (intro refines_bind [OF duration] refines_bind [OF cleanupTransitionJobs_quiet] refines_bind [OF quiet_helpers(9)]
        refines_bind [OF quiet_helpers(4)] refines_bind [OF quiet_calls(1)] refines_bind [OF updateClusterStatus_quiet])
    apply (cases "rec_Syncer r")
     apply (auto dest!: same_objectD(3) simp: cleared assms(1) intro!: finishTransition_refines refines_bind [OF sync_quiet]
        refines_bind [OF syncFailed_quiet] refines_bind [OF syncSucceeded_quiet] remoteWonAfterTransition_refines split: sum.split)
    done
qed

lemma reconcileSteadyState_refines:
  assumes "idle (fs_Transition fs)" "spec_update_keeps E fs0" "fs_Transition fs = fs_Transition fs0"
  shows "refines pl sw (fs_Transition fs0) (reconcileSteadyState E r fs)"
proof -
  have won: "refines pl sw (fs_Transition fs0) (remoteWonSteady E r f b rs)" for f b rs
    by (rule remoteWonSteady_refines) (use assms in \<open>auto simp: spec_update_keeps_def\<close>)
  show ?thesis
    unfolding reconcileSteadyState_def Let_def
    by (cases "rec_Syncer r")
      (use assms in \<open>auto dest!: same_objectD(3) intro!: recordSteadyState_refines refines_bind [OF sync_quiet]
        refines_bind [OF syncFailed_quiet] refines_bind [OF syncSucceeded_quiet] won split: sum.split\<close>)
qed

end

text \<open>The action phases.  \<open>tr\<close> is the transition with its index made non-negative.\<close>

definition actionPhase :: "bool \<Rightarrow> FailoverPhase" where
  "actionPhase isPre = (if isPre then PhaseExecutingPreActions else PhaseExecutingPostActions)"

definition normIndex :: "TransitionStatus \<Rightarrow> TransitionStatus" where
  "normIndex tr = tr\<lparr>tr_CurrentActionIndex := int (atIndex tr)\<rparr>"

lemma normIndex_eq: "(if tr_CurrentActionIndex tr < 0 then tr\<lparr>tr_CurrentActionIndex := 0\<rparr> else tr) = normIndex tr"
  by (simp add: normIndex_def atIndex_def)

lemma normIndex_simps [simp]:
  "tr_CurrentActionIndex (normIndex tr) = int (atIndex tr)" "tr_Phase (normIndex tr) = tr_Phase tr"
  "phaseResults isPre (normIndex tr) = phaseResults isPre tr" "atIndex (normIndex tr) = atIndex tr"
  "tr_TargetDirection (normIndex tr) = tr_TargetDirection tr"
  by (simp_all add: normIndex_def phaseResults_def atIndex_def)

lemma storeResult_same:
  "storeResult isPre i (phaseResults isPre tr ! i) tr = tr"
  by (simp add: storeResult_def phaseResults_def)

lemma action_steps:
  assumes "tr_Phase tr = actionPhase isPre" "atIndex tr < length (phaseResults isPre tr)"
  shows "status_step (currentStatus isPre tr) (ar_Status res) \<Longrightarrow>
      pipeline pl (Some tr) (Some (storeResult isPre (atIndex tr) res (normIndex tr)))"
    and "passed res \<Longrightarrow> status_step (currentStatus isPre tr) (ar_Status res) \<Longrightarrow>
      pipeline pl (Some tr) (Some (incrIndex (storeResult isPre (atIndex tr) res (normIndex tr))))"
    and "pipeline pl (Some tr) (Some (normIndex tr))"
    and "passed (phaseResults isPre tr ! atIndex tr) \<Longrightarrow> pipeline pl (Some tr) (Some (incrIndex (normIndex tr)))"
proof -
  have step: "action_step isPre tr tr' \<Longrightarrow> pipeline pl (Some tr) (Some tr')" for tr'
    using assms(1) by (cases isPre) (auto simp: actionPhase_def intro: pre_action post_action)
  show rec: "status_step (currentStatus isPre tr) (ar_Status res) \<Longrightarrow>
      pipeline pl (Some tr) (Some (storeResult isPre (atIndex tr) res (normIndex tr)))" for res
    unfolding normIndex_def by (intro step action_step.intros assms)
  show adv: "passed res \<Longrightarrow> status_step (currentStatus isPre tr) (ar_Status res) \<Longrightarrow>
      pipeline pl (Some tr) (Some (incrIndex (storeResult isPre (atIndex tr) res (normIndex tr))))" for res
    unfolding normIndex_def by (intro step action_step.intros assms)
  have same: "storeResult isPre (atIndex tr) (phaseResults isPre tr ! atIndex tr) (normIndex tr) = normIndex tr"
    using storeResult_same [of isPre "atIndex tr" "normIndex tr"] by simp
  show "pipeline pl (Some tr) (Some (normIndex tr))"
    using rec [of "phaseResults isPre tr ! atIndex tr"] by (simp add: same status_step_def)
  show "passed (phaseResults isPre tr ! atIndex tr) \<Longrightarrow> pipeline pl (Some tr) (Some (incrIndex (normIndex tr)))"
    using adv [of "phaseResults isPre tr ! atIndex tr"] by (simp add: same status_step_def)
qed

lemma checkActionTimeout_handles:
  assumes "tr_Phase tr = actionPhase isPre" "atIndex tr < length (phaseResults isPre tr)" "underway (currentStatus isPre tr)"
  shows "handles pl sw (Some tr) (underway (currentStatus isPre tr))
    (checkActionTimeout E fs isPre a res (normIndex tr) limit what)"
proof (cases "(limit, ar_StartedAt res)" rule: prod.exhaust)
  case (Pair l s)
  show ?thesis
    unfolding checkActionTimeout_def Pair case_prod_conv
    by (cases l; cases s)
      (auto intro!: handles_bind [OF quiet_helpers(1)] handles_bind [OF quiet_calls(1)] handles_bind [OF quiet_helpers(2)]
        handles_reply refines_saveTransition action_steps handles_ret assms simp: status_step_def)
qed

lemma handleActionState_handles:
  assumes "tr_Phase tr = actionPhase isPre" "atIndex tr < length (phaseResults isPre tr)"
    and "res = phaseResults isPre tr ! atIndex tr" "fs_Transition fs = Some (normIndex tr)"
  shows "handles pl sw (Some tr) (underway (ar_Status res)) (handleActionState E fs isPre a res (normIndex tr))"
proof -
  have skipped: "passed (res\<lparr>ar_Status := ActionStatusSkipped, ar_CompletedAt := c\<rparr>)" for c
    by (simp add: passed_def)
  note steps = action_steps [OF assms(1,2)]
  show ?thesis
    unfolding handleActionState_def Let_def normIndex_simps nat_int
  proof (intro handles_if, goal_cases)
    case 1
    then show ?case by (intro handles_reply refines_saveTransition steps) (simp add: passed_def assms(3))
  next
    case 2
    then show ?case
      by (intro handles_bind [OF quiet_calls(1)] handles_reply refines_saveTransition steps skipped)
        (simp add: status_step_def assms(3))
  next
    case 3
    show ?case
      by (intro handles_bind [OF updateFailoverEvent_quiet] handles_bind [OF setConditionNow_quiet] handles_reply
          refines_saveStatus) (auto dest!: same_objectD(3) simp: assms(4) intro: steps)
  next
    case 4
    then show ?case
      by (intro handles_bind [OF quiet_calls(1)] handles_reply refines_saveTransition steps)
        (simp add: status_step_def assms(3))
  next
    case 5
    then have "underway (currentStatus isPre tr)" by (simp add: underway_def assms(3))
    from checkActionTimeout_handles [OF assms(1,2) this] show ?case
      unfolding assms(3) by (intro handled_or)
  qed
qed

lemma actionErrored_refines:
  assumes "tr_Phase tr = actionPhase isPre" "atIndex tr < length (phaseResults isPre tr)"
    and "res = phaseResults isPre tr ! atIndex tr" "underway (ar_Status res)"
  shows "refines pl sw (Some tr) (actionErrored E fs isPre a res (normIndex tr) err)"
  unfolding actionErrored_def Let_def normIndex_simps nat_int
  using assms(4)
  by (auto intro!: refines_bind [OF quiet_calls(1)] refines_bind [OF quiet_helpers(2)] refines_saveTransition
      action_steps assms(1,2) simp: status_step_def assms(3))

lemma actionCompleted_refines:
  assumes "tr_Phase tr = actionPhase isPre" "atIndex tr < length (phaseResults isPre tr)"
    and "res = phaseResults isPre tr ! atIndex tr" "underway (ar_Status res)"
  shows "refines pl sw (Some tr) (actionCompleted E fs isPre a res (normIndex tr) x)"
proof -
  have success: "emits quiet (case ar_StartedAt res of None \<Rightarrow> ret () | Some s \<Rightarrow> do {
      emit (ActionExecutionDuration (fs_Name fs) (fs_Namespace fs) (fa_Name a) (actionType a) (n - s));
      countAction fs a ''success'' })" for n
    by (intro eff_case_option eff_ret eff_bind [OF quiet_calls(2)] quiet_helpers) simp
  have failure: "emits quiet (case ar_StartedAt res of None \<Rightarrow> ret () | Some s \<Rightarrow> countAction fs a ''failure'')"
    by (intro eff_case_option eff_ret quiet_helpers) simp
  show ?thesis
    unfolding actionCompleted_def Let_def normIndex_simps nat_int
    using assms(4)
    by (auto intro!: refines_bind [OF quiet_calls(1)] refines_bind [OF success] refines_bind [OF failure]
        refines_saveTransition action_steps assms(1,2) simp: passed_def status_step_def assms(3) [symmetric])
qed

lemma steps_service: "\<forall>e \<in> set cs. is_service_entry e \<Longrightarrow> steps pl True t (cs @ ds) = steps pl True t ds"
proof (induction cs)
  case (Cons e cs)
  then show ?case by (cases e) simp_all
qed simp

lemma refines_service: "(\<And>x. refines pl True t (k x)) \<Longrightarrow> refines pl True t (ReconcileWithAddress E fs a \<bind> k)"
  unfolding refines_def
  by (rule tspec_bind [OF tspec_eff [OF ReconcileWithAddress_confined]]) (auto simp: steps_service)

lemma reconcileUpdatingResources_refines:
  assumes "fs_Transition fs = Some tr" "tr_Phase tr = PhaseUpdatingResources"
  shows "refines pl True (Some tr) (reconcileUpdatingResources E r fs)"
  unfolding reconcileUpdatingResources_def Let_def assms(1) option.case
proof (rule refines_service)
    fix e
    show "refines pl True (Some tr) (case e of Some err \<Rightarrow> do { serviceFailed fs; ret (Inr (requeueAfter defaultBackoffMin)) }
      | None \<Rightarrow> do {
          fs1 \<leftarrow> setConditionNow E ConditionServiceReady True ''Reconciled'' ''Service is correctly configured'' fs;
          fs2 \<leftarrow> updateClusterStatus E r (setTransition (Some (tr\<lparr>tr_Phase := PhaseFlushingConnections,
            tr_CurrentActionIndex := 0\<rparr>)) fs1) PhaseFlushingConnections;
          saveStatus E fs2 requeue })"
      using switched [OF assms(2)]
      by (cases e) (auto intro!: refines_bind [OF quiet_helpers(3)] refines_bind [OF setConditionNow_quiet]
          refines_bind [OF updateClusterStatus_quiet] refines_saveStatus dest!: same_objectD(3))
qed

lemma handleForceAdvance_quiet: "emits quiet (handleForceAdvance E fs)"
proof -
  have act: "emits quiet (forceAdvanceActionPhase E tr isPre)" for tr isPre
    unfolding forceAdvanceActionPhase_def Let_def by (intro eff_if eff_bind [OF quiet_calls(1)] eff_ret) simp_all
  have skip: "emits quiet (if tr_Phase tr = PhaseExecutingPreActions then forceAdvanceActionPhase E tr True
            else if tr_Phase tr = PhaseExecutingPostActions then forceAdvanceActionPhase E tr False
            else if tr_Phase tr = PhaseUpdatingResources
            then ret (tr\<lparr>tr_Phase := PhaseFlushingConnections, tr_CurrentActionIndex := 0\<rparr>)
            else if tr_Phase tr = PhaseFlushingConnections
            then ret (tr\<lparr>tr_Phase := PhaseExecutingPostActions, tr_CurrentActionIndex := 0\<rparr>)
            else ret tr)" for tr
    by (intro eff_if act eff_ret TrueI)
  show ?thesis
    unfolding handleForceAdvance_def
    by (intro eff_case_option eff_ret eff_bind [OF updateFailoverEvent_quiet] eff_bind [OF skip]) simp_all
qed

context sound_reconciler
begin

lemma runAction_refines:
  assumes "tr_Phase tr = actionPhase isPre" "atIndex tr < length (phaseResults isPre tr)"
    and "res = phaseResults isPre tr ! atIndex tr" "underway (ar_Status res)"
  shows "refines pl sw (Some tr) (runAction E r fs isPre a res (normIndex tr))"
  unfolding runAction_def
  by (cases "rec_ActionExecutor r")
    (auto intro!: refines_bind [OF exec_quiet] actionErrored_refines actionCompleted_refines assms split: sum.split)

lemma endActionPhase_refines:
  assumes "tr_Phase tr = actionPhase isPre" "behind pl isPre tr"
  shows "refines pl sw (Some tr) (endActionPhase E r fs (normIndex tr) isPre)"
proof (cases isPre)
  case True
  have "pipeline pl (Some tr) (Some (tr\<lparr>tr_Phase := PhaseUpdatingResources, tr_CurrentActionIndex := 0\<rparr>))"
    using assms True by (auto intro: pre_done simp: actionPhase_def)
  then show ?thesis
    unfolding endActionPhase_def if_P [OF True]
    by (intro refines_bind [OF updateClusterStatus_quiet] refines_saveStatus) (auto dest!: same_objectD(3) simp: normIndex_def)
next
  case False
  then show ?thesis
    using assms unfolding endActionPhase_def
    by (auto intro!: completeTransition_refines intro: finish_post simp: actionPhase_def)
qed

lemma executeActionPhase_refines:
  assumes "fs_Transition fs = Some tr" "tr_Phase tr = actionPhase isPre"
  shows "refines (planOf r fs) sw (Some tr) (executeActionPhase E r fs isPre)"
proof -
  have "behind (planOf r fs) isPre tr"
    if "length (phaseResults isPre tr) \<le> atIndex tr \<or> length (phaseActions r fs tr isPre) \<le> atIndex tr"
    using that by (simp add: behind_def planOf_def phaseActions_def)
  then show ?thesis
    unfolding executeActionPhase_def assms(1) option.case Let_def normIndex_eq
    by (auto intro!: endActionPhase_refines assms(2) refines_handled [OF handleActionState_handles] runAction_refines
        simp: phaseActions_def)
qed

lemma advanceAfterFlush_refines:
  assumes "tr_Phase tr = PhaseFlushingConnections" "fs_Spec f = fs_Spec fs"
  shows "refines (planOf r fs) sw (Some tr) (advanceAfterFlush E r f (tr\<lparr>tr_ConnectionKill := ck\<rparr>))"
proof -
  have hooks: "getTransitionHooks r f d = getTransitionHooks r fs d" for d
    by (simp add: getTransitionHooks_def localTarget_def assms(2))
  have "refines (planOf r fs) sw (Some tr) (completeTransition E r (setTransition (Some (tr\<lparr>tr_ConnectionKill := ck\<rparr>)) f))"
    if "planOf r fs (tr_TargetDirection tr) False = 0"
    by (rule completeTransition_refines [OF finish_flush]) (use assms that in auto)
  moreover have "planOf r fs (tr_TargetDirection tr) False =
      (case getTransitionHooks r fs (tr_TargetDirection tr) of None \<Rightarrow> 0 | Some h \<Rightarrow> length (ta_PostActions h))"
    by (simp add: planOf_def split: option.split)
  ultimately show ?thesis
    unfolding advanceAfterFlush_def
    using flushed [OF assms(1), of "planOf r fs" ck]
    by (auto intro!: refines_bind [OF updateClusterStatus_quiet] refines_saveStatus dest!: same_objectD(3)
        simp: hooks split: option.split)
qed

lemma flush_refines:
  assumes "fs_Transition fs = Some tr" "tr_Phase tr = PhaseFlushingConnections"
  shows "refines (planOf r fs) sw (Some tr) (skipFlush E r fs tr)" (is ?skip)
    and "refines (planOf r fs) sw (Some tr) (flushSignal E r sg fs tr ip)" (is ?signal)
    and "refines (planOf r fs) sw (Some tr) (flushPoll E r sg fs tr ck ip)" (is ?poll)
proof -
  note step = flush [OF assms(2)] and adv = advanceAfterFlush_refines [OF assms(2)]
  have stay: "pipeline pl (Some tr) (Some tr)" for pl using step [of pl "tr_ConnectionKill tr"] by simp
  have stay_adv: "fs_Spec f = fs_Spec fs \<Longrightarrow> refines (planOf r fs) sw (Some tr) (advanceAfterFlush E r f tr)" for f
    using adv [where ck = "tr_ConnectionKill tr"] by simp
  show ?skip
    unfolding skipFlush_def by (intro refines_bind [OF setConditionNow_quiet] stay_adv) (rule same_objectD)
  show ?signal
    unfolding flushSignal_def Let_def
    by (intro refines_bind [OF quiet_calls(1)] refines_bind [OF quiet_helpers(6)])
      (auto intro!: refines_bind [OF quiet_calls(1)] refines_bind [OF quiet_calls(2)] refines_bind [OF setConditionNow_quiet]
        refines_bind [OF updateClusterStatus_quiet] refines_saveIgnoring adv step stay dest: same_objectD
        simp: assms(1) same_objectD split: sum.split)
  have halt: "refines (planOf r fs) sw (Some tr) (haltOnAckTimeout E f msg)" if "pipeline (planOf r fs) (Some tr) (fs_Transition f)" for f msg
    unfolding haltOnAckTimeout_def
    using that by (intro refines_bind [OF setConditionNow_quiet] refines_updateFSStatus) (auto dest!: same_objectD(3))
  show ?poll
    unfolding flushPoll_def Let_def
    by (intro refines_bind [OF quiet_helpers(7)])
      (auto intro!: refines_bind [OF quiet_helpers(5)] refines_bind [OF quiet_calls(2)] refines_bind [OF setConditionNow_quiet]
        refines_saveIgnoring halt adv step stay dest: same_objectD simp: assms(1) split: sum.split)
qed

lemma reconcileFlushingConnections_refines:
  assumes "fs_Transition fs = Some tr" "tr_Phase tr = PhaseFlushingConnections"
  shows "refines (planOf r fs) sw (Some tr) (reconcileFlushingConnections E r fs)"
  unfolding reconcileFlushingConnections_def assms(1) option.case Let_def
  using flush_refines [OF assms] by (auto split: option.split)

end

context sound_reconciler
begin

lemma reconcileIdle_refines:
  assumes "idle (fs_Transition fs)" "spec_update_keeps E fs"
  shows "refines pl (\<not> pending fs) (fs_Transition fs) (reconcileIdle E r fs)"
proof -
  have begin_it: "refines pl False (fs_Transition fs) (now E \<bind> (\<lambda>n. beginTransition E r
      (setStatus (\<lambda>s. s\<lparr>st_SpecChangeTime := Some n\<rparr>) fs) triggerManual))"
    by (intro refines_bind [OF quiet_calls(1)] beginTransition_refines assms)
  show ?thesis
    unfolding reconcileIdle_def pending_def [symmetric] ServiceReconcile_def ReconcileWithDirection_def Let_def
    by (auto intro!: begin_it refines_service refines_bind [OF quiet_helpers(3)] refines_bind [OF setConditionNow_quiet]
        refines_saveIgnoring reconcileSteadyState_refines stay dest!: same_objectD(3) simp: assms split: option.split)
qed

lemma reconcileUnknownPhase_refines:
  assumes "PhaseOrder (tr_Phase tr) < 0"
  shows "refines pl sw (Some tr) (reconcileUnknownPhase E r fs p)"
  unfolding reconcileUnknownPhase_def
  by (auto intro!: refines_bind [OF setConditionNow_quiet] refines_bind [OF updateClusterStatus_quiet] refines_saveStatus
      reset assms dest!: same_objectD(3))

lemma dispatchPhase_refines:
  assumes "spec_update_keeps E fs"
  shows "refines (planOf r fs) (may_switch fs) (fs_Transition fs) (dispatchPhase E r fs)"
proof (cases "fs_Transition fs")
  case None
  then show ?thesis
    using reconcileIdle_refines [OF _ assms, of "planOf r fs"] by (simp add: dispatchPhase_def may_switch_def)
next
  case (Some tr)
  have unknown: "tr_Phase tr \<noteq> PhaseIdle \<Longrightarrow> tr_Phase tr \<noteq> PhaseExecutingPreActions \<Longrightarrow>
      tr_Phase tr \<noteq> PhaseUpdatingResources \<Longrightarrow> tr_Phase tr \<noteq> PhaseFlushingConnections \<Longrightarrow>
      tr_Phase tr \<noteq> PhaseExecutingPostActions \<Longrightarrow> PhaseOrder (tr_Phase tr) < 0"
    by (simp add: PhaseOrder_def)
  have acting: "tr_Phase tr = PhaseExecutingPreActions \<Longrightarrow> refines (planOf r fs) sw (Some tr) (executeActionPhase E r fs True)"
    "tr_Phase tr = PhaseExecutingPostActions \<Longrightarrow> refines (planOf r fs) sw (Some tr) (executeActionPhase E r fs False)" for sw
    by (auto intro!: executeActionPhase_refines [OF Some] simp: actionPhase_def)
  show ?thesis
    using reconcileIdle_refines [OF _ assms, of "planOf r fs"] reconcileUpdatingResources_refines [OF Some]
      reconcileFlushingConnections_refines [OF Some] reconcileUnknownPhase_refines [OF unknown] acting
    by (auto simp: dispatchPhase_def Some may_switch_def Let_def)
qed

end

section \<open>Invariants of the phase machine\<close>

text \<open>Before the current index every pre-action has passed, and once the pre-action phase is left all
  of them have, provided that the specification still has as many actions as the transition started with.\<close>

definition pre_passed :: "plan \<Rightarrow> TransitionStatus option \<Rightarrow> bool" where
  "pre_passed pl t \<longleftrightarrow> (\<forall>tr. t = Some tr \<longrightarrow>
     (tr_Phase tr = PhaseExecutingPreActions \<longrightarrow>
        (\<forall>i < atIndex tr. i < length (tr_PreActionResults tr) \<longrightarrow> passed (tr_PreActionResults tr ! i))) \<and>
     (PhaseOrder (tr_Phase tr) \<ge> 2 \<and> length (tr_PreActionResults tr) \<le> pl (tr_TargetDirection tr) True \<longrightarrow>
        (\<forall>res \<in> set (tr_PreActionResults tr). passed res)))"

text \<open>What a transition was started for.\<close>

definition identity :: "TransitionStatus \<Rightarrow> string \<times> string \<times> string \<times> string \<times> string \<times> time option \<times> nat \<times> nat" where
  "identity tr = (tr_TargetDirection tr, tr_OldAddressSnapshot tr, tr_NewAddressSnapshot tr, tr_TransitionID tr,
     tr_EventName tr, tr_StartedAt tr, length (tr_PreActionResults tr), length (tr_PostActionResults tr))"

lemma storeResult_simps [simp]:
  "tr_Phase (storeResult isPre i res tr) = tr_Phase tr"
  "tr_CurrentActionIndex (storeResult isPre i res tr) = tr_CurrentActionIndex tr"
  "tr_TargetDirection (storeResult isPre i res tr) = tr_TargetDirection tr"
  "identity (storeResult isPre i res tr) = identity tr"
  "tr_PreActionResults (storeResult isPre i res tr) =
     (if isPre then (tr_PreActionResults tr)[i := res] else tr_PreActionResults tr)"
  by (simp_all add: storeResult_def identity_def)

lemma incrIndex_simps [simp]:
  "tr_Phase (incrIndex tr) = tr_Phase tr" "identity (incrIndex tr) = identity tr"
  "tr_TargetDirection (incrIndex tr) = tr_TargetDirection tr"
  "tr_PreActionResults (incrIndex tr) = tr_PreActionResults tr"
  "identity (tr\<lparr>tr_CurrentActionIndex := i\<rparr>) = identity tr"
  "identity (tr\<lparr>tr_ConnectionKill := ck\<rparr>) = identity tr"
  "identity (tr\<lparr>tr_Phase := p\<rparr>) = identity tr"
  by (simp_all add: incrIndex_def identity_def)

lemma atIndex_incr:
  assumes "tr_CurrentActionIndex tr = int n"
  shows "atIndex (incrIndex tr) \<le> Suc n"
proof (cases "in_int64 (int n + 1)")
  case True
  then show ?thesis by (simp add: atIndex_def incrIndex_def assms wrap64_id)
next
  case False
  then have "2 ^ 63 \<le> int n + 1" by (simp add: in_int64_def)
  moreover have "wrap64 (int n + 1) < 2 ^ 63" using wrap64_in [of "int n + 1"] by (simp add: in_int64_def)
  ultimately show ?thesis by (simp add: atIndex_def incrIndex_def assms)
qed

lemma pre_passed_next:
  assumes "tr_Phase tr = PhaseExecutingPreActions" "pre_passed pl (Some tr)" "passed res"
  shows "pre_passed pl (Some (incrIndex (storeResult True (atIndex tr) res (tr\<lparr>tr_CurrentActionIndex := int (atIndex tr)\<rparr>))))"
proof -
  let ?s = "storeResult True (atIndex tr) res (tr\<lparr>tr_CurrentActionIndex := int (atIndex tr)\<rparr>)"
  have "passed ((tr_PreActionResults tr)[atIndex tr := res] ! i)"
    if "i < atIndex (incrIndex ?s)" "i < length (tr_PreActionResults tr)" for i
  proof (cases "i = atIndex tr")
    case False
    with atIndex_incr [of ?s "atIndex tr"] that have "i < atIndex tr" by simp
    with assms(1,2) that show ?thesis by (simp add: pre_passed_def)
  qed (use that assms(3) in simp)
  with assms(1) show ?thesis by (auto simp: pre_passed_def)
qed

lemma pre_passed_action:
  assumes "action_step True tr tr'" "tr_Phase tr = PhaseExecutingPreActions" "pre_passed pl (Some tr)"
  shows "pre_passed pl (Some tr')"
  using assms(1)
proof cases
  case (record_result res)
  then show ?thesis
    using assms(2,3) by (auto simp: pre_passed_def atIndex_def nth_list_update)
next
  case (next_action res)
  with assms(2,3) show ?thesis by (auto intro: pre_passed_next)
qed

lemma pipeline_pre_passed:
  assumes "pipeline pl t t'" "pre_passed pl t"
  shows "pre_passed pl t'"
  using assms(1)
proof cases
  case (start tr)
  then show ?thesis by (auto simp: pre_passed_def atIndex_def split: if_splits)
next
  case (pre_action tr tr')
  with assms(2) show ?thesis by (auto intro: pre_passed_action)
next
  case (pre_done tr)
  then show ?thesis
    using assms(2) by (auto simp: pre_passed_def behind_def phaseResults_def in_set_conv_nth)
next
  case (post_action tr tr')
  from post_action(4) assms(2) post_action(1-3) show ?thesis
    by cases (auto simp: pre_passed_def)
qed (use assms(2) in \<open>auto simp: pre_passed_def\<close>)

lemma pipeline_identity:
  assumes "pipeline pl (Some tr) (Some tr')" "tr_Phase tr \<noteq> PhaseIdle"
  shows "identity tr' = identity tr \<and> PhaseOrder (tr_Phase tr) \<le> PhaseOrder (tr_Phase tr') \<and>
    PhaseOrder (tr_Phase tr') \<le> PhaseOrder (tr_Phase tr) + 1 \<and> 0 < PhaseOrder (tr_Phase tr)"
  using assms(1)
proof cases
  case pre_action
  from pre_action(2) show ?thesis using pre_action(1) by cases auto
next
  case post_action
  from post_action(2) show ?thesis using post_action(1) by cases auto
qed (use assms(2) in auto)

lemma steps_invariant:
  assumes "steps pl sw t cs" "I t" "\<And>t t'. pipeline pl t t' \<Longrightarrow> I t \<Longrightarrow> I t'" "UpdateFSStatus f x \<in> set cs"
  shows "I (fs_Transition f)"
  using assms(1,2,4)
proof (induction cs arbitrary: t sw)
  case (Cons e cs)
  show ?case
  proof (cases e)
    case (UpdateFSStatus g y)
    with Cons show ?thesis by (cases y) (auto dest: assms(3))
  qed (use Cons in auto)
qed simp

lemma steps_service_allowed: "steps pl sw t cs \<Longrightarrow> e \<in> set cs \<Longrightarrow> is_service_entry e \<Longrightarrow> sw"
proof (induction cs arbitrary: t sw)
  case (Cons d cs)
  show ?case
  proof (cases d)
    case (UpdateFSStatus g y)
    with Cons.prems obtain t' where "steps pl False t' cs" "e \<in> set cs" by (cases y) auto
    with Cons.IH [of False t'] Cons.prems(3) show ?thesis by simp
  qed (use Cons in auto)
qed simp

lemma steps_identity:
  assumes "steps pl sw (Some tr) cs" "0 < PhaseOrder (tr_Phase tr)" "UpdateFSStatus f x \<in> set cs" "fs_Transition f = Some tr'"
  shows "identity tr' = identity tr \<and> PhaseOrder (tr_Phase tr) \<le> PhaseOrder (tr_Phase tr') \<or>
    (\<exists>g y. UpdateFSStatus g y \<in> set cs \<and> fs_Transition g = None)"
  using assms(1,2,3)
proof (induction cs arbitrary: tr sw)
  case (Cons e cs)
  show ?case
  proof (cases e)
    case (UpdateFSStatus g y)
    show ?thesis
    proof (cases "fs_Transition g")
      case (Some tr1)
      have nonidle: "tr_Phase tr \<noteq> PhaseIdle" using Cons.prems(2) by auto
      have "pipeline pl (Some tr) (Some tr1)"
        using Cons.prems(1) UpdateFSStatus Some by (cases y) auto
      note step = pipeline_identity [OF this nonidle]
      have "steps pl False (Some tr) cs \<or> steps pl False (Some tr1) cs"
        using Cons.prems(1) UpdateFSStatus Some by (cases y) auto
      then show ?thesis
        using Cons.IH [of _ tr] Cons.IH [of _ tr1] Cons.prems(2,3) UpdateFSStatus Some step assms(4) by fastforce
    qed (use UpdateFSStatus in auto)
  qed (use Cons in auto)
qed simp

text \<open>A status write that clears the transition.\<close>

lemma pipeline_clears:
  assumes "pipeline pl (Some tr) None"
  shows "(tr_Phase tr = PhaseFlushingConnections \<and> pl (tr_TargetDirection tr) False = 0) \<or>
    (tr_Phase tr = PhaseExecutingPostActions \<and> behind pl False tr) \<or> PhaseOrder (tr_Phase tr) < 0"
  using assms by cases auto

section \<open>Progress\<close>

text \<open>A status write that moves a transition on: another phase, another index or another status of an action.\<close>

definition statuses :: "TransitionStatus \<Rightarrow> string list" where
  "statuses tr = map ar_Status (tr_PreActionResults tr @ tr_PostActionResults tr)"

definition moved :: "TransitionStatus \<Rightarrow> TransitionStatus \<Rightarrow> bool" where
  "moved tr tr' \<longleftrightarrow> tr_Phase tr' \<noteq> tr_Phase tr \<or> atIndex tr' \<noteq> atIndex tr \<or> statuses tr' \<noteq> statuses tr"

text \<open>How far an action still has to go, and how far a transition has: the phases left, the actions left in
  the phase, and the current action.\<close>

definition status_rank :: "string \<Rightarrow> nat" where
  "status_rank s = (if s = ActionStatusPending then 3 else if underway s then 2 else if s = ActionStatusFailed then 1 else 0)"

definition actions_left :: "TransitionStatus \<Rightarrow> nat" where
  "actions_left tr = (if tr_Phase tr = PhaseExecutingPreActions then length (tr_PreActionResults tr) - atIndex tr
     else if tr_Phase tr = PhaseExecutingPostActions then length (tr_PostActionResults tr) - atIndex tr else 0)"

definition current_rank :: "TransitionStatus \<Rightarrow> nat" where
  "current_rank tr = (if tr_Phase tr = PhaseExecutingPreActions then status_rank (currentStatus True tr)
     else if tr_Phase tr = PhaseExecutingPostActions then status_rank (currentStatus False tr) else 0)"

abbreviation distance :: "(TransitionStatus \<times> TransitionStatus) set" where
  "distance \<equiv> measures [\<lambda>tr. nat (5 - PhaseOrder (tr_Phase tr)), actions_left, current_rank]"

definition indexable :: "TransitionStatus \<Rightarrow> bool" where
  "indexable tr \<longleftrightarrow> int (length (tr_PreActionResults tr)) < 2 ^ 63 \<and> int (length (tr_PostActionResults tr)) < 2 ^ 63"

lemma action_statuses_distinct [simp]:
  "ActionStatusRunning \<noteq> ActionStatusPending" "ActionStatusRunning \<noteq> ActionStatusSucceeded"
  "ActionStatusRunning \<noteq> ActionStatusFailed" "ActionStatusRunning \<noteq> ActionStatusSkipped"
  "ActionStatusFailed \<noteq> ActionStatusPending" "ActionStatusSkipped \<noteq> ActionStatusPending"
  "ActionStatusSkipped \<noteq> ActionStatusFailed" "ActionStatusSucceeded \<noteq> ActionStatusPending"
  "ActionStatusSucceeded \<noteq> ActionStatusFailed"
  by (simp_all add: ActionStatusRunning_def ActionStatusPending_def ActionStatusSucceeded_def ActionStatusFailed_def
      ActionStatusSkipped_def)

lemma status_step_rank: "status_step s s' \<Longrightarrow> s' \<noteq> s \<Longrightarrow> status_rank s' < status_rank s"
  by (auto simp: status_step_def status_rank_def underway_def)

lemma atIndex_next:
  assumes "int n < 2 ^ 63" "i < n" "tr_CurrentActionIndex tr = int i"
  shows "atIndex (incrIndex tr) = Suc i"
proof -
  have "in_int64 (int i + 1)" using assms(1,2) by (simp add: in_int64_def)
  then show ?thesis by (simp add: atIndex_def incrIndex_def assms(3) wrap64_id nat_add_distrib)
qed

lemma storeResult_post [simp]:
  "tr_PostActionResults (storeResult isPre i res tr) =
     (if isPre then tr_PostActionResults tr else (tr_PostActionResults tr)[i := res])"
  "tr_PostActionResults (incrIndex tr) = tr_PostActionResults tr"
  by (simp_all add: storeResult_def incrIndex_def)

lemma action_step_distance:
  assumes "action_step isPre tr tr'" "tr_Phase tr = actionPhase isPre" "moved tr tr'" "indexable tr"
  shows "(tr', tr) \<in> distance"
  using assms(1)
proof cases
  case (record_result res)
  let ?i = "atIndex tr"
  have at: "atIndex tr' = ?i" by (simp add: record_result atIndex_def)
  have changed: "ar_Status res \<noteq> currentStatus isPre tr"
    using assms(3) record_result at
    by (cases isPre) (auto simp: moved_def statuses_def phaseResults_def map_update list_update_same_conv)
  have rank: "status_rank (ar_Status res) < status_rank (currentStatus isPre tr)"
    using status_step_rank [OF record_result(3) changed] .
  show ?thesis
    using rank record_result(2) at assms(2)
    by (cases isPre) (auto simp: record_result(1) actions_left_def current_rank_def actionPhase_def phaseResults_def)
next
  case (next_action res)
  let ?s = "storeResult isPre (atIndex tr) res (tr\<lparr>tr_CurrentActionIndex := int (atIndex tr)\<rparr>)"
  have len: "int (length (phaseResults isPre tr)) < 2 ^ 63"
    using assms(4) by (cases isPre) (simp_all add: indexable_def phaseResults_def)
  have "atIndex tr' = Suc (atIndex tr)"
    unfolding next_action(1) by (rule atIndex_next [OF len next_action(2)]) simp
  then show ?thesis
    using next_action(2) assms(2)
    by (cases isPre) (auto simp: next_action(1) actions_left_def actionPhase_def phaseResults_def)
qed

lemma pipeline_distance:
  assumes "pipeline pl (Some tr) (Some tr')" "moved tr tr'" "indexable tr"
  shows "(tr', tr) \<in> distance"
  using assms(1)
proof cases
  case pre_action
  then show ?thesis using action_step_distance [OF _ _ assms(2,3)] by (simp add: actionPhase_def)
next
  case post_action
  then show ?thesis using action_step_distance [OF _ _ assms(2,3)] by (simp add: actionPhase_def)
next
  case flush
  then show ?thesis using assms(2) by (simp add: moved_def statuses_def atIndex_def)
qed (use assms(2) in \<open>auto simp: moved_def split: if_splits\<close>)

text \<open>One reconciliation that moves a transition on, whatever the environment answers.\<close>

definition progress :: "Reconciler \<Rightarrow> (TransitionStatus \<times> TransitionStatus) set" where
  "progress r = {(tr', tr). moved tr tr' \<and> indexable tr \<and>
     (\<exists>E fs w cs f x ds. spec_update_keeps E fs \<and> fs_Transition fs = Some tr \<and>
       calls (dispatchPhase E r fs) w = cs @ UpdateFSStatus f x # ds \<and> (\<forall>e \<in> set cs. \<not> is_fs_write e) \<and>
       fs_Transition f = Some tr')}"

section \<open>Force-advance\<close>

text \<open>What an operator can do to a transition: skip the current action, or go on to the next phase after
  the switch or the flush.  A transition is never completed by it.\<close>

inductive forced :: "TransitionStatus \<Rightarrow> TransitionStatus \<Rightarrow> bool" where
  skip_action: "tr_Phase tr = actionPhase isPre \<Longrightarrow> 0 \<le> tr_CurrentActionIndex tr \<Longrightarrow>
    atIndex tr < length (phaseResults isPre tr) \<Longrightarrow> ar_Status res = ActionStatusSkipped \<Longrightarrow>
    forced tr (incrIndex (storeResult isPre (atIndex tr) res tr))"
| skip_switch: "tr_Phase tr = PhaseUpdatingResources \<Longrightarrow>
    forced tr (tr\<lparr>tr_Phase := PhaseFlushingConnections, tr_CurrentActionIndex := 0\<rparr>)"
| skip_flush: "tr_Phase tr = PhaseFlushingConnections \<Longrightarrow>
    forced tr (tr\<lparr>tr_Phase := PhaseExecutingPostActions, tr_CurrentActionIndex := 0\<rparr>)"
| no_phase: "forced tr tr"

lemma forced_pre_passed:
  assumes "forced tr tr'" "pre_passed pl (Some tr)"
  shows "pre_passed pl (Some tr')"
  using assms(1)
proof cases
  case (skip_action isPre res)
  have norm: "tr\<lparr>tr_CurrentActionIndex := int (atIndex tr)\<rparr> = tr"
    using skip_action by (simp add: atIndex_def)
  show ?thesis
  proof (cases isPre)
    case True
    then show ?thesis
      using pre_passed_next [of tr pl res] skip_action assms(2) by (simp add: norm passed_def actionPhase_def)
  next
    case False
    then show ?thesis using skip_action assms(2) by (simp add: pre_passed_def actionPhase_def)
  qed
qed (use assms(2) in \<open>auto simp: pre_passed_def\<close>)

lemma forced_identity: "forced tr tr' \<Longrightarrow> identity tr' = identity tr \<and> PhaseOrder (tr_Phase tr) \<le> PhaseOrder (tr_Phase tr')"
  by (induction rule: forced.induct) auto

lemma forceAdvanceActionPhase_forced:
  "tr_Phase tr = actionPhase isPre \<Longrightarrow> eff quiet (forceAdvanceActionPhase E tr isPre) (forced tr)"
  unfolding forceAdvanceActionPhase_def Let_def
  by (intro eff_if eff_bind [OF quiet_calls(1)] eff_ret no_phase)
    (auto intro: skip_action no_phase simp: atIndex_def [symmetric] simp flip: nat_less_iff)

lemma handleForceAdvance_forced:
  "eff quiet (handleForceAdvance E fs) (\<lambda>(changed, fs'). same_object (setTransition (fs_Transition fs') fs) fs' \<and>
     (changed \<longrightarrow> (\<exists>tr tr'. fs_Transition fs = Some tr \<and> fs_Transition fs' = Some tr' \<and> forced tr tr')))"
proof (cases "fs_Transition fs")
  case None
  then show ?thesis by (simp add: handleForceAdvance_def eff_ret same_object_def)
next
  case (Some tr)
  have "eff quiet (if tr_Phase tr = PhaseExecutingPreActions then forceAdvanceActionPhase E tr True
            else if tr_Phase tr = PhaseExecutingPostActions then forceAdvanceActionPhase E tr False
            else if tr_Phase tr = PhaseUpdatingResources
            then ret (tr\<lparr>tr_Phase := PhaseFlushingConnections, tr_CurrentActionIndex := 0\<rparr>)
            else if tr_Phase tr = PhaseFlushingConnections
            then ret (tr\<lparr>tr_Phase := PhaseExecutingPostActions, tr_CurrentActionIndex := 0\<rparr>)
            else ret tr) (forced tr)"
    by (intro eff_if eff_ret forced.intros forceAdvanceActionPhase_forced) (simp_all add: actionPhase_def)
  then show ?thesis
    unfolding handleForceAdvance_def Some option.case
    by (intro eff_bind [OF updateFailoverEvent_quiet] eff_bind [of quiet _ "forced tr"] eff_ret) (auto simp: same_object_def)
qed

text \<open>The calls of a force-advance: no managed object is touched and the status written is a forced step.\<close>

definition forced_calls :: "TransitionStatus option \<Rightarrow> entry list \<Rightarrow> bool" where
  "forced_calls t cs \<longleftrightarrow> (\<forall>e \<in> set cs. \<not> is_service_entry e) \<and>
     (\<forall>f x. UpdateFSStatus f x \<in> set cs \<longrightarrow>
       (\<exists>tr tr'. t = Some tr \<and> fs_Transition f = Some tr' \<and> forced tr tr'))"

lemma forced_calls_quiet: "\<forall>e \<in> set cs. quiet e \<Longrightarrow> forced_calls t (cs @ ds) = forced_calls t ds"
  by (auto simp: forced_calls_def quiet_def)

lemma forced_calls_simps [simp]:
  "forced_calls t []" "forced_calls t (UpdateFS f x # cs) = forced_calls t cs"
  "forced_calls t (GetFS k y # cs) = forced_calls t cs"
  "forced_calls t (UpdateFSStatus f x # cs) \<longleftrightarrow>
     (\<exists>tr tr'. t = Some tr \<and> fs_Transition f = Some tr' \<and> forced tr tr') \<and> forced_calls t cs"
  by (auto simp: forced_calls_def)

lemma unannotate_forced:
  "tspec (updateFS E f \<bind> (\<lambda>u. case u of Inl e \<Rightarrow> ret (Inl e) | Inr _ \<Rightarrow> ret (Inr requeue))) (\<lambda>_ cs. forced_calls t cs)"
  unfolding updateFS_def by (intro tspec_bind_call tspec_case_sum tspec_ret) simp_all

lemma reconcileForceAdvance_forced: "tspec (reconcileForceAdvance E fs) (\<lambda>_ cs. forced_calls (fs_Transition fs) cs)"
  unfolding reconcileForceAdvance_def Let_def
proof (rule tspec_bind [OF tspec_eff [OF handleForceAdvance_forced]], goal_cases)
  case (1 a cs)
  obtain changed fs1 where a: "a = (changed, fs1)" by (cases a)
  show ?case
    unfolding a case_prod_conv updateFSStatus_def
    by (intro tspec_if tspec_bind_call tspec_case_sum tspec_ret tspec_weaken [OF unannotate_forced])
      (use 1 in \<open>auto simp: a forced_calls_quiet\<close>)
qed

lemma reconcileDeletion_forced: "tspec (reconcileDeletion E r fs) (\<lambda>_ cs. forced_calls t cs)"
  unfolding reconcileDeletion_def updateFS_def
  by (intro tspec_if tspec_bind [OF tspec_eff [OF quiet_helpers(9)]] tspec_bind_call tspec_case_sum tspec_ret)
    (auto simp: forced_calls_quiet)

text \<open>What one reconciliation does to a FailoverService that was read as \<open>fs0\<close>: it works on that object,
  or on the answer to an update of its metadata, and its calls follow the phase machine or force one step.\<close>

definition reconciles :: "Reconciler \<Rightarrow> FailoverService \<Rightarrow> entry list \<Rightarrow> bool" where
  "reconciles r fs0 cs \<longleftrightarrow>
     forced_calls (fs_Transition fs0) cs \<or>
     (\<exists>fs. (fs = fs0 \<or> (\<exists>f. UpdateFS f (Inr fs) \<in> set cs)) \<and> fs_Transition fs = fs_Transition fs0 \<and>
       mget (m_Annotations (fs_Meta fs)) forceAdvanceAnnotation = '''' \<and>
       steps (planOf r fs) (may_switch fs) (fs_Transition fs0) cs)"

lemma reconciles_Cons:
  "reconciles r fs0 cs \<Longrightarrow> reconciles r fs0 (GetFS k x # cs)"
  "reconciles r fs0 cs \<Longrightarrow> reconciles r fs0 (UpdateFS f x # cs)"
  by (auto simp: reconciles_def)

lemma reconciles_updated:
  assumes "reconciles r fs cs" "fs_Transition fs = fs_Transition fs0"
  shows "reconciles r fs0 (UpdateFS f (Inr fs) # cs)"
  using assms unfolding reconciles_def by auto

context sound_reconciler
begin

lemma reconcileAnnotated_reconciles:
  assumes "spec_update_keeps E fs"
  shows "tspec (reconcileAnnotated E r fs) (\<lambda>_ cs. reconciles r fs cs)"
  unfolding reconcileAnnotated_def
proof (rule tspec_if)
  show "tspec (reconcileForceAdvance E fs) (\<lambda>_ cs. reconciles r fs cs)"
    by (rule tspec_weaken [OF reconcileForceAdvance_forced]) (simp add: reconciles_def)
  show "tspec (dispatchPhase E r fs) (\<lambda>_ cs. reconciles r fs cs)"
    if "\<not> mget (m_Annotations (fs_Meta fs)) forceAdvanceAnnotation \<noteq> ''''"
    by (rule tspec_weaken [OF dispatchPhase_refines [OF assms, unfolded refines_def]])
      (use that in \<open>auto simp: reconciles_def\<close>)
qed

lemma reconcileFinalized_reconciles:
  assumes "spec_update_keeps E fs"
  shows "tspec (reconcileFinalized E r fs) (\<lambda>_ cs. reconciles r fs cs)"
  unfolding reconcileFinalized_def updateFS_def
proof (intro tspec_if tspec_bind_call tspec_case_sum tspec_ret, goal_cases)
  case (2 h f)
  then have same: "fs_Transition f = fs_Transition fs" using assms by (simp add: spec_update_keeps_def)
  with assms have "spec_update_keeps E f" by (simp add: spec_update_keeps_def)
  from reconcileAnnotated_reconciles [OF this] show ?case
    by (rule tspec_weaken) (use 2 in \<open>auto intro: reconciles_updated [OF _ same]\<close>)
qed (use reconcileAnnotated_reconciles [OF assms] in \<open>auto simp: reconciles_def\<close>)

lemma Reconcile_reconciles:
  assumes get: "o_getFS E (w_hist w) req = Inr fs" and keeps: "spec_update_keeps E fs"
  shows "reconciles r fs (calls (Reconcile E r req) w)"
proof -
  have deleted: "tspec (reconcileDeletion E r fs) (\<lambda>_ cs. reconciles r fs cs)"
    by (rule tspec_weaken [OF reconcileDeletion_forced [where t = "fs_Transition fs"]]) (simp add: reconciles_def)
  have updated: "tspec (updateFS E g \<bind> (\<lambda>u. case u of Inl e \<Rightarrow> ret (Inl e) | Inr fs1 \<Rightarrow> reconcileFinalized E r fs1))
      (\<lambda>_ cs. reconciles r fs cs)" for g
    unfolding updateFS_def
  proof (intro tspec_bind_call tspec_case_sum tspec_ret, goal_cases)
    case (2 h' f)
    then have same: "fs_Transition f = fs_Transition fs" using keeps by (simp add: spec_update_keeps_def)
    with keeps have "spec_update_keeps E f" by (simp add: spec_update_keeps_def)
    from reconcileFinalized_reconciles [OF this] show ?case
      by (rule tspec_weaken) (use 2 in \<open>auto intro: reconciles_updated [OF _ same]\<close>)
  qed (simp add: reconciles_def)
  have "\<exists>cs. calls (Reconcile E r req) w = GetFS req (o_getFS E (w_hist w) req) # cs \<and> reconciles r fs cs"
    unfolding Reconcile_def getFS_def
    by (rule calls_bind_call) (auto simp: get intro: deleted updated reconcileFinalized_reconciles [OF keeps])
  then show ?thesis by (auto intro: reconciles_Cons)
qed

end

lemma steps_first_write:
  assumes "steps pl sw t (cs @ UpdateFSStatus f x # ds)" "\<forall>e \<in> set cs. \<not> is_fs_write e"
  shows "pipeline pl t (fs_Transition f)"
  using assms
proof (induction cs arbitrary: sw)
  case Nil
  then show ?case by (cases x) simp_all
next
  case (Cons e cs)
  then show ?case by (cases e) auto
qed

lemma forced_order: "forced tr tr' \<Longrightarrow> PhaseOrder (tr_Phase tr') \<le> PhaseOrder (tr_Phase tr) + 1"
  by (induction rule: forced.induct) auto

lemma dispatch_steps:
  assumes "spec_update_keeps E fs" and "r = newReconciler role cid provider ns"
  shows "steps (planOf r fs) (may_switch fs) (fs_Transition fs) (calls (dispatchPhase E r fs) w)"
  unfolding assms(2)
  by (rule tspec_calls [OF controller.dispatchPhase_refines [OF assms(1), unfolded refines_def]])

section \<open>Properties\<close>


text \<open>The environment of a FailoverService that is stored with the transition of \<open>fs\<close>.\<close>

definition storedEnv :: "FailoverService \<Rightarrow> env" where
  "storedEnv fs = quietEnv\<lparr>o_getFS := \<lambda>_ _. Inr fs, o_updateFS := \<lambda>_ f. Inr (setTransition (fs_Transition fs) f)\<rparr>"

lemma storedEnv_keeps [simp]: "spec_update_keeps (storedEnv fs) fs" "o_getFS (storedEnv fs) h k = Inr fs"
  by (simp_all add: spec_update_keeps_def storedEnv_def)

definition sampleProvider :: ClientProvider where
  "sampleProvider = \<lparr>cp_SecretName = ''remote'', cp_SecretNamespace = ''sys''\<rparr>"

definition sampleReconciler :: Reconciler where
  "sampleReconciler = newReconciler rolePrimary ''a'' sampleProvider ''sys''"



definition sampleResult :: "string \<Rightarrow> ActionResult" where
  "sampleResult st = \<lparr>ar_Name = ''drain'', ar_Status = st, ar_Message = '''', ar_StartedAt = None,
     ar_CompletedAt = None, ar_JobName = '''', ar_RetryCount = 0\<rparr>"

definition sampleTransition :: "FailoverPhase \<Rightarrow> string \<Rightarrow> TransitionStatus" where
  "sampleTransition p st = \<lparr>tr_Phase = p, tr_TargetDirection = directionFailover,
     tr_OldAddressSnapshot = ''db.old'', tr_NewAddressSnapshot = ''db.new'', tr_TransitionID = ''7'',
     tr_CurrentActionIndex = 0, tr_PreActionResults = [sampleResult st], tr_PostActionResults = [],
     tr_StartedAt = Some 7, tr_ConnectionKill = None, tr_EventName = ''ev''\<rparr>"

definition switchingFS :: FailoverService where
  "switchingFS = setTransition (Some (sampleTransition PhaseUpdatingResources ActionStatusSucceeded)) sampleFS"

lemma switchingFS_simps [simp]:
  "fs_Transition switchingFS = Some (sampleTransition PhaseUpdatingResources ActionStatusSucceeded)"
  "fs_Namespace switchingFS = ''default''" "sp_ServiceName (fs_Spec switchingFS) = ''db-alias''"
  by (simp_all add: switchingFS_def sampleFS_def emptyMeta_def)

lemma sampleTransition_simps [simp]:
  "tr_Phase (sampleTransition p st) = p" "tr_PreActionResults (sampleTransition p st) = [sampleResult st]"
  "tr_PostActionResults (sampleTransition p st) = []"
  "tr_NewAddressSnapshot (sampleTransition p st) = ''db.new''" "atIndex (sampleTransition p st) = 0"
  "tr_CurrentActionIndex (sampleTransition p st) = 0" "ar_Status (sampleResult st) = st"
  by (simp_all add: sampleTransition_def sampleResult_def atIndex_def)

lemma switching_reads_service:
  "GetService (''default'', ''db-alias'') (Inl notFound)
     \<in> set (calls (dispatchPhase (storedEnv switchingFS) sampleReconciler switchingFS) world0)"
proof -
  have "\<not> is_ip ''db.new''" by code_simp
  then show ?thesis
    by (simp add: calls_def dispatchPhase_def reconcileUpdatingResources_def service_defs call_defs call_def Let_def
        storedEnv_def notFound_def IsNotFound_def world0_def setConditionNow_def updateClusterStatus_def saveStatus_def)
qed



definition preFS :: "string \<Rightarrow> FailoverService" where
  "preFS st = setTransition (Some (sampleTransition PhaseExecutingPreActions st)) sampleFS"

definition preRunning :: FailoverService where
  "preRunning = setTransition (Some (storeResult True 0 ((sampleResult ActionStatusPending)\<lparr>ar_Status := ActionStatusRunning,
     ar_StartedAt := Some (10 * 10 ^ 9)\<rparr>) (sampleTransition PhaseExecutingPreActions ActionStatusPending))) sampleFS"

lemma preFS_starts_action:
  "UpdateFSStatus preRunning (Inr preRunning)
     \<in> set (calls (dispatchPhase (storedEnv (preFS ActionStatusPending)) sampleReconciler (preFS ActionStatusPending)) world0)"
proof -
  have acts: "phaseActions sampleReconciler (preFS st) (sampleTransition p st) True = [sampleAction]" for st p
    by (simp add: phaseActions_def getTransitionHooks_def localTarget_def sampleReconciler_def newReconciler_def Let_def
        preFS_def sampleFS_def sampleTarget_def sampleTransition_def)
  have res: "phaseResults True (sampleTransition p st) = [sampleResult st]" for p st
    by (simp add: phaseResults_def)
  have tr: "fs_Transition (preFS st) = Some (sampleTransition PhaseExecutingPreActions st)" for st
    by (simp add: preFS_def)
  have again: "setTransition (Some t) (preFS st) = setTransition (Some t) sampleFS" for t st
    by (simp add: preFS_def setTransition_def setStatus_def)
  have distinct: "ActionStatusPending \<noteq> ActionStatusSucceeded" "ActionStatusPending \<noteq> ActionStatusSkipped"
    "ActionStatusPending \<noteq> ActionStatusFailed"
    by (simp_all add: ActionStatusPending_def ActionStatusSucceeded_def ActionStatusSkipped_def ActionStatusFailed_def)
  show ?thesis
    by (simp add: calls_def dispatchPhase_def executeActionPhase_def tr acts res handleActionState_def distinct Let_def
        saveTransition_def saveStatus_def call_defs call_def world0_def storedEnv_def preRunning_def again)
qed




text \<open>A transition is completed only when nothing is left to do: if the first status written by a
  reconciliation clears it, then it was in phase FlushingConnections with no post-actions in the
  specification, or in phase ExecutingPostActions with its index past the last post-action, or its phase
  is not one the controller knows.\<close>

theorem completed_only_at_the_end:
  assumes "spec_update_keeps E fs" and "fs_Transition fs = Some tr" and "tr_Phase tr \<noteq> PhaseIdle"
    and "calls (dispatchPhase E (newReconciler role cid provider ns) fs) w = cs @ UpdateFSStatus f x # ds"
    and "\<forall>e \<in> set cs. \<not> is_fs_write e" and "fs_Transition f = None"
  shows "(tr_Phase tr = PhaseFlushingConnections \<and>
       planOf (newReconciler role cid provider ns) fs (tr_TargetDirection tr) False = 0) \<or>
    (tr_Phase tr = PhaseExecutingPostActions \<and> behind (planOf (newReconciler role cid provider ns) fs) False tr) \<or>
    PhaseOrder (tr_Phase tr) < 0"
proof -
  have "pipeline (planOf (newReconciler role cid provider ns) fs) (Some tr) None"
    using steps_first_write [OF dispatch_steps [OF assms(1) refl, of role cid provider ns w, unfolded assms(4)] assms(5)]
    by (simp add: assms(2,6))
  then show ?thesis by (rule pipeline_clears)
qed

text \<open>C15: A transition cannot go on moving forever: there is no infinite sequence of reconciliations of
  which each stores a status with another phase, another action index or another action status than the
  one before, whatever the API server, the actions and the edits of the specification in between do.  So
  every transition reaches its end or a state in which it waits for an action, an acknowledgement or an
  operator.\<close>

theorem transition_progress_is_finite: "wf (progress (newReconciler role cid provider ns))"
proof (rule wf_subset [OF wf_measures])
  show "progress (newReconciler role cid provider ns) \<subseteq> distance"
  proof clarify
    fix tr' tr
    assume "(tr', tr) \<in> progress (newReconciler role cid provider ns)"
    then obtain E fs w cs f x ds where step: "moved tr tr'" "indexable tr" "spec_update_keeps E fs" "fs_Transition fs = Some tr"
      "calls (dispatchPhase E (newReconciler role cid provider ns) fs) w = cs @ UpdateFSStatus f x # ds"
      "\<forall>e \<in> set cs. \<not> is_fs_write e" "fs_Transition f = Some tr'"
      by (auto simp: progress_def)
    have "pipeline (planOf (newReconciler role cid provider ns) fs) (Some tr) (Some tr')"
      using steps_first_write [OF dispatch_steps [OF step(3) refl, of role cid provider ns w, unfolded step(5)] step(6)]
      by (simp add: step(4,7))
    then show "(tr', tr) \<in> distance" by (rule pipeline_distance [OF _ step(1,2)])
  qed
qed

text \<open>C34: What force-advance can do: it touches no managed object, never completes a transition, keeps what
  the transition was started for, stays in the phase or goes to the next one, and keeps the invariant on
  the pre-actions (an action it jumps over is recorded as skipped).\<close>

theorem force_advance_is_one_step:
  assumes "UpdateFSStatus f x \<in> set (calls (reconcileForceAdvance E fs) w)"
  shows "\<exists>tr tr'. fs_Transition fs = Some tr \<and> fs_Transition f = Some tr' \<and> identity tr' = identity tr \<and>
    PhaseOrder (tr_Phase tr) \<le> PhaseOrder (tr_Phase tr') \<and> PhaseOrder (tr_Phase tr') \<le> PhaseOrder (tr_Phase tr) + 1 \<and>
    (pre_passed pl (Some tr) \<longrightarrow> pre_passed pl (Some tr')) \<and>
    (\<forall>e \<in> set (calls (reconcileForceAdvance E fs) w). \<not> is_service_entry e)"
proof -
  have forced: "forced_calls (fs_Transition fs) (calls (reconcileForceAdvance E fs) w)"
    by (rule tspec_calls [OF reconcileForceAdvance_forced])
  with assms obtain tr tr' where "fs_Transition fs = Some tr" "fs_Transition f = Some tr'" "forced tr tr'"
    by (auto simp: forced_calls_def)
  with forced show ?thesis
    using forced_identity forced_order forced_pre_passed by (auto simp: forced_calls_def)
qed

definition afterForce :: FailoverService where
  "afterForce = removeCond quietEnv ConditionActionFailed (setTransition (Some ((sampleTransition PhaseUpdatingResources
     ActionStatusSucceeded)\<lparr>tr_Phase := PhaseFlushingConnections, tr_CurrentActionIndex := 0\<rparr>)) switchingFS)"

theorem force_advance_is_one_step_witness:
  "\<exists>tr'. fs_Transition afterForce = Some tr' \<and> 2 \<le> PhaseOrder (tr_Phase tr') \<and> PhaseOrder (tr_Phase tr') \<le> 3"
proof -
  have "UpdateFSStatus afterForce (Inr afterForce) \<in> set (calls (reconcileForceAdvance quietEnv switchingFS) world0)"
    by (simp add: calls_def reconcileForceAdvance_def handleForceAdvance_def updateFailoverEvent_def afterForce_def
        call_defs call_def Let_def world0_def sampleTransition_def)
  from force_advance_is_one_step [OF this] show ?thesis by auto
qed



end
