(* ===== verification/Transition.thy ===== *)
theory Transition
  imports Pipeline Agent
begin

text \<open>
  What the single handlers of a transition promise beyond the phase machine of theory \<open>Pipeline\<close>
  (\<^verbatim>\<open>src/internal/controller/failoverservice_controller.go\<close>): switching reaches the address that was
  snapshotted, completing records the direction that was carried out, events follow the status, the
  connections are flushed only with acknowledgements, an action is recorded before it runs, halts the
  transition when it fails and is retried a bounded number of times.  The last property states what
  happens when the other cluster wins the synchronisation at the end of a transition.
\<close>

section \<open>Switching\<close>

lemma reconcileUpdatingResources_routes:
  assumes "gets_named E" "fs_Transition fs = Some tr" "UpdateFSStatus f x \<in> set (calls (reconcileUpdatingResources E r fs) w)"
    and "address = (if tr_NewAddressSnapshot tr = '''' then snd (getTransitionAddresses r fs (tr_TargetDirection tr))
      else tr_NewAddressSnapshot tr)"
  shows "routes_to E fs address (w_hist (final (reconcileUpdatingResources E r fs) w)) \<and>
    fs_Transition f = Some (tr\<lparr>tr_Phase := PhaseFlushingConnections, tr_CurrentActionIndex := 0\<rparr>)"
proof -
  let ?tr = "tr\<lparr>tr_Phase := PhaseFlushingConnections, tr_CurrentActionIndex := 0\<rparr>"
  let ?P = "\<lambda>e. \<not> is_service_entry e \<and> (\<forall>f x. e = UpdateFSStatus f x \<longrightarrow> fs_Transition f = Some ?tr)"
  let ?k = "\<lambda>e. case e of Some err \<Rightarrow> do { serviceFailed fs; ret (Inr (requeueAfter defaultBackoffMin)) }
    | None \<Rightarrow> do {
     fs1 \<leftarrow> setConditionNow E ConditionServiceReady True ''Reconciled'' ''Service is correctly configured'' fs;
     fs2 \<leftarrow> updateClusterStatus E r (setTransition (Some ?tr) fs1) PhaseFlushingConnections;
     saveStatus E fs2 requeue }"
  let ?m = "ReconcileWithAddress E fs address"
  have quiet_P: "eff quiet m Q \<Longrightarrow> eff ?P m Q" for m :: "'b io" and Q
    by (erule eff_weaken) (auto simp: quiet_def)
  have save: "fs_Transition g = Some ?tr \<Longrightarrow> emits ?P (saveStatus E g requeue)" for g
    unfolding saveStatus_def updateFSStatus_def by (intro eff_bind [OF emits_call] eff_case_sum eff_ret) auto
  have ok: "emits ?P (?k None)"
    unfolding option.case
    by (intro eff_bind [OF quiet_P [OF setConditionNow_quiet]] eff_bind [OF quiet_P [OF updateClusterStatus_quiet]] save)
      (simp add: same_object_def)
  have err: "emits quiet (?k (Some e))" for e
    unfolding option.case by (intro eff_bind [OF quiet_helpers(3)] eff_ret TrueI)
  have m: "reconcileUpdatingResources E r fs = ?m \<bind> ?k"
    unfolding reconcileUpdatingResources_def assms(2) option.case Let_def assms(4) [symmetric] ..
  have k: "tspec (?k e) (\<lambda>_ _. True)" for e
  proof (cases e)
    case None
    show ?thesis unfolding None by (rule tspec_weaken [OF tspec_eff [OF ok] TrueI])
  next
    case (Some a)
    show ?thesis unfolding Some by (rule tspec_weaken [OF tspec_eff [OF err] TrueI])
  qed
  have calls: "calls (?m \<bind> ?k) w = calls ?m w @ calls (?k (result ?m w)) (final ?m w)"
    by (rule calls_bind [OF tspec_eff [OF svc.confined] k])
  have "UpdateFSStatus f x \<notin> set (calls ?m w)"
    using eff_calls [OF svc.confined] by fastforce
  with assms(3) have f: "UpdateFSStatus f x \<in> set (calls (?k (result ?m w)) (final ?m w))"
    unfolding m calls by simp
  then have None: "result ?m w = None"
    using eff_calls [OF err] by (cases "result ?m w") force+
  have "routes_to E fs address (w_hist (final ?m w))"
    using svc.routes [OF assms(1), of fs address w] None by (simp add: wp_result_final)
  then have "routes_to E fs address (rev (calls (?k None) (final ?m w)) @ w_hist (final ?m w))"
    using eff_calls [OF ok] by (subst routes_to_frame) auto
  then show ?thesis
    unfolding m run_bind None final_hist [OF k] using eff_calls [OF ok f [unfolded None]] by blast
qed


section \<open>Completing a transition\<close>

text \<open>The fields of the object that setting conditions, the cluster entry or the remote state leaves alone.\<close>

definition kept :: "FailoverService \<Rightarrow> FailoverService \<Rightarrow> bool" where
  "kept fs fs' \<longleftrightarrow> same_object fs fs' \<and>
     st_LastKnownFailoverActive (fs_Status fs') = st_LastKnownFailoverActive (fs_Status fs) \<and>
     st_ActiveGeneration (fs_Status fs') = st_ActiveGeneration (fs_Status fs) \<and>
     st_ActiveCluster (fs_Status fs') = st_ActiveCluster (fs_Status fs) \<and>
     st_ObservedGeneration (fs_Status fs') = st_ObservedGeneration (fs_Status fs)"

lemma kept_refl [simp]: "kept fs fs"
  by (simp add: kept_def same_object_def)

lemma kept_trans: "kept a b \<Longrightarrow> kept b c \<Longrightarrow> kept a c"
  by (simp add: kept_def same_object_def)

lemma kept_updates [simp]:
  "kept fs (removeCond E ty fs)" "kept fs (setCondition_at E ty ok t re msg fs)"
  "kept fs (setStatus (\<lambda>s. s\<lparr>st_RemoteState := rs\<rparr>) fs)"
  by (simp_all add: kept_def same_object_def removeCond_def setCondition_at_def)

lemma updateClusterStatus_kept: "eff quiet (updateClusterStatus E r fs p) (kept fs)"
  unfolding updateClusterStatus_def
  by (intro eff_bind [OF quiet_calls(1)] eff_ret) (simp add: kept_def same_object_def)

lemma setConditionNow_kept: "eff quiet (setConditionNow E ty ok re msg fs) (kept fs)"
  unfolding setConditionNow_def by (intro eff_bind [OF quiet_calls(1)] eff_ret kept_updates)

lemma sync_results_kept: "eff quiet (syncFailed E fs e) (kept fs)" "eff quiet (syncSucceeded E fs) (kept fs)"
  unfolding syncFailed_def syncSucceeded_def
  by (intro eff_bind [OF quiet_calls(2)] setConditionNow_kept)+

text \<open>The status of a transition that was carried out here.\<close>

definition completes :: "Reconciler \<Rightarrow> FailoverService \<Rightarrow> TransitionStatus \<Rightarrow> FailoverService \<Rightarrow> bool" where
  "completes r fs tr f \<longleftrightarrow> fs_Transition f = None \<and>
     st_LastKnownFailoverActive (fs_Status f) = Some (tr_TargetDirection tr = directionFailover) \<and>
     st_ActiveGeneration (fs_Status f) = wrap64 (st_ActiveGeneration (fs_Status fs) + 1) \<and>
     st_ActiveCluster (fs_Status f) = rec_ClusterID r \<and> st_ObservedGeneration (fs_Status f) = fs_Generation fs \<and>
     fs_Spec f = fs_Spec fs"

lemma completedStatus_completes: "kept (completedStatus E r tr t fs) f \<Longrightarrow> completes r fs tr f"
  by (simp add: completes_def kept_def same_object_def completedStatus_def)

text \<open>The first write to the FailoverService is a status satisfying \<open>Q\<close>, or an update of the specification.\<close>

definition first_status :: "(FailoverService \<Rightarrow> bool) \<Rightarrow> entry list \<Rightarrow> bool" where
  "first_status Q cs \<longleftrightarrow> (\<forall>f x. find is_fs_write cs = Some (UpdateFSStatus f x) \<longrightarrow> Q f)"

lemma first_status_simps [simp]:
  "first_status Q []" "first_status Q (UpdateFS f x # cs)" "first_status Q (UpdateFSStatus f x # cs) = Q f"
  by (simp_all add: first_status_def)

lemma first_status_quiet: "\<forall>e \<in> set cs. quiet e \<Longrightarrow> first_status Q (cs @ ds) = first_status Q ds"
proof (induction cs)
  case (Cons e cs)
  then show ?case by (cases e) (auto simp: first_status_def quiet_def)
qed simp

definition writes_first :: "(FailoverService \<Rightarrow> bool) \<Rightarrow> 'a io \<Rightarrow> bool" where
  "writes_first Q m \<longleftrightarrow> tspec m (\<lambda>_ cs. first_status Q cs)"

lemma writes_first_bind: "eff quiet m S \<Longrightarrow> (\<And>a. S a \<Longrightarrow> writes_first Q (k a)) \<Longrightarrow> writes_first Q (m \<bind> k)"
  unfolding writes_first_def by (rule tspec_bind [OF tspec_eff]) (auto simp: first_status_quiet)

lemma writes_first_status:
  assumes "Q fs" "\<And>a. tspec (k a) (\<lambda>_ _. True)"
  shows "writes_first Q (updateFSStatus E fs \<bind> k)"
  unfolding writes_first_def updateFSStatus_def
  by (intro tspec_bind_call tspec_weaken [OF assms(2)]) (simp add: assms(1))

lemma writes_first_spec: "(\<And>a. tspec (k a) (\<lambda>_ _. True)) \<Longrightarrow> writes_first Q (updateFS E fs \<bind> k)"
  unfolding writes_first_def updateFS_def by (intro tspec_bind_call) (auto elim: tspec_weaken)

lemma refines_appends: "refines pl sw t m \<Longrightarrow> tspec m (\<lambda>_ _. True)"
  unfolding refines_def by (erule tspec_weaken) simp

lemma finishTransition_first: "Q fs \<Longrightarrow> writes_first Q (finishTransition E fs tr)"
  unfolding finishTransition_def
proof (rule writes_first_status)
  fix u :: "go_error + FailoverService"
  show "tspec (case u of Inl e \<Rightarrow> ret (Inl e) | Inr fs1 \<Rightarrow> do {
       updateFailoverEvent E (setTransition (Some tr) fs1) EventOutcomeSucceeded;
       ret (Inr (requeueAfter antiEntropyInterval)) }) (\<lambda>_ _. True)"
    by (intro tspec_case_sum tspec_ret tspec_bind [OF tspec_eff [OF updateFailoverEvent_quiet]] TrueI)
qed

lemma remoteWonAfterTransition_first: "writes_first Q (remoteWonAfterTransition E r fs tr b rs)"
  unfolding remoteWonAfterTransition_def Let_def updateFSStatus_def
  by (intro writes_first_spec tspec_case_sum tspec_ret TrueI tspec_bind [OF tspec_eff [OF updateClusterStatus_quiet]]
      tspec_bind_call tspec_bind [OF tspec_eff [OF updateFailoverEvent_quiet]] tspec_if
      refines_appends [OF beginTransition_refines [OF idle_simps(1)]])

context sound_reconciler
begin

lemma completeTransition_first:
  assumes "fs_Transition fs = Some tr"
  shows "writes_first (completes r fs tr) (completeTransition E r fs)"
proof -
  have duration: "emits quiet (case tr_StartedAt tr of None \<Rightarrow> ret () | Some s \<Rightarrow>
      do { n \<leftarrow> now E; emit (TransitionDuration (fs_Name fs) (fs_Namespace fs) (tr_TargetDirection tr) (n - s)) })"
    by (intro eff_case_option eff_ret eff_bind [OF quiet_calls(1)] quiet_calls) simp
  have status: "kept (removeCond E ConditionActionFailed (removeCond E ConditionTransitionInProgress f)) f' \<Longrightarrow>
      kept (completedStatus E r tr n fs) f \<Longrightarrow> completes r fs tr f'" for n f f'
    by (rule completedStatus_completes [where E = E and t = n]) (simp add: kept_def same_object_def removeCond_def)
  have synced: "kept (setStatus (\<lambda>x. x\<lparr>st_RemoteState := s\<rparr>)
        (removeCond E ConditionActionFailed (removeCond E ConditionTransitionInProgress f))) f' \<Longrightarrow>
      kept (completedStatus E r tr n fs) f \<Longrightarrow> completes r fs tr f'" for n f f' s
    by (rule completedStatus_completes [where E = E and t = n]) (simp add: kept_def same_object_def removeCond_def)
  show ?thesis
    unfolding completeTransition_def Let_def assms option.case
  proof (intro writes_first_bind [OF duration] writes_first_bind [OF cleanupTransitionJobs_quiet]
      writes_first_bind [OF quiet_helpers(9)] writes_first_bind [OF quiet_helpers(4)] writes_first_bind [OF quiet_calls(1)]
      writes_first_bind [OF updateClusterStatus_kept], goal_cases)
    case (1 _ _ _ _ n f)
    then have f: "kept (completedStatus E r tr n fs) f" by blast
    show ?case
      by (cases "rec_Syncer r")
        (auto intro!: finishTransition_first remoteWonAfterTransition_first writes_first_bind [OF sync_quiet]
          writes_first_bind [OF sync_results_kept(1)] writes_first_bind [OF sync_results_kept(2)]
          intro: status [OF _ f] status [OF kept_refl f] synced [OF _ f] split: sum.split)
  qed
qed

end

section \<open>Events\<close>

fun is_event_write :: "entry \<Rightarrow> bool" where
  "is_event_write (Write (CreateEvent _) _) = True"
| "is_event_write (Write (UpdateEventStatus _) _) = True"
| "is_event_write _ = False"

text \<open>FailoverEvents are written only after a status of the FailoverService was stored.\<close>

fun recorded_after :: "bool \<Rightarrow> entry list \<Rightarrow> bool" where
  "recorded_after stored [] = True"
| "recorded_after stored (UpdateFSStatus f (Inr g) # cs) = recorded_after True cs"
| "recorded_after stored (e # cs) = ((is_event_write e \<longrightarrow> stored) \<and> recorded_after stored cs)"

lemma recorded_after_stored: "recorded_after True cs"
proof (induction cs)
  case (Cons e cs)
  then show ?case by (cases "(True, e # cs)" rule: recorded_after.cases) auto
qed simp

lemma recorded_after_skip: "\<forall>e \<in> set cs. \<not> is_event_write e \<Longrightarrow> recorded_after b ds \<Longrightarrow> recorded_after b (cs @ ds)"
proof (induction cs)
  case (Cons e cs)
  then show ?case
    by (cases "(b, e # cs)" rule: recorded_after.cases) (auto simp: recorded_after_stored)
qed simp

definition eventless :: "entry \<Rightarrow> bool" where
  "eventless e \<longleftrightarrow> quiet e \<and> \<not> is_event_write e"

definition orderly :: "'a io \<Rightarrow> bool" where
  "orderly m \<longleftrightarrow> tspec m (\<lambda>_ cs. recorded_after False cs)"

lemma orderly_ret [simp]: "orderly (ret x)"
  by (simp add: orderly_def tspec_ret)

lemma orderly_bind:
  assumes "eff eventless m Q" "\<And>a. Q a \<Longrightarrow> orderly (k a)"
  shows "orderly (m \<bind> k)"
  unfolding orderly_def
proof (rule tspec_bind [OF tspec_eff [OF assms(1)]], goal_cases)
  case (1 a cs)
  then show ?case
    by (intro tspec_weaken [OF assms(2) [unfolded orderly_def, of a]] recorded_after_skip) (auto simp: eventless_def)
qed

lemma orderly_status:
  assumes "\<And>e. orderly (k (Inl e))" "\<And>f. tspec (k (Inr f)) (\<lambda>_ _. True)"
  shows "orderly (updateFSStatus E fs \<bind> k)"
  unfolding orderly_def updateFSStatus_def
proof (rule tspec_bind_call)
  fix h
  show "tspec (k (o_updateFSStatus E h fs)) (\<lambda>_ cs. recorded_after False (UpdateFSStatus fs (o_updateFSStatus E h fs) # cs))"
    by (cases "o_updateFSStatus E h fs")
      (use assms in \<open>auto simp: orderly_def recorded_after_stored elim!: tspec_weaken\<close>)
qed

lemma orderly_spec: "(\<And>a. orderly (k a)) \<Longrightarrow> orderly (updateFS E fs \<bind> k)"
  unfolding orderly_def updateFS_def by (intro tspec_bind_call) (auto elim!: tspec_weaken)

lemma eventless_calls: "emits eventless (now E)" "emits eventless (emit mt)"
  by (auto simp: call_defs eventless_def intro!: emits_call)

lemma eventless_helpers:
  "emits eventless (updateClusterStatus E r fs p)" "emits eventless (setConditionNow E ty ok re msg fs)"
  "emits eventless (failoverGauge fs b)" "emits eventless (syncFailed E fs e)" "emits eventless (syncSucceeded E fs)"
  unfolding updateClusterStatus_def setConditionNow_def failoverGauge_def syncFailed_def syncSucceeded_def
  by (intro eff_bind [OF eventless_calls(1)] eff_bind [OF eventless_calls(2)] eff_ret eventless_calls TrueI)+

lemma signal_entry_eventless: "signal_entry e \<Longrightarrow> eventless e"
  by (cases e rule: signal_entry.cases) (simp_all add: eventless_def quiet_def)

lemma cleanupSignalsOf_eventless: "emits eventless (cleanupSignalsOf E r fs)"
  unfolding cleanupSignalsOf_def
  by (intro eff_case_option eff_ret eff_bind [OF emits_weaken [OF CleanupSignals_confined signal_entry_eventless]] TrueI)

lemma Sync_eventless: "emits eventless (Sync E s fs)"
proof -
  have client: "emits eventless (GetClient E p)" for p
    by (rule emits_weaken [OF GetClient_calls]) (auto simp: eventless_def)
  have push: "emits eventless (pushState E c local)" for c local
    unfolding pushState_def call_defs by (intro eff_OnError eff_intros TrueI) (simp_all add: eventless_def)
  have "emits eventless (syncBody E s fs)"
    unfolding syncBody_def Let_def call_defs
    by (intro eff_bind [OF client] eff_case_sum eff_bind [OF emits_call] eff_bind [OF push] eff_case_option eff_if eff_ret)
      (simp_all add: eventless_def)
  then show ?thesis
    unfolding Sync_def Let_def
    by (auto intro!: eff_bind [OF eventless_calls(1)] eff_bind [OF eventless_calls(2)] eff_ret elim: eff_bind)
qed

text \<open>The syncer and the cleanup of Jobs leave the events to the reconciler.\<close>

locale orderly_reconciler = sound_reconciler +
  assumes sync_eventless: "rec_Syncer r = Some s \<Longrightarrow> emits eventless (s E fs)"
    and cleanup_eventless: "rec_ActionExecutor r = Some m \<Longrightarrow> emits eventless (MultiCleanup m E n ns)"
begin

lemma cleanupTransitionJobs_eventless: "emits eventless (cleanupTransitionJobs E r fs tr)"
proof -
  have "rec_ActionExecutor r = Some m \<Longrightarrow> emits eventless (cleanupJobs E m ns l)" for m ns l
    by (induction l) (auto intro!: eff_ret eff_bind [OF cleanup_eventless])
  then show ?thesis
    unfolding cleanupTransitionJobs_def by (intro eff_case_option eff_ret) simp_all
qed

lemma beginTransition_orderly: "orderly (beginTransition E r fs trigger)"
  unfolding beginTransition_def Let_def
proof (intro orderly_bind [OF eventless_calls(2)] orderly_bind [OF eventless_calls(1)] orderly_bind [OF eventless_helpers(1)]
    orderly_status, goal_cases)
  case (2 t fs2 f)
  show ?case
    unfolding sum.case
    by (intro tspec_bind [OF tspec_eff [OF createFailoverEvent_quiet]] tspec_case_option tspec_ret TrueI)
qed simp

lemma finishTransition_orderly: "orderly (finishTransition E fs tr)"
  unfolding finishTransition_def
proof (rule orderly_status)
  show "tspec (case Inr f of Inl e \<Rightarrow> ret (Inl e) | Inr fs1 \<Rightarrow> do {
       updateFailoverEvent E (setTransition (Some tr) fs1) EventOutcomeSucceeded;
       ret (Inr (requeueAfter antiEntropyInterval)) }) (\<lambda>_ _. True)" for f
    unfolding sum.case by (intro tspec_bind [OF tspec_eff [OF updateFailoverEvent_quiet]] tspec_ret TrueI)
qed simp

lemma remoteWonAfterTransition_orderly: "orderly (remoteWonAfterTransition E r fs tr b rs)"
  unfolding remoteWonAfterTransition_def Let_def
proof (rule orderly_spec)
  fix u :: "go_error + FailoverService"
  have rest: "tspec (case (Inr f :: go_error + FailoverService) of Inl e \<Rightarrow> ret (Inl e) | Inr fs4 \<Rightarrow> do {
         updateFailoverEvent E (setTransition (Some tr) fs4) EventOutcomeSucceeded;
         if c \<noteq> sp_FailoverActive (fs_Spec fs4) then beginTransition E r (setTransition None fs4) triggerRemoteSync
         else ret (Inr requeue) }) (\<lambda>_ _. True)" for f c
    unfolding sum.case
    by (intro tspec_bind [OF tspec_eff [OF updateFailoverEvent_quiet]] tspec_if tspec_ret TrueI
        refines_appends [OF beginTransition_refines [OF idle_simps(1)]])
  show "orderly (case u of Inl e \<Rightarrow> ret (Inl e) | Inr fs1 \<Rightarrow> do {
       fs3 \<leftarrow> updateClusterStatus E r (removeCond E ConditionActionFailed (removeCond E ConditionTransitionInProgress
         (setTransition None (applyRemoteWinnerState fs1 (aliasedRemoteState rs fs1) (aliasedLastKnown b fs1))))) PhaseIdle;
       v \<leftarrow> updateFSStatus E fs3;
       case v of Inl e \<Rightarrow> ret (Inl e) | Inr fs4 \<Rightarrow> do {
         updateFailoverEvent E (setTransition (Some tr) fs4) EventOutcomeSucceeded;
         if aliasedLastKnown b fs1 \<noteq> sp_FailoverActive (fs_Spec fs4)
         then beginTransition E r (setTransition None fs4) triggerRemoteSync else ret (Inr requeue) } })"
  proof (cases u)
    case (Inr fs1)
    show ?thesis
      unfolding Inr sum.case
      by (intro orderly_bind [OF eventless_helpers(1)] orderly_status rest) simp
  qed simp
qed

lemma completeTransition_orderly: "orderly (completeTransition E r fs)"
proof (cases "fs_Transition fs")
  case None
  then show ?thesis by (simp add: completeTransition_def)
next
  case (Some tr)
  have duration: "emits eventless (case tr_StartedAt tr of None \<Rightarrow> ret () | Some s \<Rightarrow>
      do { n \<leftarrow> now E; emit (TransitionDuration (fs_Name fs) (fs_Namespace fs) (tr_TargetDirection tr) (n - s)) })"
    by (intro eff_case_option eff_ret eff_bind [OF eventless_calls(1)] eventless_calls) simp
  show ?thesis
    unfolding completeTransition_def Let_def Some option.case
    by (intro orderly_bind [OF duration] orderly_bind [OF cleanupTransitionJobs_eventless]
        orderly_bind [OF cleanupSignalsOf_eventless] orderly_bind [OF eventless_helpers(3)] orderly_bind [OF eventless_calls(1)]
        orderly_bind [OF eventless_helpers(1)])
      (auto intro!: finishTransition_orderly remoteWonAfterTransition_orderly orderly_bind [OF sync_eventless]
        orderly_bind [OF eventless_helpers(4)] orderly_bind [OF eventless_helpers(5)] split: option.split sum.split)
qed

end

interpretation events: orderly_reconciler "newReconciler role cid provider ns" for role cid provider ns
proof unfold_locales
  show "rec_Syncer (newReconciler role cid provider ns) = Some s \<Longrightarrow> emits eventless (s E fs)" for s E fs
    by (auto simp: newReconciler_def Let_def Sync_eventless)
  show "rec_ActionExecutor (newReconciler role cid provider ns) = Some m \<Longrightarrow> emits eventless (MultiCleanup m E n k)" for m E n k
    by (auto simp: newReconciler_def Let_def MultiCleanup_def actionExecutor_def JobCleanup_def call_defs eventless_def
        intro!: eff_bind [OF emits_call] emits_call eff_ret split: sum.split)
qed

text \<open>An event is written only after it was read, and the outcome it then has.\<close>

lemma updateFailoverEvent_outcome:
  "tspec (updateFailoverEvent E fs outcome) (\<lambda>_ cs. \<forall>ev y. Write (UpdateEventStatus ev) y \<in> set cs \<longrightarrow>
     (\<exists>k old. GetEvent k (Inr old) \<in> set cs \<and> outcomeUpdateAllowed (et_Outcome (fe_Status old)) outcome \<and>
        et_Outcome (fe_Status ev) =
          (if outcome = EventOutcomeSucceeded \<and> et_Outcome (fe_Status old) = EventOutcomeForceAdvanced
           then EventOutcomeForceAdvanced else outcome)))"
  unfolding updateFailoverEvent_def call_defs
  by (intro tspec_case_option tspec_if tspec_ret tspec_bind_call tspec_case_sum)
    (auto simp: recordedStatus_def Let_def)

section \<open>Flushing connections\<close>

text \<open>A status that keeps the transition in phase FlushingConnections.\<close>

definition still_flushing :: "entry \<Rightarrow> bool" where
  "still_flushing e \<longleftrightarrow> (\<forall>f x. e = UpdateFSStatus f x \<longrightarrow>
     (\<exists>tr. fs_Transition f = Some tr \<and> tr_Phase tr = PhaseFlushingConnections))"

lemma quiet_flushing: "quiet e \<Longrightarrow> still_flushing e"
  by (auto simp: still_flushing_def)

lemma CheckAcks_evidence:
  "tspec (CheckAcks E sg tok nodes ns n) (\<lambda>r cs. \<forall>st. r = Inr st \<longrightarrow> as_AllAcked st \<longrightarrow> nodes \<noteq> [] \<longrightarrow>
     (\<exists>cm. GetConfigMap (sg_Namespace sg, ConfigMapName) (Inr cm) \<in> set cs \<and>
        (\<forall>node \<in> set nodes. classifyAck (cm_Data cm) tok ns n node = Acked)))"
proof -
  have acked: "classifyAck d tok ns n node = Acked" if "filter (\<lambda>n'. classifyAck d tok ns n n' = Pending) nodes = []"
    "filter (\<lambda>n'. classifyAck d tok ns n n' = Errored) nodes = []" "node \<in> set nodes" for d node
    using that by (cases "classifyAck d tok ns n node") (auto simp: filter_empty_conv)
  show ?thesis
    unfolding CheckAcks_def getConfigMap_def Let_def
    by (intro tspec_if tspec_ret tspec_bind_call tspec_case_sum) (auto intro: acked)
qed

lemma haltOnAckTimeout_flushing:
  "fs_Transition fs = Some tr \<Longrightarrow> tr_Phase tr = PhaseFlushingConnections \<Longrightarrow> emits still_flushing (haltOnAckTimeout E fs msg)"
  unfolding haltOnAckTimeout_def updateFSStatus_def
  by (intro eff_bind [OF eff_weaken [OF setConditionNow_quiet quiet_flushing]] eff_bind [OF emits_call] eff_case_sum eff_ret)
    (auto simp: still_flushing_def dest: same_objectD)

lemma saveIgnoring_flushing:
  "fs_Transition fs = Some tr \<Longrightarrow> tr_Phase tr = PhaseFlushingConnections \<Longrightarrow> emits still_flushing (saveIgnoring E fs ok)"
  unfolding saveIgnoring_def updateFSStatus_def
  by (intro eff_bind [OF emits_call] eff_ret) (auto simp: still_flushing_def)

lemma ackExpired_flushing: "emits still_flushing (ackExpired E ck)"
  by (rule emits_weaken [OF quiet_helpers(5) quiet_flushing])

definition flush_evidence :: "Signaler \<Rightarrow> ConnectionKillStatus \<Rightarrow> FailoverService \<Rightarrow> entry list \<Rightarrow> bool" where
  "flush_evidence sg ck fs cs \<longleftrightarrow> (\<forall>e \<in> set cs. still_flushing e) \<or>
     (\<exists>cm. GetConfigMap (sg_Namespace sg, ConfigMapName) (Inr cm) \<in> set cs \<and>
        (\<forall>node \<in> set (ck_ExpectedNodes ck). classifyAck (cm_Data cm) (ck_KillToken ck) (fs_Namespace fs) (fs_Name fs) node = Acked))"

lemma flush_evidence_still:
  "\<forall>e \<in> set cs. still_flushing e \<Longrightarrow> emits still_flushing m \<Longrightarrow> tspec m (\<lambda>_ ds. flush_evidence sg ck fs (cs @ ds))"
  by (rule tspec_weaken [OF tspec_eff]) (auto simp: flush_evidence_def)

context sound_reconciler
begin

lemma flushPoll_evidence:
  assumes "fs_Transition fs = Some tr" "tr_Phase tr = PhaseFlushingConnections" "ck_ExpectedNodes ck \<noteq> []"
  shows "tspec (flushPoll E r sg fs tr ck ip) (\<lambda>_ cs. flush_evidence sg ck fs cs)"
  unfolding flushPoll_def Let_def
proof (rule tspec_bind [OF tspec_conj [OF CheckAcks_evidence tspec_eff [OF quiet_helpers(7)]]], goal_cases)
  case (1 a cs)
  then have cs: "\<forall>e \<in> set cs. still_flushing e" by (auto intro: quiet_flushing)
  show ?case
  proof (cases a)
    case (Inl err)
    show ?thesis
      unfolding Inl sum.case
      by (intro flush_evidence_still [OF cs] eff_bind [OF ackExpired_flushing] eff_if eff_ret TrueI
          haltOnAckTimeout_flushing [OF assms(1,2)])
  next
    case (Inr st)
    let ?tr = "tr\<lparr>tr_ConnectionKill := Some (ck\<lparr>ck_AckedNodes := as_AckedNodes st\<rparr>)\<rparr>"
    have tr: "fs_Transition (setTransition (Some ?tr) fs) = Some ?tr" "tr_Phase ?tr = PhaseFlushingConnections"
      using assms(2) by simp_all
    show ?thesis
      unfolding Inr sum.case
    proof (rule tspec_if)
      show "tspec (ackExpired E ck \<bind> (\<lambda>late. if late then haltOnAckTimeout E (setTransition (Some ?tr) fs)
            (''Timed out waiting for ACKs from nodes: ['' @ spaced (as_PendingNodes st) @ '']'')
          else saveIgnoring E (setTransition (Some ?tr) fs) (requeueAfter connKillPollInterval)))
          (\<lambda>x ds. flush_evidence sg ck fs (cs @ ds))"
        by (intro flush_evidence_still [OF cs] eff_bind [OF ackExpired_flushing] eff_if
            haltOnAckTimeout_flushing [OF tr] saveIgnoring_flushing [OF tr])
    next
      assume "\<not> \<not> as_AllAcked st"
      with 1 Inr assms(3) have "flush_evidence sg ck fs (cs @ ds)" for ds
        by (auto simp: flush_evidence_def)
      then show "tspec (emit ConnectionsKilledTotal \<bind> (\<lambda>_. setConditionNow E ConditionConnectionsKilled True ''AllNodesAcked''
            (''All '' @ show_nat (length (ck_ExpectedNodes ck)) @ '' nodes confirmed connection kill for '' @ ip)
            (setTransition (Some ?tr) fs) \<bind> (\<lambda>fs2. advanceAfterFlush E r fs2 ?tr)))
          (\<lambda>x ds. flush_evidence sg ck fs (cs @ ds))"
        by (intro tspec_bind [OF tspec_eff [OF quiet_calls(2)]] tspec_bind [OF tspec_eff [OF setConditionNow_quiet]]
            tspec_weaken [OF refines_appends [OF advanceAfterFlush_refines [OF assms(2) refl]]])
    qed
  qed
qed

end

section \<open>Actions\<close>

text \<open>The action a phase is at, with its result, when neither list is exhausted.\<close>

definition atAction :: "Reconciler \<Rightarrow> FailoverService \<Rightarrow> bool \<Rightarrow> TransitionStatus \<Rightarrow> FailoverAction \<Rightarrow> ActionResult \<Rightarrow> bool" where
  "atAction r fs isPre tr a res \<longleftrightarrow> fs_Transition fs = Some tr \<and> 0 \<le> tr_CurrentActionIndex tr \<and>
     atIndex tr < length (phaseActions r fs tr isPre) \<and> atIndex tr < length (phaseResults isPre tr) \<and>
     a = phaseActions r fs tr isPre ! atIndex tr \<and> res = phaseResults isPre tr ! atIndex tr"

lemma executeActionPhase_at:
  assumes "atAction r fs isPre tr a res"
  shows "executeActionPhase E r fs isPre =
    do { h \<leftarrow> handleActionState E (setTransition (Some tr) fs) isPre a res tr;
         case h of Some reply \<Rightarrow> ret reply | None \<Rightarrow> runAction E r (setTransition (Some tr) fs) isPre a res tr }"
proof -
  have "tr_CurrentActionIndex tr = int (atIndex tr)" using assms by (simp add: atAction_def atIndex_def)
  with assms show ?thesis unfolding atAction_def by (clarsimp simp: executeActionPhase_def Let_def)
qed

lemma setTransition_same: "fs_Transition fs = Some tr \<Longrightarrow> setTransition (Some tr) fs = fs"
  by (simp add: setTransition_def setStatus_def)

lemma saveTransition_calls:
  "wp (saveTransition E fs tr ok) (\<lambda>v w'. v = (case o_updateFSStatus E (w_hist w) (setTransition (Some tr) fs) of
       Inl e \<Rightarrow> Inl e | Inr _ \<Rightarrow> Inr ok) \<and>
     w_hist w' = UpdateFSStatus (setTransition (Some tr) fs) (o_updateFSStatus E (w_hist w) (setTransition (Some tr) fs)) # w_hist w) w"
  by (simp add: saveTransition_def saveStatus_def updateFSStatus_def wp_call Let_def split: sum.split)

text \<open>While an action has not ended, the retries used are within the limit.\<close>

definition retries_ok :: "FailoverAction \<Rightarrow> ActionResult \<Rightarrow> bool" where
  "retries_ok a res \<longleftrightarrow> 0 \<le> ar_RetryCount res \<and>
     (underway (ar_Status res) \<or> ar_Status res = ActionStatusPending \<longrightarrow> ar_RetryCount res \<le> max 0 (actionMaxRetries a))"

text \<open>Every status written has, for the action the phase is at, a result satisfying \<open>Q\<close>.\<close>

definition result_written :: "(ActionResult \<Rightarrow> bool) \<Rightarrow> bool \<Rightarrow> nat \<Rightarrow> entry \<Rightarrow> bool" where
  "result_written Q isPre i e \<longleftrightarrow> (\<forall>f x. e = UpdateFSStatus f x \<longrightarrow>
     (\<exists>tr'. fs_Transition f = Some tr' \<and> Q (phaseResults isPre tr' ! i)))"

lemma quiet_written: "quiet e \<Longrightarrow> result_written Q isPre i e"
  by (auto simp: result_written_def)

lemma phaseResults_store [simp]:
  "i < length (phaseResults isPre tr) \<Longrightarrow> phaseResults isPre (storeResult isPre i res tr) ! i = res"
  "phaseResults isPre (incrIndex tr) = phaseResults isPre tr"
  by (cases isPre; simp add: phaseResults_def storeResult_def incrIndex_def)+

lemma saveTransition_written:
  "Q (phaseResults isPre tr ! i) \<Longrightarrow> emits (result_written Q isPre i) (saveTransition E fs tr ok)"
  unfolding saveTransition_def saveStatus_def updateFSStatus_def
  by (intro eff_bind [OF emits_call] eff_case_sum eff_ret TrueI) (auto simp: result_written_def)

lemma written_calls:
  "emits (result_written Q isPre i) (now E)" "emits (result_written Q isPre i) (countAction fs a s)"
  "emits (result_written Q isPre i) (CheckTimeout E st t)" "emits (result_written Q isPre i) (emit mt)"
  by (auto intro: emits_weaken [OF _ quiet_written] quiet_calls quiet_helpers)

lemma checkActionTimeout_written:
  assumes "i = atIndex tr" "i < length (phaseResults isPre tr)"
    and "\<And>t msg. Q (res\<lparr>ar_Status := ActionStatusFailed, ar_CompletedAt := t, ar_Message := msg\<rparr>)"
  shows "emits (result_written Q isPre i) (checkActionTimeout E fs isPre a res tr limit what)"
proof (cases "(limit, ar_StartedAt res)" rule: prod.exhaust)
  case (Pair l s)
  show ?thesis
    unfolding checkActionTimeout_def Pair case_prod_conv atIndex_def [symmetric] assms(1) [symmetric]
    by (cases l; cases s)
      (auto intro!: eff_bind [OF written_calls(1)] eff_bind [OF written_calls(2)] eff_bind [OF written_calls(3)]
        eff_bind [OF saveTransition_written] eff_ret simp: assms(2,3))
qed

lemma runAction_retries:
  assumes "rec_ActionExecutor r = Some m" "\<And>E ctx a ns p i. emits quiet (MultiExecute m E ctx a ns p i)"
    and "i = atIndex tr" "i < length (phaseResults isPre tr)" "retries_ok a res" "in_int64 (ar_RetryCount res + 1)"
  shows "emits (result_written (retries_ok a) isPre i) (runAction E r fs isPre a res tr)"
proof -
  note written = eff_bind [OF written_calls(1)] eff_bind [OF written_calls(2)] eff_bind [OF written_calls(4)]
  have errored: "emits (result_written (retries_ok a) isPre i) (actionErrored E fs isPre a res tr err)" for err
    unfolding actionErrored_def Let_def atIndex_def [symmetric] assms(3) [symmetric]
    by (intro eff_if written saveTransition_written)
      (use assms(4-6) in \<open>auto simp: retries_ok_def underway_def wrap64_id\<close>)
  have success: "emits (result_written (retries_ok a) isPre i) (case ar_StartedAt res of None \<Rightarrow> ret () | Some s \<Rightarrow> do {
      emit (ActionExecutionDuration (fs_Name fs) (fs_Namespace fs) (fa_Name a) (actionType a) (n - s));
      countAction fs a ''success'' })" for n
    by (intro eff_case_option eff_ret written written_calls) simp
  have failure: "emits (result_written (retries_ok a) isPre i)
      (case ar_StartedAt res of None \<Rightarrow> ret () | Some s \<Rightarrow> countAction fs a ''failure'')"
    by (intro eff_case_option eff_ret written_calls) simp
  have completed: "emits (result_written (retries_ok a) isPre i) (actionCompleted E fs isPre a res tr x)" for x
    unfolding actionCompleted_def Let_def atIndex_def [symmetric] assms(3) [symmetric]
    by (intro eff_if written eff_bind [OF success] eff_bind [OF failure] saveTransition_written)
      (use assms(4,5) in \<open>auto simp: retries_ok_def underway_def\<close>)
  show ?thesis
    unfolding runAction_def assms(1) option.case
    by (intro eff_bind [OF emits_weaken [OF assms(2) quiet_written]] eff_case_sum errored completed)
qed

lemma handleActionState_retries:
  assumes "i = atIndex tr" "i < length (phaseResults isPre tr)" "fs_Transition fs = Some tr"
    and "res = phaseResults isPre tr ! i" "retries_ok a res"
  shows "emits (result_written (retries_ok a) isPre i) (handleActionState E fs isPre a res tr)"
proof -
  note written = eff_bind [OF written_calls(1)] eff_bind [OF saveTransition_written]
  have "emits (result_written (retries_ok a) isPre i) (saveStatus E f noRequeue)" if "same_object fs f" for f
    unfolding saveStatus_def updateFSStatus_def
    by (intro eff_bind [OF emits_call] eff_case_sum eff_ret TrueI)
      (use that assms in \<open>auto simp: result_written_def dest: same_objectD(3)\<close>)
  then have halted: "emits (result_written (retries_ok a) isPre i) (do {
      updateFailoverEvent E fs EventOutcomeFailed;
      fs1 \<leftarrow> setConditionNow E ConditionActionFailed True ''ActionFailed'' msg fs;
      reply \<leftarrow> saveStatus E fs1 noRequeue;
      ret (Some reply) })" for msg
    by (intro eff_bind [OF emits_weaken [OF updateFailoverEvent_quiet quiet_written]]
        eff_bind [OF eff_weaken [OF setConditionNow_quiet quiet_written]] eff_bind eff_ret) auto
  have timeout: "emits (result_written (retries_ok a) isPre i) (checkActionTimeout E fs isPre a res tr limit what)" for limit what
    by (rule checkActionTimeout_written [OF assms(1,2)]) (use assms(5) in \<open>simp add: retries_ok_def underway_def\<close>)
  have timeouts: "emits (result_written (retries_ok a) isPre i)
      (m \<bind> (\<lambda>h. case h of Some reply \<Rightarrow> ret (Some reply) | None \<Rightarrow> n))"
    if "emits (result_written (retries_ok a) isPre i) m" "emits (result_written (retries_ok a) isPre i) n"
    for m n :: "reply option io"
    by (intro eff_bind [OF that(1)] eff_case_option that(2) eff_ret TrueI)
  show ?thesis
    unfolding handleActionState_def Let_def atIndex_def [symmetric] assms(1) [symmetric]
    by (intro eff_if halted timeouts timeout written eff_ret TrueI)
      (use assms in \<open>auto simp: retries_ok_def underway_def\<close>)
qed


text \<open>An action that is not under way is dealt with without running it.\<close>

lemma handleActionState_answers:
  assumes "\<not> underway (ar_Status res)"
  shows "eff (\<lambda>_. True) (handleActionState E fs isPre a res tr) (\<lambda>h. h \<noteq> None)"
proof -
  have any: "emits (\<lambda>_. True) m" if "emits quiet m" for m :: "'b io"
    using that by (rule emits_weaken) simp
  have save: "emits (\<lambda>_. True) (saveStatus E f ok)" for f ok
    unfolding saveStatus_def updateFSStatus_def by (intro eff_bind [OF emits_call] eff_case_sum eff_ret TrueI)
  show ?thesis
    unfolding handleActionState_def Let_def saveTransition_def
    by (intro eff_if eff_bind [OF save] eff_bind [OF any [OF quiet_calls(1)]] eff_bind [OF any [OF updateFailoverEvent_quiet]]
        eff_bind [OF any [OF eff_emits [OF setConditionNow_quiet]]] eff_ret)
      (use assms in \<open>auto simp: underway_def\<close>)
qed

context sound_reconciler
begin

lemma executeActionPhase_retries:
  assumes "atAction r fs isPre tr a res" "retries_ok a res" "in_int64 (max 0 (actionMaxRetries a) + 1)"
  shows "emits (result_written (retries_ok a) isPre (atIndex tr)) (executeActionPhase E r fs isPre)"
proof -
  let ?i = "atIndex tr" and ?W = "result_written (retries_ok a) isPre (atIndex tr)"
  have at: "fs_Transition fs = Some tr" "?i < length (phaseResults isPre tr)" "res = phaseResults isPre tr ! ?i"
    using assms(1) by (simp_all add: atAction_def)
  have handle: "emits ?W (handleActionState E fs isPre a res tr)"
    by (rule handleActionState_retries) (simp_all add: at assms(2) [unfolded at(3)])
  show ?thesis
  proof (cases "underway (ar_Status res)")
    case True
    with assms(2,3) have count: "in_int64 (ar_RetryCount res + 1)" by (auto simp: retries_ok_def in_int64_def)
    have "emits ?W (runAction E r fs isPre a res tr)"
    proof (cases "rec_ActionExecutor r")
      case None
      show ?thesis unfolding runAction_def None option.case by (intro eff_ret TrueI)
    next
      case (Some m)
      show ?thesis by (rule runAction_retries [OF Some exec_quiet [OF Some] refl at(2) assms(2) count])
    qed
    then show ?thesis
      unfolding executeActionPhase_at [OF assms(1)] setTransition_same [OF at(1)]
      by (intro eff_bind [OF handle] eff_case_option eff_ret TrueI)
  next
    case False
    have "eff ?W (handleActionState E fs isPre a res tr) (\<lambda>h. h \<noteq> None)"
      by (rule eff_tspec [OF tspec_weaken [OF tspec_conj [OF tspec_eff [OF handle]
            tspec_eff [OF handleActionState_answers [OF False]]]]]) simp
    then show ?thesis
      unfolding executeActionPhase_at [OF assms(1)] setTransition_same [OF at(1)]
      by (rule eff_bind) (auto intro!: eff_ret)
  qed
qed

lemma reconcileFlushingConnections_evidence:
  assumes "fs_Transition fs = Some tr" "tr_Phase tr = PhaseFlushingConnections" "rec_ConnSignaler r = Some sg"
    and "is_ip (getOldTargetAddress r fs)" "tr_ConnectionKill tr = Some ck" "ck_SignalSent ck" "ck_ExpectedNodes ck \<noteq> []"
  shows "tspec (reconcileFlushingConnections E r fs) (\<lambda>_ cs. flush_evidence sg ck fs cs)"
proof -
  have "\<not> is_ip ''''" by code_simp
  with assms(4) have "getOldTargetAddress r fs \<noteq> ''''" by auto
  with assms show ?thesis
    unfolding reconcileFlushingConnections_def Let_def by (simp add: flushPoll_evidence)
qed

end

lemma failedAction_halts:
  assumes "atAction r fs isPre tr a res" "ar_Status res = ActionStatusFailed" "\<not> fa_IgnoreFailure a"
  shows "eff (\<lambda>e. case e of UpdateFSStatus f x \<Rightarrow> fs_Transition f = Some tr
        | Write c y \<Rightarrow> (\<exists>ev. c = UpdateEventStatus ev) | GetEvent k y \<Rightarrow> True | Now t \<Rightarrow> True | _ \<Rightarrow> False)
     (executeActionPhase E r fs isPre) (\<lambda>reply. reply = Inr noRequeue \<or> (\<exists>e. reply = Inl e))"
proof -
  let ?P = "\<lambda>e. case e of UpdateFSStatus f x \<Rightarrow> fs_Transition f = Some tr
        | Write c y \<Rightarrow> (\<exists>ev. c = UpdateEventStatus ev) | GetEvent k y \<Rightarrow> True | Now t \<Rightarrow> True | _ \<Rightarrow> False"
  have tr: "fs_Transition fs = Some tr" using assms(1) by (simp add: atAction_def)
  have event: "emits ?P (updateFailoverEvent E fs EventOutcomeFailed)"
    unfolding updateFailoverEvent_def call_defs by (intro eff_intros TrueI) simp_all
  have cond: "eff ?P (setConditionNow E ConditionActionFailed True re msg fs) (same_object fs)" for re msg
    unfolding setConditionNow_def now_def by (intro eff_bind [OF emits_call] eff_ret) (simp_all add: same_object_def setCondition_at_def)
  have save: "eff ?P (saveStatus E f noRequeue) (\<lambda>reply. reply = Inr noRequeue \<or> (\<exists>e. reply = Inl e))" if "same_object fs f" for f
    unfolding saveStatus_def updateFSStatus_def
    by (intro eff_bind [OF emits_call] eff_case_sum eff_ret) (use that tr in \<open>auto dest: same_objectD(3)\<close>)
  have "eff ?P (handleActionState E fs isPre a res tr) (\<lambda>h. h = Some (Inr noRequeue) \<or> (\<exists>e. h = Some (Inl e)))"
    unfolding handleActionState_def Let_def
    by (intro eff_if eff_bind [OF event] eff_bind [OF cond] eff_bind [OF save] eff_ret) (use assms in auto)
  then show ?thesis
    unfolding executeActionPhase_at [OF assms(1)] setTransition_same [OF tr]
    by (rule eff_bind) (auto intro!: eff_ret)
qed

lemma pending_calls:
  assumes "atAction r fs isPre tr a res" and "ar_Status res = ActionStatusPending"
  shows "\<exists>x. calls (executeActionPhase E r fs isPre) w =
    [Now (o_now E (w_hist w)), UpdateFSStatus (setTransition (Some (storeResult isPre (atIndex tr)
       (res\<lparr>ar_Status := ActionStatusRunning, ar_StartedAt := Some (o_now E (w_hist w))\<rparr>) tr)) fs) x]"
proof -
  have tr: "fs_Transition fs = Some tr" using assms(1) by (simp add: atAction_def)
  have other: "ActionStatusPending \<noteq> ActionStatusSucceeded" "ActionStatusPending \<noteq> ActionStatusSkipped"
    "ActionStatusPending \<noteq> ActionStatusFailed"
    by (simp_all add: ActionStatusPending_def ActionStatusSucceeded_def ActionStatusSkipped_def ActionStatusFailed_def)
  show ?thesis
    unfolding executeActionPhase_at [OF assms(1)] setTransition_same [OF tr]
    by (simp add: calls_def handleActionState_def assms(2) other Let_def saveTransition_def saveStatus_def call_defs call_def
        atIndex_def split: sum.split)
qed

section \<open>Properties\<close>

text \<open>C10: When phase UpdatingResources is left, traffic goes where the transition said when it started: if
  the phase stores any status, that status moves on to FlushingConnections, and the last thing known about
  the managed objects is that they route to the snapshot of the new address, whatever the specification says
  by then.\<close>

theorem switch_reaches_snapshot:
  assumes "gets_named E" and "fs_Transition fs = Some tr" and "tr_NewAddressSnapshot tr \<noteq> ''''"
    and "UpdateFSStatus f x \<in> set (calls (reconcileUpdatingResources E r fs) w)"
  shows "routes_to E fs (tr_NewAddressSnapshot tr) (w_hist (final (reconcileUpdatingResources E r fs) w)) \<and>
    fs_Transition f = Some (tr\<lparr>tr_Phase := PhaseFlushingConnections, tr_CurrentActionIndex := 0\<rparr>)"
  by (rule reconcileUpdatingResources_routes [OF assms(1,2,4)]) (simp add: assms(3))

theorem switch_reaches_snapshot_witness:
  "routes_to quietEnv switchingFS ''db.new'' (w_hist (final (reconcileUpdatingResources quietEnv sampleReconciler switchingFS) world0))"
proof -
  have "\<not> is_ip ''db.new''" by code_simp
  then have "\<exists>f x. UpdateFSStatus f x \<in> set (calls (reconcileUpdatingResources quietEnv sampleReconciler switchingFS) world0)"
    by (simp add: calls_def reconcileUpdatingResources_def service_defs call_defs call_def Let_def notFound_def IsNotFound_def
        world0_def setConditionNow_def updateClusterStatus_def saveStatus_def)
  then obtain f x where "UpdateFSStatus f x \<in> set (calls (reconcileUpdatingResources quietEnv sampleReconciler switchingFS) world0)"
    by blast
  from switch_reaches_snapshot [OF _ switchingFS_simps(1) _ this] show ?thesis
    by (simp add: gets_named_def)
qed

text \<open>C14: What a completed transition leaves behind: if the first write to the FailoverService at the end is
  a status (the other cluster did not win the synchronisation), that status has no transition, records the
  direction the transition carried out and not the current specification, so that a change made in the
  meantime is seen as pending, increments the active generation and names this cluster.\<close>

theorem completion_records_direction:
  assumes "fs_Transition fs = Some tr"
    and "find is_fs_write (calls (completeTransition E (newReconciler role cid provider ns) fs) w) = Some (UpdateFSStatus f x)"
  shows "fs_Transition f = None \<and>
    st_LastKnownFailoverActive (fs_Status f) = Some (tr_TargetDirection tr = directionFailover) \<and>
    (pending f \<longleftrightarrow> sp_FailoverActive (fs_Spec fs) \<noteq> (tr_TargetDirection tr = directionFailover)) \<and>
    st_ActiveGeneration (fs_Status f) = wrap64 (st_ActiveGeneration (fs_Status fs) + 1) \<and>
    st_ActiveCluster (fs_Status f) = cid"
proof -
  have "completes (newReconciler role cid provider ns) fs tr f"
    using tspec_calls [OF controller.completeTransition_first [OF assms(1), unfolded writes_first_def]] assms(2)
    by (metis first_status_def)
  then show ?thesis by (auto simp: completes_def pending_def newReconciler_def Let_def)
qed

definition postFS :: FailoverService where
  "postFS = setTransition (Some (sampleTransition PhaseExecutingPostActions ActionStatusSucceeded)) sampleFS"

lemma unreachable_sync:
  assumes "\<And>h k. o_getSecret E h k = Inl notFound"
  shows "eff quiet (Sync E sy fs) (\<lambda>s. \<exists>e. s = Inl e)"
proof -
  have "eff quiet (GetClient E p) (\<lambda>s. \<exists>e. s = Inl e)" for p
    unfolding GetClient_def getSecret_def
    by (rule eff_bind [OF eff_call [where Q = "\<lambda>s. s = Inl notFound"]]) (auto simp: quiet_def assms)
  then have "eff quiet (syncBody E sy fs) (\<lambda>s. \<exists>e. s = Inl e)"
    unfolding syncBody_def Let_def by (rule eff_bind) (auto intro!: eff_ret)
  then show ?thesis
    unfolding Sync_def
    by (intro eff_bind [OF quiet_calls(1)], elim eff_bind) (auto intro!: eff_bind [OF quiet_calls(1)] eff_bind [OF quiet_calls(2)] eff_ret)
qed

lemma quiet_completion:
  assumes "fs_Transition fs = Some tr"
  shows "tspec (completeTransition quietEnv sampleReconciler fs) (\<lambda>_ cs. \<exists>f x. find is_fs_write cs = Some (UpdateFSStatus f x))"
proof -
  let ?R = "\<lambda>_ cs. \<exists>f x. find is_fs_write cs = Some (UpdateFSStatus f x)"
  have skip: "find is_fs_write (cs @ ds) = find is_fs_write ds" if "\<forall>e \<in> set cs. quiet e" for cs ds
    using that by (induction cs) (auto simp: quiet_def)
  have quietly: "tspec (m \<bind> k) ?R" if "eff quiet m S" "\<And>a. S a \<Longrightarrow> tspec (k a) ?R" for m :: "'b io" and S and k :: "'b \<Rightarrow> reply io"
    by (rule tspec_bind [OF tspec_eff [OF that(1)]]) (use that(2) in \<open>auto simp: skip\<close>)
  have finish: "tspec (finishTransition quietEnv f tr) ?R" for f
    unfolding finishTransition_def updateFSStatus_def
    by (intro tspec_bind_call tspec_case_sum tspec_ret tspec_bind [OF tspec_eff [OF updateFailoverEvent_quiet]]) auto
  have duration: "emits quiet (case tr_StartedAt tr of None \<Rightarrow> ret () | Some s \<Rightarrow>
      do { n \<leftarrow> now quietEnv; emit (TransitionDuration (fs_Name fs) (fs_Namespace fs) (tr_TargetDirection tr) (n - s)) })"
    by (intro eff_case_option eff_ret eff_bind [OF quiet_calls(1)] quiet_calls) simp
  have jobs: "emits quiet (cleanupTransitionJobs quietEnv sampleReconciler fs tr)"
    unfolding sampleReconciler_def by (rule controller.cleanupTransitionJobs_quiet)
  obtain sy where syncer: "rec_Syncer sampleReconciler = Some (\<lambda>E fs. Sync E sy fs)"
    by (simp add: sampleReconciler_def newReconciler_def Let_def)
  show ?thesis
    unfolding completeTransition_def assms syncer option.case Let_def
    by (intro quietly [OF duration] quietly [OF jobs]
        quietly [OF quiet_helpers(9)] quietly [OF quiet_helpers(4)] quietly [OF quiet_calls(1)]
        quietly [OF updateClusterStatus_kept] quietly [OF unreachable_sync [OF quietEnv_simps(14)]])
      (auto intro!: quietly [OF sync_results_kept(1)] finish)
qed

theorem completion_records_direction_witness:
  "\<exists>f x. find is_fs_write (calls (completeTransition quietEnv sampleReconciler postFS) world0) = Some (UpdateFSStatus f x) \<and>
     st_LastKnownFailoverActive (fs_Status f) = Some True \<and> st_ActiveGeneration (fs_Status f) = 4"
proof -
  have tr: "fs_Transition postFS = Some (sampleTransition PhaseExecutingPostActions ActionStatusSucceeded)"
    by (simp add: postFS_def)
  obtain f x where first: "find is_fs_write (calls (completeTransition quietEnv sampleReconciler postFS) world0) = Some (UpdateFSStatus f x)"
    using tspec_calls [OF quiet_completion [OF tr]] by blast
  have gen: "st_ActiveGeneration (fs_Status postFS) = 3" "tr_TargetDirection (sampleTransition p s) = directionFailover" for p s
    by (simp_all add: postFS_def sampleFS_def sampleStatus_def sampleTransition_def)
  from completion_records_direction [OF tr first [unfolded sampleReconciler_def]] first show ?thesis
    by (auto simp: gen wrap64_def)
qed

text \<open>C19: Events follow the status and never run ahead of it: while a transition is begun or completed, a
  FailoverEvent is created or updated only after a status of the FailoverService was stored, so a failed
  status write leaves no event behind and no event says that a transition succeeded which is still stored
  as being in progress.\<close>

theorem events_follow_status:
  "recorded_after False (calls (beginTransition E (newReconciler role cid provider ns) fs trigger) w) \<and>
   recorded_after False (calls (completeTransition E (newReconciler role cid provider ns) fs) w)"
  using tspec_calls [OF events.beginTransition_orderly [unfolded orderly_def]]
    tspec_calls [OF events.completeTransition_orderly [unfolded orderly_def]] by blast

text \<open>The outcome of an event: whatever is written was read before; an event that succeeded is never
  written again, a failure is only ever replaced by a force-advance, and an event that was force-advanced
  stays so when the transition succeeds.\<close>

theorem event_outcomes_are_final:
  assumes "Write (UpdateEventStatus ev) y \<in> set (calls (updateFailoverEvent E fs outcome) w)"
  shows "\<exists>k old. GetEvent k (Inr old) \<in> set (calls (updateFailoverEvent E fs outcome) w) \<and>
    et_Outcome (fe_Status old) \<noteq> EventOutcomeSucceeded \<and>
    (et_Outcome (fe_Status old) = EventOutcomeFailed \<longrightarrow> et_Outcome (fe_Status ev) = EventOutcomeForceAdvanced) \<and>
    (et_Outcome (fe_Status old) = EventOutcomeForceAdvanced \<longrightarrow>
       et_Outcome (fe_Status ev) \<in> {EventOutcomeForceAdvanced, EventOutcomeFailed})"
proof -
  obtain k old where "GetEvent k (Inr old) \<in> set (calls (updateFailoverEvent E fs outcome) w)"
    "outcomeUpdateAllowed (et_Outcome (fe_Status old)) outcome"
    "et_Outcome (fe_Status ev) = (if outcome = EventOutcomeSucceeded \<and> et_Outcome (fe_Status old) = EventOutcomeForceAdvanced
       then EventOutcomeForceAdvanced else outcome)"
    using tspec_calls [OF updateFailoverEvent_outcome] assms by blast
  then show ?thesis
    by (intro exI [of _ k] exI [of _ old])
      (auto simp: outcomeUpdateAllowed_def EventOutcomeSucceeded_def EventOutcomeFailed_def EventOutcomeForceAdvanced_def
        EventOutcomeInProgress_def split: if_splits)
qed

text \<open>C11: While the connections to the old address are being killed, the transition leaves phase
  FlushingConnections only with evidence: if some status written is not in that phase any more, a
  ConfigMap was read in this reconciliation in which every node that was signalled has an acknowledgement
  with the token of this kill and no error.  A timeout or an unreadable ConfigMap never advances.\<close>

theorem flush_waits_for_acks:
  assumes "fs_Transition fs = Some tr" and "tr_Phase tr = PhaseFlushingConnections"
    and "is_ip (getOldTargetAddress (newReconciler role cid provider ns) fs)"
    and "tr_ConnectionKill tr = Some ck" and "ck_SignalSent ck" and "ck_ExpectedNodes ck \<noteq> []"
    and "UpdateFSStatus f x \<in> set (calls (reconcileFlushingConnections E (newReconciler role cid provider ns) fs) w)"
    and "\<nexists>tr'. fs_Transition f = Some tr' \<and> tr_Phase tr' = PhaseFlushingConnections"
  shows "\<exists>cm. GetConfigMap (ns, ConfigMapName) (Inr cm)
       \<in> set (calls (reconcileFlushingConnections E (newReconciler role cid provider ns) fs) w) \<and>
     (\<forall>node \<in> set (ck_ExpectedNodes ck).
        classifyAck (cm_Data cm) (ck_KillToken ck) (fs_Namespace fs) (fs_Name fs) node = Acked)"
proof -
  have "rec_ConnSignaler (newReconciler role cid provider ns) = Some \<lparr>sg_Namespace = ns\<rparr>"
    by (simp add: newReconciler_def Let_def)
  note evidence = tspec_calls [OF controller.reconcileFlushingConnections_evidence [OF assms(1,2) this assms(3-6)],
      of E w, unfolded flush_evidence_def]
  have "\<not> still_flushing (UpdateFSStatus f x)" using assms(8) by (simp add: still_flushing_def)
  with assms(7) have "\<not> (\<forall>e \<in> set (calls (reconcileFlushingConnections E (newReconciler role cid provider ns) fs) w). still_flushing e)"
    by blast
  with evidence show ?thesis by (simp only: simp_thms Signaler.simps)
qed

definition ackedKill :: ConnectionKillStatus where
  "ackedKill = \<lparr>ck_SignalSent = True, ck_KillToken = ''t'', ck_ExpectedNodes = [''n1''], ck_AckedNodes = [], ck_SignaledAt = Some 7\<rparr>"

definition flushingFS :: FailoverService where
  "flushingFS = setTransition (Some ((sampleTransition PhaseFlushingConnections ActionStatusSucceeded)
     \<lparr>tr_OldAddressSnapshot := ''10.0.0.1'', tr_ConnectionKill := Some ackedKill\<rparr>))
     (sampleFS\<lparr>fs_Spec := (fs_Spec sampleFS)\<lparr>sp_PrimaryCluster := sampleTarget\<lparr>ct_OnFailover :=
        Some \<lparr>ta_PreActions = [sampleAction], ta_PostActions = [sampleAction]\<rparr>\<rparr>\<rparr>\<rparr>)"

definition ackedMap :: ConfigMap where
  "ackedMap = \<lparr>cm_Meta = emptyMeta, cm_Data = Some [(ackKey ''n1'' ''default'' ''db'',
     marshalAck (zeroAck\<lparr>ka_Token := ''t''\<rparr>))]\<rparr>"

lemma ackedMap_acked: "classifyAck (cm_Data ackedMap) ''t'' ''default'' ''db'' ''n1'' = Acked"
proof -
  have "unmarshalAck (marshalAck (zeroAck\<lparr>ka_Token := ''t''\<rparr>)) = Some (zeroAck\<lparr>ka_Token := ''t''\<rparr>)"
    by (rule ack.roundtrip) (simp add: ackEncodable_def zeroAck_def cbyte_def in_int64_def)
  then show ?thesis by (simp add: classifyAck_def ackedMap_def zeroAck_def)
qed

theorem flush_waits_for_acks_witness:
  "\<exists>cm. GetConfigMap (''sys'', ConfigMapName) (Inr cm) \<in> set (calls (reconcileFlushingConnections
     (quietEnv\<lparr>o_getConfigMap := \<lambda>_ _. Inr ackedMap\<rparr>) sampleReconciler flushingFS) world0) \<and>
     classifyAck (cm_Data cm) ''t'' ''default'' ''db'' ''n1'' = Acked"
proof -
  let ?E = "quietEnv\<lparr>o_getConfigMap := \<lambda>_ _. Inr ackedMap\<rparr>"
  have ip: "is_ip ''10.0.0.1''" by code_simp
  have tr: "fs_Transition flushingFS = Some ((sampleTransition PhaseFlushingConnections ActionStatusSucceeded)
     \<lparr>tr_OldAddressSnapshot := ''10.0.0.1'', tr_ConnectionKill := Some ackedKill\<rparr>)"
    by (simp add: flushingFS_def)
  have old: "getOldTargetAddress sampleReconciler flushingFS = ''10.0.0.1''"
    by (simp add: getOldTargetAddress_def tr)
  have names: "fs_Namespace flushingFS = ''default''" "fs_Name flushingFS = ''db''"
    by (simp_all add: flushingFS_def sampleFS_def)
  have sg: "rec_ConnSignaler sampleReconciler = Some \<lparr>sg_Namespace = ''sys''\<rparr>"
    by (simp add: sampleReconciler_def newReconciler_def Let_def)
  have hooks: "getTransitionHooks sampleReconciler f directionFailover = Some \<lparr>ta_PreActions = [sampleAction], ta_PostActions = [sampleAction]\<rparr>"
    if "fs_Spec f = fs_Spec flushingFS" for f
    using that by (simp add: getTransitionHooks_def localTarget_def sampleReconciler_def newReconciler_def Let_def flushingFS_def)
  have sample: "tr_TargetDirection (sampleTransition p s) = directionFailover" for p s by (simp add: sampleTransition_def)
  have "\<exists>f x. UpdateFSStatus f x \<in> set (calls (reconcileFlushingConnections ?E sampleReconciler flushingFS) world0) \<and>
     (\<nexists>tr'. fs_Transition f = Some tr' \<and> tr_Phase tr' = PhaseFlushingConnections)"
    by (simp add: calls_def reconcileFlushingConnections_def tr sg old ip flushPoll_def CheckAcks_def ackedKill_def names ackedMap_acked
        call_defs call_def Let_def world0_def setConditionNow_def advanceAfterFlush_def sample hooks updateClusterStatus_def
        saveStatus_def)
  then obtain f x where "UpdateFSStatus f x \<in> set (calls (reconcileFlushingConnections ?E sampleReconciler flushingFS) world0)"
    "\<nexists>tr'. fs_Transition f = Some tr' \<and> tr_Phase tr' = PhaseFlushingConnections" by blast
  from flush_waits_for_acks [OF tr _ _ _ _ _ this(1) [unfolded sampleReconciler_def] this(2), of ackedKill,
      folded sampleReconciler_def]
  show ?thesis using ip old by (simp add: ackedKill_def names)
qed

text \<open>C16: An action is recorded as started before it runs.  A reconciliation that finds the current action
  pending reads the clock and stores the status in which it is running since then, and makes no other
  call: the action itself runs in a later reconciliation, after that status was stored, so a crash never
  forgets that it may have been run.\<close>

theorem pending_action_persisted_first:
  assumes "atAction r fs isPre tr a res" and "ar_Status res = ActionStatusPending"
  shows "\<exists>x. calls (executeActionPhase E r fs isPre) w =
    [Now (o_now E (w_hist w)), UpdateFSStatus (setTransition (Some (storeResult isPre (atIndex tr)
       (res\<lparr>ar_Status := ActionStatusRunning, ar_StartedAt := Some (o_now E (w_hist w))\<rparr>) tr)) fs) x]"
  by (rule pending_calls [OF assms])

lemma preFS_at: "atAction sampleReconciler (preFS st) True (sampleTransition PhaseExecutingPreActions st) sampleAction (sampleResult st)"
  by (simp add: atAction_def preFS_def phaseActions_def phaseResults_def getTransitionHooks_def localTarget_def sampleReconciler_def
      newReconciler_def Let_def sampleFS_def sampleTarget_def sampleTransition_def atIndex_def)

theorem pending_action_persisted_first_witness:
  "\<exists>f x. calls (executeActionPhase quietEnv sampleReconciler (preFS ActionStatusPending) True) world0 =
     [Now (10 * 10 ^ 9), UpdateFSStatus f x]"
proof -
  have "ar_Status (sampleResult ActionStatusPending) = ActionStatusPending" by simp
  from pending_action_persisted_first [OF preFS_at this, of quietEnv world0] show ?thesis by auto
qed





text \<open>C39: When the other cluster wins the synchronisation at the end of a transition, the direction this
  cluster carried out is forgotten.  The response of the update is decoded through the pointer to the
  local that holds it; if the stored status still knows the direction before the transition and the
  winner demands that one, the status says so, although the traffic was switched the other way, nothing
  is pending and no transition back is begun.\<close>

theorem remote_win_skips_failback:
  assumes "o_updateFS E (w_hist w) (fs\<lparr>fs_Spec := (fs_Spec fs)\<lparr>sp_FailoverActive := rs_FailoverActive rs\<rparr>\<rparr>) = Inr fs1"
    and "st_LastKnownFailoverActive (fs_Status fs1) = Some (\<not> carried)"
    and "sp_FailoverActive (fs_Spec fs1) = (\<not> carried)"
    and "UpdateFSStatus f x \<in> set (calls (remoteWonAfterTransition E r fs tr carried rs) w)"
    and "\<And>h g g'. o_updateFSStatus E h g = Inr g' \<Longrightarrow> fs_Spec g' = fs_Spec g"
  shows "fs_Transition f = None \<and> st_LastKnownFailoverActive (fs_Status f) = Some (\<not> carried) \<and> \<not> pending f"
proof -
  let ?fs = "fs\<lparr>fs_Spec := (fs_Spec fs)\<lparr>sp_FailoverActive := rs_FailoverActive rs\<rparr>\<rparr>"
  define P where "P e \<longleftrightarrow> (\<forall>f x. e = UpdateFSStatus f x \<longrightarrow> fs_Transition f = None \<and>
    st_LastKnownFailoverActive (fs_Status f) = Some (\<not> carried) \<and> \<not> pending f)" for e
  let ?fs2 = "removeCond E ConditionActionFailed (removeCond E ConditionTransitionInProgress
    (setTransition None (applyRemoteWinnerState fs1 (aliasedRemoteState rs fs1) (\<not> carried))))"
  have quietly: "eff P m Q" if "eff quiet m Q" for m :: "'b io" and Q using that by (rule eff_weaken) (auto simp: P_def)
  have same: "aliasedLastKnown carried fs1 = (\<not> carried)" by (simp add: aliasedLastKnown_def assms(2))
  have left: "fs_Transition g = None \<and> st_LastKnownFailoverActive (fs_Status g) = Some (\<not> carried) \<and> \<not> pending g \<and>
      sp_FailoverActive (fs_Spec g) = (\<not> carried)" if "kept ?fs2 g" for g
    using that assms(3) by (auto simp: kept_def same_object_def pending_def removeCond_def applyRemoteWinnerState_def)
  have status: "eff P (updateFSStatus E g) (\<lambda>v. \<forall>g'. v = Inr g' \<longrightarrow> sp_FailoverActive (fs_Spec g') = (\<not> carried))"
    if "kept ?fs2 g" for g
    unfolding updateFSStatus_def using left [OF that] by (intro eff_call) (auto simp: P_def dest: assms(5))
  have rest: "emits P (updateClusterStatus E r ?fs2 PhaseIdle \<bind> (\<lambda>fs3. updateFSStatus E fs3 \<bind> (\<lambda>v.
      case v of Inl e \<Rightarrow> ret (Inl e) | Inr fs4 \<Rightarrow> do {
         updateFailoverEvent E (setTransition (Some tr) fs4) EventOutcomeSucceeded;
         if (\<not> carried) \<noteq> sp_FailoverActive (fs_Spec fs4)
         then beginTransition E r (setTransition None fs4) triggerRemoteSync else ret (Inr requeue) })))"
    by (intro eff_bind [OF quietly [OF updateClusterStatus_kept]] eff_bind [OF status])
      (auto intro!: eff_bind [OF quietly [OF updateFailoverEvent_quiet]] eff_ret split: sum.split)
  have "\<exists>cs. calls (remoteWonAfterTransition E r fs tr carried rs) w = UpdateFS ?fs (o_updateFS E (w_hist w) ?fs) # cs \<and>
      (\<forall>e \<in> set cs. P e)"
    unfolding remoteWonAfterTransition_def updateFS_def Let_def
    by (rule calls_bind_call, unfold assms(1) same sum.case, rule tspec_weaken [OF tspec_eff [OF rest]]) blast
  with assms(4) show ?thesis by (auto simp: P_def)
qed

text \<open>The response to an update of the specification carries the stored status.\<close>

definition storedStatusEnv :: env where
  "storedStatusEnv = quietEnv\<lparr>o_updateFS := \<lambda>_ f. Inr (f\<lparr>fs_Status := sampleStatus\<rparr>)\<rparr>"

definition sampleRemote :: RemoteState where
  "sampleRemote = \<lparr>rs_FailoverActive = False, rs_ActiveCluster = ''b'', rs_ActiveGeneration = 9, rs_LastSyncTime = None,
     rs_ClusterID = ''b'', rs_SpecChangeTime = None\<rparr>"

theorem remote_win_skips_failback_witness:
  "\<exists>f x. UpdateFSStatus f x \<in> set (calls (remoteWonAfterTransition storedStatusEnv sampleReconciler
      (setStatus (\<lambda>s. s\<lparr>st_LastKnownFailoverActive := Some True\<rparr>) sampleFS)
      (sampleTransition PhaseExecutingPostActions ActionStatusSucceeded) True sampleRemote) world0) \<and>
    st_LastKnownFailoverActive (fs_Status f) = Some False \<and> \<not> pending f"
proof -
  let ?fs = "setStatus (\<lambda>s. s\<lparr>st_LastKnownFailoverActive := Some True\<rparr>) sampleFS"
  let ?m = "remoteWonAfterTransition storedStatusEnv sampleReconciler ?fs
      (sampleTransition PhaseExecutingPostActions ActionStatusSucceeded) True sampleRemote"
  have "\<exists>f x. UpdateFSStatus f x \<in> set (calls ?m world0)"
    unfolding remoteWonAfterTransition_def updateFS_def call_def
    by (simp add: calls_def remoteWonAfterTransition_def storedStatusEnv_def sampleRemote_def aliasedLastKnown_def sampleStatus_def
        applyRemoteWinnerState_def        updateClusterStatus_def updateFailoverEvent_def call_defs call_def Let_def world0_def sampleTransition_def)
  then obtain f x where f: "UpdateFSStatus f x \<in> set (calls ?m world0)" by blast
  have response: "o_updateFS storedStatusEnv h g = Inr (g\<lparr>fs_Status := sampleStatus\<rparr>)" for h g
    by (simp add: storedStatusEnv_def)
  have "fs_Transition f = None \<and> st_LastKnownFailoverActive (fs_Status f) = Some (\<not> True) \<and> \<not> pending f"
    by (rule remote_win_skips_failback [OF response _ _ f])
      (simp_all add: storedStatusEnv_def sampleRemote_def sampleStatus_def)
  with f show ?thesis by auto
qed

end
