(* ===== verification/Handshake.thy ===== *)
theory Handshake
  imports Agent
begin

text \<open>
  The connection-kill protocol as a whole: the controller (\<^verbatim>\<open>src/internal/connkill/signaler.go\<close>) and the agents of the
  nodes (\<^verbatim>\<open>src/internal/connkill/agent.go\<close>) talk through one ConfigMap.  The API server is now one that stores it:
  \<open>storedData\<close> is what the writes in the history leave, \<open>serves\<close> says that reads return it and writes are accepted.
  The agents run one after the other, in any order and any number of times, each with its own sequence numbers.
\<close>

section \<open>A server that stores the ConfigMap\<close>

definition dataOf :: "ConfigMap \<Rightarrow> (string, string) gomap" where
  "dataOf cm = (case cm_Data cm of None \<Rightarrow> [] | Some d \<Rightarrow> d)"

fun storedData :: "(string, string) gomap option \<Rightarrow> hist \<Rightarrow> (string, string) gomap option" where
  "storedData d [] = d"
| "storedData d (e # h) = (case e of
       Write (CreateConfigMap cm) None \<Rightarrow> Some (dataOf cm)
     | Write (UpdateConfigMap cm) None \<Rightarrow> Some (dataOf cm)
     | _ \<Rightarrow> storedData d h)"

definition serves :: "env \<Rightarrow> (string, string) gomap option \<Rightarrow> string \<Rightarrow> bool" where
  "serves E base sys \<longleftrightarrow>
     (\<forall>h. case storedData base h of
        None \<Rightarrow> \<exists>e. o_getConfigMap E h (sys, ConfigMapName) = Inl e \<and> IsNotFound e
      | Some d \<Rightarrow> \<exists>cm. o_getConfigMap E h (sys, ConfigMapName) = Inr cm \<and> dataOf cm = d) \<and>
     (\<forall>h cm. o_write E h (CreateConfigMap cm) = None) \<and> (\<forall>h cm. o_write E h (UpdateConfigMap cm) = None)"

abbreviation held :: "(string, string) gomap option \<Rightarrow> world \<Rightarrow> (string, string) gomap option" where
  "held base w \<equiv> storedData base (w_hist w)"

lemma serves_read: "serves E base sys \<Longrightarrow> held base w = Some d \<Longrightarrow>
    \<exists>cm. o_getConfigMap E (w_hist w) (sys, ConfigMapName) = Inr cm \<and> dataOf cm = d"
  unfolding serves_def by (drule conjunct1, drule spec [of _ "w_hist w"]) simp

lemma serves_absent: "serves E base sys \<Longrightarrow> held base w = None \<Longrightarrow>
    \<exists>e. o_getConfigMap E (w_hist w) (sys, ConfigMapName) = Inl e \<and> IsNotFound e"
  unfolding serves_def by (drule conjunct1, drule spec [of _ "w_hist w"]) simp

lemma serves_write: "serves E base sys \<Longrightarrow> o_write E h (CreateConfigMap cm) = None"
  "serves E base sys \<Longrightarrow> o_write E h (UpdateConfigMap cm) = None"
  by (simp_all add: serves_def)

definition stores :: "entry \<Rightarrow> bool" where
  "stores e \<longleftrightarrow> (\<exists>cm. e = Write (CreateConfigMap cm) None \<or> e = Write (UpdateConfigMap cm) None)"

lemma stored_other: "\<not> stores e \<Longrightarrow> storedData d (e # h) = storedData d h"
  by (auto simp: stores_def split: entry.split wcall.split option.split)

lemma stored_others: "\<forall>e \<in> set es. \<not> stores e \<Longrightarrow> storedData d (es @ h) = storedData d h"
  by (induction es) (simp_all add: stored_other del: storedData.simps(2))

lemma held_frame:
  assumes "eff (\<lambda>e. \<not> stores e) m Q"
  shows "wp m (\<lambda>r w'. Q r \<and> held base w' = held base w) w"
proof -
  from assms have "wp m (\<lambda>r w'. \<exists>es. w_hist w' = es @ w_hist w \<and> (\<forall>e \<in> set es. \<not> stores e) \<and> Q r) w"
    by (simp add: eff_def)
  then show ?thesis by (rule wp_mono) (auto simp: stored_others)
qed

lemma wp_OnError_first: "wp fn (\<lambda>r w'. r = None \<and> Q r w') w \<Longrightarrow> wp (OnError n p fn) Q w"
proof (cases n)
  case 0
  then show "wp fn (\<lambda>r w'. r = None \<and> Q r w') w \<Longrightarrow> ?thesis" by (auto elim: wp_mono)
next
  case (Suc k)
  assume "wp fn (\<lambda>r w'. r = None \<and> Q r w') w"
  then show ?thesis unfolding Suc OnError.simps wp_bind by (rule wp_mono) (simp add: wp_rules)
qed

lemma writeAck_held:
  assumes "serves E base (ag_Namespace a)" "held base w = Some d"
  shows "wp (writeAck E a key seq tok ns f killed errs) (\<lambda>r w'. r = None \<and> held base w' = Some (mupdate key (marshalAck
     \<lparr>ka_Seq = seq, ka_Token = tok, ka_Node = ag_NodeName a, ka_FSNamespace = ns, ka_FSName = f, ka_Killed = killed,
      ka_Errors = errs\<rparr>) d)) w"
proof -
  obtain cm where cm: "o_getConfigMap E (w_hist w) (ag_Namespace a, ConfigMapName) = Inr cm" "dataOf cm = d"
    using serves_read [OF assms] by blast
  show ?thesis
    unfolding writeAck_def
    by (rule wp_OnError_first)
      (use cm in \<open>simp add: ackAttempt_def call_defs wp_rules Let_def serves_write [OF assms(1)]\<close>, simp add: dataOf_def)
qed

section \<open>One entry\<close>

text \<open>The signals of one kill are in the data; every node has acknowledged or will not take its signal for an old one.\<close>

definition signalFits :: "string \<Rightarrow> string \<Rightarrow> string \<Rightarrow> string \<Rightarrow> (string \<Rightarrow> int) \<Rightarrow> string \<Rightarrow> string \<Rightarrow> bool" where
  "signalFits ip tok ns f q n v \<longleftrightarrow> unmarshalSignal v = Some (newSignal ip tok ns f n (q n))"

definition acked :: "string \<Rightarrow> string \<Rightarrow> string \<Rightarrow> (string, string) gomap \<Rightarrow> string \<Rightarrow> bool" where
  "acked tok ns f d n \<longleftrightarrow> classifyAck (Some d) tok ns f n = Acked"

definition tracked ::
    "string \<Rightarrow> string \<Rightarrow> string \<Rightarrow> string list \<Rightarrow> (string \<Rightarrow> int) \<Rightarrow> (string \<Rightarrow> seqs) \<Rightarrow> (string, string) gomap \<Rightarrow> bool" where
  "tracked tok ns f nn q L d \<longleftrightarrow> (\<forall>n \<in> set nn. acked tok ns f d n \<or> seqOf (L n) (safeSuffix n ns f) < q n)"

text \<open>What a step of an agent may do to the data: it changes no kill key, and no acknowledgement of this kill is lost.\<close>

definition advances :: "string \<Rightarrow> string \<Rightarrow> string \<Rightarrow> string list \<Rightarrow> (string, string) gomap \<Rightarrow> (string, string) gomap \<Rightarrow> bool" where
  "advances tok ns f nn d d' \<longleftrightarrow> (\<forall>k. mlookup d' (''kill_'' @ k) = mlookup d (''kill_'' @ k)) \<and>
     (distinct (map fst d) \<longrightarrow> distinct (map fst d')) \<and> (\<forall>n \<in> set nn. acked tok ns f d n \<longrightarrow> acked tok ns f d' n)"

lemma advances_refl: "advances tok ns f nn d d"
  by (simp add: advances_def)

lemma advances_trans: "advances tok ns f nn a b \<Longrightarrow> advances tok ns f nn b c \<Longrightarrow> advances tok ns f nn a c"
  by (simp add: advances_def)

lemma acked_other: "k \<noteq> ackKey n ns f \<Longrightarrow> acked tok ns f (mupdate k x d) n = acked tok ns f d n"
  by (simp add: acked_def classifyAck_def)

text \<open>The acknowledgement of a signal after a kill with the given outcome.\<close>

definition ackOf :: "AgentConfig \<Rightarrow> KillSignal \<Rightarrow> int \<times> int \<times> go_error option \<Rightarrow> KillAck" where
  "ackOf a sig = (\<lambda>(killed, errs, err). \<lparr>ka_Seq = ks_Seq sig, ka_Token = ks_Token sig, ka_Node = ag_NodeName a,
     ka_FSNamespace = ks_FSNamespace sig, ka_FSName = ks_FSName sig, ka_Killed = killed,
     ka_Errors = (if err \<noteq> None then wrap64 (errs + 1) else errs)\<rparr>)"

lemma processEntry_held:
  assumes "serves E base (ag_Namespace a)" "held base w = Some d" "\<And>i. eff (\<lambda>e. \<not> stores e) (kill i) (R i)"
    and "key = TrimPrefix k ''kill_''"
  shows "wp (processEntry E kill a l (k, v)) (\<lambda>l' w'.
     (l' = l \<and> held base w' = Some d \<and> (\<forall>sig i. signalFor a k v = Some sig \<longrightarrow> ParseIP (ks_IP sig) = Some i \<longrightarrow> ks_Seq sig \<le> seqOf l key)) \<or>
     (\<exists>sig i r. signalFor a k v = Some sig \<and> ParseIP (ks_IP sig) = Some i \<and> R i r \<and>
        l' = mupdate key (ks_Seq sig) l \<and> held base w' = Some (mupdate (''ack_'' @ key) (marshalAck (ackOf a sig r)) d))) w"
proof (cases "signalFor a k v")
  case (Some sig)
  let ?rest = "\<lambda>(killed, errs, err). writeAck E a (''ack_'' @ key) (ks_Seq sig) (ks_Token sig) (ks_FSNamespace sig)
      (ks_FSName sig) killed (if err \<noteq> None then wrap64 (errs + 1) else errs) \<bind>
      (\<lambda>r. case r of Some e \<Rightarrow> ret l | None \<Rightarrow> ret (mupdate key (ks_Seq sig) l))"
  have kill: "wp (kill i \<bind> ?rest) (\<lambda>l' w'. \<exists>r. R i r \<and> l' = mupdate key (ks_Seq sig) l \<and>
      held base w' = Some (mupdate (''ack_'' @ key) (marshalAck (ackOf a sig r)) d)) w" for i
    unfolding wp_bind
  proof (rule wp_mono [OF held_frame [where base = base, OF assms(3)]], goal_cases)
    case (1 r w1)
    obtain killed errs err where r: "r = (killed, errs, err)" by (cases r)
    from 1 have w1: "held base w1 = Some d" using assms(2) by simp
    show ?case
      unfolding r prod.case wp_bind
      by (rule wp_mono [OF writeAck_held [OF assms(1) w1]])
        (use 1 in \<open>auto simp: wp_rules r ackOf_def intro!: exI [of _ r]\<close>)
  qed
  show ?thesis
  proof (cases "ks_Seq sig \<le> seqOf l key \<or> ParseIP (ks_IP sig) = None")
    case True
    then show ?thesis using assms(2) by (auto simp: processEntry_def Some Let_def wp_rules assms(4))
  next
    case False
    then obtain i where "ParseIP (ks_IP sig) = Some i" "\<not> ks_Seq sig \<le> seqOf l key" by blast
    then show ?thesis
      unfolding processEntry_def fst_conv snd_conv Some option.case Let_def assms(4) [symmetric]
      by (simp only: if_False option.case) (rule wp_mono [OF kill], auto)
  qed
qed (use assms(2) in \<open>simp add: processEntry_def wp_rules\<close>)

text \<open>The parameters of one kill, as the controller chose them, and what is known about the nodes.\<close>

definition sensible :: "string \<Rightarrow> string \<Rightarrow> string \<Rightarrow> string list \<Rightarrow> (string \<Rightarrow> int) \<Rightarrow> bool" where
  "sensible tok ns f nn q \<longleftrightarrow> ascii tok \<and> ascii ns \<and> ascii f \<and> distinct (map (\<lambda>n. killKey n ns f) nn) \<and>
     (\<forall>n \<in> set nn. ascii n \<and> n \<noteq> '''' \<and> in_int64 (q n))"

definition cleanKill :: "ip \<Rightarrow> ip \<Rightarrow> int \<times> int \<times> go_error option \<Rightarrow> bool" where
  "cleanKill destIP i = (\<lambda>(killed, errs, err). i = destIP \<longrightarrow> in_int64 killed \<and> errs = 0 \<and> err = None)"

lemma acked_own:
  assumes "sensible tok ns f nn q" "n \<in> set nn" "ag_NodeName a = n" "cleanKill i i r"
  shows "acked tok ns f (mupdate (ackKey n ns f) (marshalAck (ackOf a (newSignal ip tok ns f n (q n)) r)) d) n"
proof -
  obtain killed errs err where r: "r = (killed, errs, err)" by (cases r)
  let ?x = "ackOf a (newSignal ip tok ns f n (q n)) r"
  have "ackEncodable ?x"
    using assms by (auto simp: r ackEncodable_def ackOf_def newSignal_def sensible_def cleanKill_def in_int64_def)
  from ack.roundtrip [OF this] show ?thesis
    using assms by (simp add: acked_def classifyAck_def ackOf_def r newSignal_def cleanKill_def)
qed

lemma safeSuffix_eq: "killKey n ns f = killKey m ns f \<longleftrightarrow> safeSuffix n ns f = safeSuffix m ns f"
  by (simp add: killKey_def safeKey_suffix)

lemma same_node:
  assumes "sensible tok ns f nn q" "n \<in> set nn" "m \<in> set nn" "safeSuffix n ns f = safeSuffix m ns f"
  shows "n = m"
proof -
  have "inj_on (\<lambda>n. killKey n ns f) (set nn)" using assms(1) by (simp add: sensible_def distinct_map)
  with assms show ?thesis by (auto simp: inj_on_def safeSuffix_eq)
qed

lemma signalFor_fits:
  assumes "signalFits ip tok ns f q n v" "n \<noteq> ''''" "signalFor a k v = Some sig"
  shows "ag_NodeName a = n \<and> sig = newSignal ip tok ns f n (q n)"
  using assms by (auto simp: signalFits_def signalFor_def newSignal_def split: if_splits)

lemma signalFor_key:
  assumes "signalFor a k v = Some sig"
  shows "k = ''kill_'' @ TrimPrefix k ''kill_''"
proof -
  have "HasPrefix k ''kill_''" using assms by (simp add: signalFor_def split: if_splits)
  then obtain t where "k = ''kill_'' @ t" by (rule HasPrefixE)
  then show ?thesis by (simp only: TrimPrefix_append)
qed

lemma killKey_suffix: "killKey n ns f = ''kill_'' @ safeSuffix n ns f"
  by (simp add: killKey_def safeKey_suffix)

text \<open>The effect of one acknowledgement on what the controller sees.\<close>

lemma ack_advances:
  assumes "sensible tok ns f nn q" "tracked tok ns f nn q L d" "ParseIP ip = Some destIP"
    and "\<And>n. n \<in> set nn \<Longrightarrow> k = killKey n ns f \<Longrightarrow> signalFits ip tok ns f q n v"
    and "signalFor a k v = Some sig" "ParseIP (ks_IP sig) = Some i" "cleanKill destIP i r"
    and "key = TrimPrefix k ''kill_''" "d' = mupdate (''ack_'' @ key) (marshalAck (ackOf a sig r)) d"
  shows "advances tok ns f nn d d' \<and> tracked tok ns f nn q (L(ag_NodeName a := mupdate key s (L (ag_NodeName a)))) d' \<and>
    (\<forall>n \<in> set nn. k = killKey n ns f \<longrightarrow> acked tok ns f d' n)"
proof -
  have k: "k = ''kill_'' @ key" using signalFor_key [OF assms(5)] assms(8) by simp
  have own: "acked tok ns f d' n" if n: "n \<in> set nn" "key = safeSuffix n ns f" for n
  proof -
    have "k = killKey n ns f" using that k by (simp add: killKey_suffix)
    with assms(4) n have fits: "signalFits ip tok ns f q n v" by blast
    moreover have "n \<noteq> ''''" using assms(1) n by (simp add: sensible_def)
    ultimately have sig: "ag_NodeName a = n" "sig = newSignal ip tok ns f n (q n)"
      using signalFor_fits assms(5) by blast+
    then have "i = destIP" using assms(3,6) by (simp add: newSignal_def)
    with assms(7) have "cleanKill i i r" by simp
    from acked_own [OF assms(1) n(1) sig(1) this] show ?thesis
      by (simp add: assms(9) sig(2) n(2) ackKey_suffix)
  qed
  have other: "acked tok ns f d' n = acked tok ns f d n" if "key \<noteq> safeSuffix n ns f" for n
    using that unfolding assms(9) by (intro acked_other) (simp add: ackKey_suffix)
  have "advances tok ns f nn d d'"
    unfolding advances_def
  proof (intro conjI)
    show "\<forall>n \<in> set nn. acked tok ns f d n \<longrightarrow> acked tok ns f d' n" using own other by blast
  qed (simp_all add: assms(9) distinct_update)
  moreover have "tracked tok ns f nn q (L(ag_NodeName a := mupdate key s (L (ag_NodeName a)))) d'"
    unfolding tracked_def
  proof
    fix n
    assume n: "n \<in> set nn"
    show "acked tok ns f d' n \<or> seqOf ((L(ag_NodeName a := mupdate key s (L (ag_NodeName a)))) n) (safeSuffix n ns f) < q n"
    proof (cases "key = safeSuffix n ns f")
      case False
      with n assms(2) show ?thesis by (auto simp: other tracked_def seqOf_def)
    qed (use own n in blast)
  qed
  moreover have "\<forall>n \<in> set nn. k = killKey n ns f \<longrightarrow> acked tok ns f d' n"
    using own k by (auto simp: killKey_suffix)
  ultimately show ?thesis by blast
qed

lemma processEntry_tracked:
  assumes "serves E base (ag_Namespace a)" "held base w = Some d" "\<And>i. eff (\<lambda>e. \<not> stores e) (kill i) (cleanKill destIP i)"
    and "ParseIP ip = Some destIP" "sensible tok ns f nn q" "tracked tok ns f nn q L d"
    and "\<And>n. n \<in> set nn \<Longrightarrow> fst e = killKey n ns f \<Longrightarrow> signalFits ip tok ns f q n (snd e)"
  shows "wp (processEntry E kill a (L (ag_NodeName a)) e) (\<lambda>l' w'. \<exists>d'. held base w' = Some d' \<and>
     advances tok ns f nn d d' \<and> tracked tok ns f nn q (L(ag_NodeName a := l')) d' \<and>
     (ag_NodeName a \<in> set nn \<and> fst e = killKey (ag_NodeName a) ns f \<longrightarrow> acked tok ns f d' (ag_NodeName a))) w"
proof -
  obtain k v where e: "e = (k, v)" by fastforce
  let ?m = "ag_NodeName a" and ?key = "TrimPrefix k ''kill_''"
  have seen: "acked tok ns f d ?m" if "?m \<in> set nn" "k = killKey ?m ns f"
    "\<forall>sig i. signalFor a k v = Some sig \<longrightarrow> ParseIP (ks_IP sig) = Some i \<longrightarrow> ks_Seq sig \<le> seqOf (L ?m) ?key"
  proof -
    have "unmarshalSignal v = Some (newSignal ip tok ns f ?m (q ?m))" "?m \<noteq> ''''"
      using assms(5,7) that(1,2) by (auto simp: e signalFits_def sensible_def)
    from signalFor_own [OF this] have "q ?m \<le> seqOf (L ?m) (safeSuffix ?m ns f)"
      using that(2,3) assms(4) by (auto simp: newSignal_def suffix_of_killKey)
    with assms(6) that(1) show ?thesis by (auto simp: tracked_def)
  qed
  show ?thesis
    unfolding e
  proof (rule wp_mono [OF processEntry_held [OF assms(1-3) refl]], elim disjE exE conjE, goal_cases)
    case (1 l' w')
    then show ?case using seen assms(6) by (auto simp: advances_refl)
  next
    case (2 l' w' sig i r)
    from ack_advances [OF assms(5,6,4) _ 2(1,2,3) refl refl] assms(7) 2(4,5)
    show ?case by (auto simp: e)
  qed
qed

section \<open>Runs of the agents\<close>

lemma processEntries_tracked:
  assumes "serves E base (ag_Namespace a)" "\<And>i. eff (\<lambda>e. \<not> stores e) (kill i) (cleanKill destIP i)"
    and "ParseIP ip = Some destIP" "sensible tok ns f nn q" "m = ag_NodeName a"
    and "held base w = Some d" "tracked tok ns f nn q L d"
    and "\<And>n e. n \<in> set nn \<Longrightarrow> e \<in> set es \<Longrightarrow> fst e = killKey n ns f \<Longrightarrow> signalFits ip tok ns f q n (snd e)"
  shows "wp (processEntries E kill a (L m) es) (\<lambda>l' w'. \<exists>d'. held base w' = Some d' \<and>
     advances tok ns f nn d d' \<and> tracked tok ns f nn q (L(m := l')) d' \<and>
     (m \<in> set nn \<and> killKey m ns f \<in> fst ` set es \<longrightarrow> acked tok ns f d' m)) w"
  using assms(6-8)
proof (induction es arbitrary: L d w)
  case Nil
  have "L(m := L m) = L" by simp
  with Nil show ?case unfolding processEntries.simps wp_ret by (intro exI [of _ d]) (simp add: advances_refl)
next
  case (Cons e es)
  show ?case
    unfolding processEntries.simps wp_bind assms(5)
  proof (rule wp_mono [OF processEntry_tracked [OF assms(1) Cons.prems(1) assms(2,3,4) Cons.prems(2)]], goal_cases)
    case (1 n)
    then show ?case using Cons.prems(3) by simp
  next
    case (2 l1 w1)
    then obtain d1 where d1: "held base w1 = Some d1" "advances tok ns f nn d d1" "tracked tok ns f nn q (L(m := l1)) d1"
      "m \<in> set nn \<and> fst e = killKey m ns f \<longrightarrow> acked tok ns f d1 m" by (auto simp: assms(5))
    have "wp (processEntries E kill a ((L(m := l1)) m) es) (\<lambda>l' w'. \<exists>d'. held base w' = Some d' \<and>
       advances tok ns f nn d1 d' \<and> tracked tok ns f nn q ((L(m := l1))(m := l')) d' \<and>
       (m \<in> set nn \<and> killKey m ns f \<in> fst ` set es \<longrightarrow> acked tok ns f d' m)) w1"
      by (rule Cons.IH [OF d1(1,3)]) (use Cons.prems(3) in auto)
    then have "wp (processEntries E kill a l1 es) (\<lambda>l' w'. \<exists>d'. held base w' = Some d' \<and>
       advances tok ns f nn d1 d' \<and> tracked tok ns f nn q (L(m := l')) d' \<and>
       (m \<in> set nn \<and> killKey m ns f \<in> fst ` set es \<longrightarrow> acked tok ns f d' m)) w1" by simp
    then show ?case
      unfolding assms(5) [symmetric]
      by (rule wp_mono) (use d1(2,4) in \<open>auto intro: advances_trans simp: advances_def\<close>)
  qed
qed

definition signalled :: "string \<Rightarrow> string \<Rightarrow> string \<Rightarrow> string \<Rightarrow> string list \<Rightarrow> (string \<Rightarrow> int) \<Rightarrow> (string, string) gomap \<Rightarrow> bool" where
  "signalled ip tok ns f nn q d \<longleftrightarrow> distinct (map fst d) \<and>
     (\<forall>n \<in> set nn. \<exists>v. mlookup d (killKey n ns f) = Some v \<and> signalFits ip tok ns f q n v)"

lemma signalled_advances: "signalled ip tok ns f nn q d \<Longrightarrow> advances tok ns f nn d d' \<Longrightarrow> signalled ip tok ns f nn q d'"
  by (auto simp: signalled_def advances_def killKey_suffix)

lemma signalled_entry:
  assumes "signalled ip tok ns f nn q d" "n \<in> set nn"
  shows "killKey n ns f \<in> fst ` set d" "e \<in> set d \<Longrightarrow> fst e = killKey n ns f \<Longrightarrow> signalFits ip tok ns f q n (snd e)"
proof -
  obtain v where v: "mlookup d (killKey n ns f) = Some v" "signalFits ip tok ns f q n v" "distinct (map fst d)"
    using assms by (auto simp: signalled_def)
  from map_of_SomeD [OF v(1)] show "killKey n ns f \<in> fst ` set d" by force
  show "signalFits ip tok ns f q n (snd e)" if "e \<in> set d" "fst e = killKey n ns f"
  proof -
    have "mlookup d (fst e) = Some (snd e)" by (rule map_of_is_SomeI [OF v(3)]) (simp add: that(1))
    with v that(2) show ?thesis by simp
  qed
qed

text \<open>The agents of the nodes run in the order of a schedule, each with its own sequence numbers and its own way to
  kill.\<close>

fun runAgents :: "env \<Rightarrow> (string \<Rightarrow> killer) \<Rightarrow> string \<Rightarrow> string list \<Rightarrow> (string \<Rightarrow> seqs) \<Rightarrow> (string \<Rightarrow> seqs) io" where
  "runAgents E kill sys [] L = ret L"
| "runAgents E kill sys (n # schedule) L =
     do { r \<leftarrow> RunOnce E (kill n) \<lparr>ag_NodeName = n, ag_Namespace = sys\<rparr> (L n);
          runAgents E kill sys schedule (L(n := fst r)) }"

lemma RunOnce_tracked:
  assumes "serves E base (ag_Namespace a)" "\<And>i. eff (\<lambda>e. \<not> stores e) (kill i) (cleanKill destIP i)"
    and "ParseIP ip = Some destIP" "sensible tok ns f nn q" "m = ag_NodeName a"
    and "held base w = Some d" "tracked tok ns f nn q L d" "signalled ip tok ns f nn q d"
  shows "wp (RunOnce E kill a (L m)) (\<lambda>r w'. \<exists>d'. held base w' = Some d' \<and>
     advances tok ns f nn d d' \<and> tracked tok ns f nn q (L(m := fst r)) d' \<and> (m \<in> set nn \<longrightarrow> acked tok ns f d' m)) w"
proof -
  obtain cm where cm: "o_getConfigMap E (w_hist w) (ag_Namespace a, ConfigMapName) = Inr cm" "dataOf cm = d"
    using serves_read [OF assms(1,6)] by blast
  let ?w = "w\<lparr>w_hist := GetConfigMap (ag_Namespace a, ConfigMapName) (Inr cm) # w_hist w\<rparr>"
  have "held base ?w = Some d" using assms(6) by simp
  have "wp (processEntries E kill a (L m) d) (\<lambda>l' w'. \<exists>d'. held base w' = Some d' \<and> advances tok ns f nn d d' \<and>
      tracked tok ns f nn q (L(m := l')) d' \<and> (m \<in> set nn \<longrightarrow> acked tok ns f d' m)) ?w"
    by (rule wp_mono [OF processEntries_tracked [OF assms(1-5) \<open>held base ?w = Some d\<close> assms(7) signalled_entry(2) [OF assms(8)]]])
      (use signalled_entry(1) [OF assms(8)] in auto)
  then show ?thesis
    using cm by (auto simp: RunOnce_def getConfigMap_def wp_rules Let_def dataOf_def elim!: wp_mono)
qed

lemma runAgents_acks:
  assumes "serves E base sys" "\<And>n i. eff (\<lambda>e. \<not> stores e) (kill n i) (cleanKill destIP i)"
    and "ParseIP ip = Some destIP" "sensible tok ns f nn q"
    and "held base w = Some d" "tracked tok ns f nn q L d" "signalled ip tok ns f nn q d"
  shows "wp (runAgents E kill sys schedule L) (\<lambda>_ w'. \<exists>d'. held base w' = Some d' \<and>
     advances tok ns f nn d d' \<and> (\<forall>n \<in> set nn \<inter> set schedule. acked tok ns f d' n)) w"
  using assms(5-7)
proof (induction schedule arbitrary: L d w)
  case Nil
  then show ?case by (auto simp: wp_rules advances_refl)
next
  case (Cons n schedule)
  let ?a = "\<lparr>ag_NodeName = n, ag_Namespace = sys\<rparr>"
  have "wp (RunOnce E (kill n) ?a (L n)) (\<lambda>r w'. \<exists>d'. held base w' = Some d' \<and> advances tok ns f nn d d' \<and>
      tracked tok ns f nn q (L(n := fst r)) d' \<and> (n \<in> set nn \<longrightarrow> acked tok ns f d' n)) w"
    using RunOnce_tracked [where E = E and a = ?a and kill = "kill n", OF _ assms(2,3,4) _ Cons.prems] assms(1) by simp
  then show ?case
    unfolding runAgents.simps wp_bind
  proof (rule wp_mono)
    fix r w1
    assume "\<exists>d'. held base w1 = Some d' \<and> advances tok ns f nn d d' \<and> tracked tok ns f nn q (L(n := fst r)) d' \<and>
      (n \<in> set nn \<longrightarrow> acked tok ns f d' n)"
    then obtain d1 where d1: "held base w1 = Some d1" "advances tok ns f nn d d1" "tracked tok ns f nn q (L(n := fst r)) d1"
      "n \<in> set nn \<longrightarrow> acked tok ns f d1 n" by blast
    from Cons.IH [OF d1(1,3) signalled_advances [OF Cons.prems(3) d1(2)]]
    show "wp (runAgents E kill sys schedule (L(n := fst r))) (\<lambda>_ w'. \<exists>d'. held base w' = Some d' \<and>
        advances tok ns f nn d d' \<and> (\<forall>m \<in> set nn \<inter> set (n # schedule). acked tok ns f d' m)) w1"
      by (rule wp_mono) (use d1(2,4) in \<open>auto intro: advances_trans simp: advances_def\<close>)
  qed
qed

section \<open>The controller's side\<close>

definition initial :: "(string, string) gomap option \<Rightarrow> (string, string) gomap" where
  "initial d = (case d of None \<Rightarrow> [] | Some x \<Rightarrow> x)"

lemma populate_distinct: "distinct (map fst d) \<Longrightarrow> distinct (map fst (populateKillSignals d nn ip tok ns f))"
  by (induction nn arbitrary: d) (simp_all add: populate_Nil populate_Cons distinct_update)

lemma populate_signalled:
  assumes "sensible tok ns f nn q" "ascii ip" "distinct (map fst d)"
    and "q = (\<lambda>n. nextSeq (mlookup d (killKey n ns f)))"
  shows "signalled ip tok ns f nn q (populateKillSignals d nn ip tok ns f)"
proof -
  have "signalFits ip tok ns f q n (marshalSignal (newSignal ip tok ns f n (q n)))" if "n \<in> set nn" for n
    unfolding signalFits_def by (rule signal.roundtrip)
      (use assms that in \<open>simp add: signalEncodable_def newSignal_def sensible_def\<close>)
  moreover have "mlookup (populateKillSignals d nn ip tok ns f) (killKey n ns f) =
      Some (marshalSignal (newSignal ip tok ns f n (q n)))" if "n \<in> set nn" for n
    unfolding assms(4) by (rule populate_lookup) (use assms(1) that in \<open>simp_all add: sensible_def\<close>)
  ultimately show ?thesis
    by (auto simp: signalled_def populate_distinct assms(3))
qed

lemma signalAttempt_held:
  assumes "serves E base (sg_Namespace s)" "initial (held base w) = d"
  shows "wp (signalAttempt E s nn ip tok ns f) (\<lambda>r w'. r = None \<and> held base w' = Some (populateKillSignals d nn ip tok ns f)) w"
proof (cases "held base w")
  case None
  then obtain e where "o_getConfigMap E (w_hist w) (sg_Namespace s, ConfigMapName) = Inl e" "IsNotFound e"
    using serves_absent [OF assms(1)] by blast
  then show ?thesis
    using None assms by (simp add: signalAttempt_def call_defs wp_rules serves_write dataOf_def initial_def)
next
  case (Some x)
  then obtain cm where "o_getConfigMap E (w_hist w) (sg_Namespace s, ConfigMapName) = Inr cm" "dataOf cm = x"
    using serves_read [OF assms(1)] by blast
  then show ?thesis
    using Some assms by (simp add: signalAttempt_def call_defs wp_rules serves_write dataOf_def initial_def split: option.splits)
qed

lemma SignalKill_held:
  assumes "serves E base (sg_Namespace s)"
  shows "wp (SignalKill E s ip tok ns f) (\<lambda>r w'. \<forall>nn. r = Inr nn \<longrightarrow> nn \<noteq> [] \<longrightarrow>
     held base w' = Some (populateKillSignals (initial (held base w)) nn ip tok ns f)) w"
proof -
  have "emits (\<lambda>e. \<not> stores e) (discoverAgentNodes E s)"
    unfolding discoverAgentNodes_def call_defs Let_def by (intro eff_intros TrueI) (simp_all add: stores_def)
  note nodes = held_frame [where base = base, OF this]
  show ?thesis
    unfolding SignalKill_def wp_bind
  proof (rule wp_mono [OF nodes], goal_cases)
    case (1 r w1)
    have "wp (OnError k p (signalAttempt E s nn ip tok ns f)) (\<lambda>r w'. r = None \<and>
        held base w' = Some (populateKillSignals (initial (held base w)) nn ip tok ns f)) w1" for k p nn
      by (rule wp_OnError_first, rule wp_mono [OF signalAttempt_held [OF assms]]) (use 1 in auto)
    note sent = this
    show ?case by (auto simp: wp_rules split: sum.split intro!: wp_mono [OF sent])
  qed
qed

lemma classify_dataOf: "classifyAck (cm_Data cm) tok ns f n = classifyAck (Some (dataOf cm)) tok ns f n"
  by (cases "cm_Data cm") (simp_all add: classifyAck_def dataOf_def)

lemma CheckAcks_all:
  assumes "serves E base (sg_Namespace s)" "held base w = Some d" "\<forall>n \<in> set nn. acked tok ns f d n"
  shows "wp (CheckAcks E s tok nn ns f) (\<lambda>r _. \<exists>st. r = Inr st \<and> as_AllAcked st) w"
proof -
  obtain cm where "o_getConfigMap E (w_hist w) (sg_Namespace s, ConfigMapName) = Inr cm" "dataOf cm = d"
    using serves_read [OF assms(1,2)] by blast
  then show ?thesis
    using assms(3) by (auto simp: CheckAcks_def call_defs wp_rules Let_def classify_dataOf acked_def filter_empty_conv)
qed

section \<open>The handshake\<close>

definition handshake ::
    "env \<Rightarrow> Signaler \<Rightarrow> (string \<Rightarrow> killer) \<Rightarrow> string list \<Rightarrow> (string \<Rightarrow> seqs) \<Rightarrow> string \<Rightarrow> string \<Rightarrow> string \<Rightarrow> string \<Rightarrow>
     (go_error + AckStatus) io" where
  "handshake E s kill schedule L ip tok ns f =
     do { r \<leftarrow> SignalKill E s ip tok ns f;
          case r of
            Inl e \<Rightarrow> ret (Inl e)
          | Inr nn \<Rightarrow> do {
              runAgents E kill (sg_Namespace s) schedule L;
              CheckAcks E s tok nn ns f } }"

text \<open>C13: The handshake completes.  With an API server that stores the ConfigMap, let the controller signal a kill, the
  agents of all signalled nodes run, in any order and interleaved with any number of runs of these and other agents and
  with signals of other FailoverServices in the ConfigMap, and the controller check.  If every agent kills without error
  and has not yet seen a sequence number as high as that of its new signal, the controller finds that all nodes have
  acknowledged.\<close>

theorem handshake_completes:
  assumes "serves E base (sg_Namespace s)" "distinct (map fst (initial (held base w)))"
    and "result (SignalKill E s ip tok ns f) w = Inr nn" "set nn \<subseteq> set schedule"
    and "distinct (map (\<lambda>n. killKey n ns f) nn)" "ascii ip" "ascii tok" "ascii ns" "ascii f" "\<forall>n \<in> set nn. ascii n \<and> n \<noteq> ''''"
    and "ParseIP ip = Some destIP"
    and "\<And>n i. eff (\<lambda>e. \<not> stores e) (kill n i) (cleanKill destIP i)"
    and "\<forall>n \<in> set nn. seqOf (L n) (safeSuffix n ns f) < nextSeq (mlookup (initial (held base w)) (killKey n ns f))"
  shows "\<exists>st. result (handshake E s kill schedule L ip tok ns f) w = Inr st \<and> as_AllAcked st"
proof (cases "nn = []")
  case True
  then show ?thesis
    using assms(3) by (simp add: handshake_def run_bind run_ret CheckAcks_def)
next
  case False
  let ?q = "\<lambda>n. nextSeq (mlookup (initial (held base w)) (killKey n ns f))"
  let ?d = "populateKillSignals (initial (held base w)) nn ip tok ns f"
  let ?w = "final (SignalKill E s ip tok ns f) w"
  have ok: "sensible tok ns f nn ?q"
    using assms(5-10) nextSeq_in by (simp add: sensible_def)
  have held: "held base ?w = Some ?d"
    using SignalKill_held [OF assms(1), of ip tok ns f w] assms(3) False by (simp add: wp_result_final)
  have tracked: "tracked tok ns f nn ?q L ?d" using assms(13) by (simp add: tracked_def)
  have "wp (runAgents E kill (sg_Namespace s) schedule L) (\<lambda>_ w'. \<exists>d'. held base w' = Some d' \<and> (\<forall>n \<in> set nn. acked tok ns f d' n)) ?w"
    by (rule wp_mono [OF runAgents_acks [OF assms(1,12,11) ok held tracked populate_signalled [OF ok assms(6,2) refl]]])
      (use assms(4) in blast)
  then have "wp (runAgents E kill (sg_Namespace s) schedule L \<bind> (\<lambda>_. CheckAcks E s tok nn ns f))
      (\<lambda>r _. \<exists>st. r = Inr st \<and> as_AllAcked st) ?w"
    unfolding wp_bind by (rule wp_mono) (use CheckAcks_all [OF assms(1)] in blast)
  then show ?thesis
    using assms(3) by (simp add: handshake_def run_bind wp_result_final)
qed

definition storingEnv :: env where
  "storingEnv = agentEnv\<lparr>o_getConfigMap := \<lambda>h _. case storedData None h of
     None \<Rightarrow> Inl notFound | Some d \<Rightarrow> Inr \<lparr>cm_Meta = emptyMeta, cm_Data = Some d\<rparr>\<rparr>"

lemma storingEnv_serves: "serves storingEnv None sys"
  by (auto simp: serves_def storingEnv_def agentEnv_def notFound_def IsNotFound_def dataOf_def split: option.split)

theorem handshake_completes_witness:
  "\<exists>st. result (handshake storingEnv \<lparr>sg_Namespace = ''sys''\<rparr> (\<lambda>_. noConns) [''n2'', ''n1''] (\<lambda>_. []) ''10.0.0.1'' ''t'' ''default'' ''db'')
     world0 = Inr st \<and> as_AllAcked st"
proof -
  have "is_ip ''10.0.0.1''" by code_simp
  then obtain i where ip: "ParseIP ''10.0.0.1'' = Some i" by (auto simp: is_ip_def)
  have empty: "initial (held None world0) = []" by (simp add: initial_def world0_def)
  have run: "result (SignalKill storingEnv \<lparr>sg_Namespace = ''sys''\<rparr> ''10.0.0.1'' ''t'' ''default'' ''db'') world0 = Inr [''n1'']"
    by (simp add: result_def SignalKill_def discoverAgentNodes_def signalAttempt_def storingEnv_def agentEnv_def call_defs call_def
        Let_def isNodeEligible_def mget_def emptyMeta_def sort_strings_def notFound_def IsNotFound_def world0_def numeral_eq_Suc)
  show ?thesis
    by (rule handshake_completes [OF storingEnv_serves _ run _ _ _ _ _ _ _ ip])
      (simp_all add: empty cbyte_def noConns_def cleanKill_def in_int64_def eff_ret seqOf_def nextSeq_def)
qed

end
