(* ===== verification/Lifecycle.thy ===== *)
theory Lifecycle
  imports Transition
begin

text \<open>
  What is stored over the life of a FailoverService.  \<open>well_formed\<close> is the type of the transition in its status, beyond
  the Go types: the enumerations that \<^verbatim>\<open>src/api/v1alpha1/failoverservice_types.go\<close> declares for phases, action statuses
  and directions, and an action index that fits the results of the phase.  \<open>stored\<close> are the transitions that
  reconciliations can leave, starting from a new object: in between, the specification and everything else may change, and
  the environment may be another one each time.
\<close>

section \<open>Well-formed transitions\<close>

definition phaseEnum :: "FailoverPhase list" where
  "phaseEnum = [PhaseIdle, PhaseExecutingPreActions, PhaseUpdatingResources, PhaseFlushingConnections, PhaseExecutingPostActions]"

definition statusEnum :: "string list" where
  "statusEnum = [ActionStatusPending, ActionStatusRunning, ActionStatusSucceeded, ActionStatusFailed, ActionStatusSkipped]"

definition directionEnum :: "string list" where
  "directionEnum = [directionFailover, directionFailback]"

definition allResults :: "TransitionStatus \<Rightarrow> ActionResult list" where
  "allResults tr = tr_PreActionResults tr @ tr_PostActionResults tr"

text \<open>The index of an action phase is at most the number of its results (which is the length of a Go slice), elsewhere
  it is zero.\<close>

definition indexFits :: "TransitionStatus \<Rightarrow> bool" where
  "indexFits tr \<longleftrightarrow> (int (length (allResults tr)) < 2 ^ 63 \<longrightarrow> 0 \<le> tr_CurrentActionIndex tr \<and>
     tr_CurrentActionIndex tr \<le> (if tr_Phase tr = PhaseExecutingPreActions then int (length (tr_PreActionResults tr))
       else if tr_Phase tr = PhaseExecutingPostActions then int (length (tr_PostActionResults tr)) else 0))"

definition transition_ok :: "TransitionStatus \<Rightarrow> bool" where
  "transition_ok tr \<longleftrightarrow> tr_Phase tr \<in> set phaseEnum \<and> tr_TargetDirection tr \<in> set directionEnum \<and>
     list_all (\<lambda>res. ar_Status res \<in> set statusEnum) (allResults tr) \<and> indexFits tr"

definition well_formed :: "TransitionStatus option \<Rightarrow> bool" where
  "well_formed t \<longleftrightarrow> (case t of None \<Rightarrow> True | Some tr \<Rightarrow> transition_ok tr)"

lemma well_formed_simps [simp]: "well_formed None" "well_formed (Some tr) = transition_ok tr"
  by (simp_all add: well_formed_def)

lemma statusEnum_step: "s \<in> set statusEnum \<Longrightarrow> status_step s s' \<Longrightarrow> s' \<in> set statusEnum"
  by (auto simp: statusEnum_def status_step_def)

lemma storeResult_results:
  "length (allResults (storeResult isPre i res tr)) = length (allResults tr)"
  "list_all P (allResults tr) \<Longrightarrow> P res \<Longrightarrow> list_all P (allResults (storeResult isPre i res tr))"
  by (simp_all add: allResults_def storeResult_def list_all_update)

text \<open>A result of the current action is stored, and the index moves on or stays.\<close>

lemma actionPhase_simps [simp]: "actionPhase True = PhaseExecutingPreActions" "actionPhase False = PhaseExecutingPostActions"
  by (simp_all add: actionPhase_def)

lemma transition_ok_store:
  assumes "transition_ok tr" "tr_Phase tr = actionPhase isPre" "ar_Status res \<in> set statusEnum"
    and "atIndex tr < length (phaseResults isPre tr)"
  shows "transition_ok (storeResult isPre (atIndex tr) res (tr\<lparr>tr_CurrentActionIndex := int (atIndex tr)\<rparr>)) \<and>
    transition_ok (incrIndex (storeResult isPre (atIndex tr) res (tr\<lparr>tr_CurrentActionIndex := int (atIndex tr)\<rparr>)))"
proof -
  let ?s = "storeResult isPre (atIndex tr) res (tr\<lparr>tr_CurrentActionIndex := int (atIndex tr)\<rparr>)"
  have results: "list_all (\<lambda>res. ar_Status res \<in> set statusEnum) (allResults ?s)"
    using assms(1,3) by (intro storeResult_results(2)) (simp_all add: transition_ok_def allResults_def)
  have fits: "wrap64 (int (atIndex tr) + 1) = int (atIndex tr) + 1" if "int (length (allResults tr)) < 2 ^ 63"
    by (rule wrap64_id) (use that assms(4) in \<open>auto simp: in_int64_def allResults_def phaseResults_def split: if_splits\<close>)
  have "indexFits ?s" "indexFits (incrIndex ?s)"
    using assms(2,4) fits
    by (cases isPre; auto simp: indexFits_def incrIndex_def storeResult_def allResults_def phaseResults_def)+
  with results assms(1) show ?thesis
    by (simp add: transition_ok_def) (simp add: incrIndex_def allResults_def)
qed

lemma current_in:
  assumes "atIndex tr < length (phaseResults isPre tr)" "transition_ok tr"
  shows "currentStatus isPre tr \<in> set statusEnum"
proof -
  have "phaseResults isPre tr ! atIndex tr \<in> set (allResults tr)"
    using nth_mem [OF assms(1)] by (auto simp: allResults_def phaseResults_def split: if_splits)
  with assms(2) show ?thesis by (simp add: transition_ok_def list_all_iff)
qed

lemma action_step_ok:
  assumes "action_step isPre tr tr'" "transition_ok tr" "tr_Phase tr = actionPhase isPre"
  shows "transition_ok tr'"
  using assms(1)
proof cases
  case (record_result res)
  with transition_ok_store [OF assms(2,3) statusEnum_step [OF current_in]] assms(2) show ?thesis by simp
next
  case (next_action res)
  with transition_ok_store [OF assms(2,3) statusEnum_step [OF current_in]] assms(2) show ?thesis by simp
qed

lemma phaseEnum_simps [simp]: "p \<in> set phaseEnum \<longleftrightarrow> 0 \<le> PhaseOrder p"
  by (auto simp: phaseEnum_def PhaseOrder_def)

lemma pipeline_well_formed:
  assumes "pipeline pl t t'" "well_formed t"
  shows "well_formed t'"
  using assms(1)
proof cases
  case (start tr)
  have "list_all (\<lambda>res. ar_Status res \<in> set statusEnum) (allResults tr)"
    using start by (simp add: allResults_def list_all_iff statusEnum_def)
  with start show ?thesis
    by (simp add: transition_ok_def indexFits_def directionEnum_def phaseEnum_def del: phaseEnum_simps)
next
  case (pre_action tr tr')
  with action_step_ok [of True tr tr'] assms(2) show ?thesis by simp
next
  case (post_action tr tr')
  with action_step_ok [of False tr tr'] assms(2) show ?thesis by simp
qed (use assms(2) in \<open>auto simp: transition_ok_def indexFits_def allResults_def\<close>)

lemma forced_well_formed:
  assumes "forced tr tr'" "transition_ok tr"
  shows "transition_ok tr'"
  using assms(1)
proof cases
  case (skip_action isPre res)
  have "tr\<lparr>tr_CurrentActionIndex := int (atIndex tr)\<rparr> = tr"
    using skip_action by (simp add: atIndex_def)
  with skip_action transition_ok_store [OF assms(2), of isPre res] show ?thesis by (simp add: statusEnum_def)
qed (use assms(2) in \<open>auto simp: transition_ok_def indexFits_def allResults_def\<close>)

lemma reconciles_well_formed:
  assumes "reconciles r fs cs" "well_formed (fs_Transition fs)" "UpdateFSStatus f x \<in> set cs"
  shows "well_formed (fs_Transition f)"
proof -
  have stepped: ?thesis if "steps pl ok (fs_Transition fs) cs" for pl ok
    using steps_invariant [of _ _ _ _ well_formed, OF that assms(2) pipeline_well_formed assms(3)] .
  have ?thesis if "forced_calls (fs_Transition fs) cs"
  proof -
    from that assms(3) obtain tr tr' where "fs_Transition fs = Some tr" "fs_Transition f = Some tr'" "forced tr tr'"
      unfolding forced_calls_def by blast
    with assms(2) forced_well_formed [of tr tr'] show ?thesis by simp
  qed
  with stepped assms(1) show ?thesis unfolding reconciles_def by blast
qed

section \<open>Reachable transitions\<close>

inductive stored :: "Reconciler \<Rightarrow> TransitionStatus option \<Rightarrow> bool" for r where
  created: "stored r None"
| reconciled: "stored r (fs_Transition fs) \<Longrightarrow> o_getFS E (w_hist w) req = Inr fs \<Longrightarrow> spec_update_keeps E fs \<Longrightarrow>
    UpdateFSStatus f x \<in> set (calls (Reconcile E r req) w) \<Longrightarrow> stored r (fs_Transition f)"

text \<open>C5: Every status that is ever stored is well-formed.  However often an object is reconciled, with any edits of its
  specification, failures of the API server and interventions of an operator in between, the transition in each status
  that the controller writes has one of the declared phases, directions and action statuses, and its index lies within
  the actions of its phase.\<close>

theorem stored_transitions_well_formed:
  assumes "stored (newReconciler role cid provider ns) t"
  shows "well_formed t"
  using assms
proof (induction rule: stored.induct)
  case (reconciled fs E w req f x)
  show ?case
    by (rule reconciles_well_formed [OF controller.Reconcile_reconciles [OF reconciled(2,3)] reconciled(5,4)])
qed simp

text \<open>The sample object has no transition yet, and the direction that is wanted is not the last known one: the first
  reconciliation begins a transition, whose pre-action runs first.\<close>

lemma sample_begins:
  "\<exists>f x t. UpdateFSStatus f x \<in> set (calls (Reconcile (storedEnv sampleFS) sampleReconciler (''default'', ''db'')) world0) \<and>
     fs_Transition f = Some t \<and> tr_Phase t = PhaseExecutingPreActions"
proof -
  have path: "\<not> isDeleted sampleFS" "finalizerName \<in> set (m_Finalizers (fs_Meta sampleFS))"
    "m_Annotations (fs_Meta sampleFS) = Some [(''k8s-failover.zyno.io/cluster-id'', ''a'')]" "mget (Some [(''k8s-failover.zyno.io/cluster-id'', ''a'')]) clusterIDAnnotation = rec_ClusterID sampleReconciler"
    "mget (Some [(''k8s-failover.zyno.io/cluster-id'', ''a'')]) forceAdvanceAnnotation = ''''" "fs_Transition sampleFS = None"
    "st_LastKnownFailoverActive (fs_Status sampleFS) = Some False" "sp_FailoverActive (fs_Spec sampleFS)"
    by (simp_all add: sampleFS_def sampleStatus_def emptyMeta_def isDeleted_def finalizerName_def clusterIDAnnotation_def
        forceAdvanceAnnotation_def sampleReconciler_def newReconciler_def Let_def mget_def)
  have "tr_Phase (newTransition sampleReconciler (setStatus g sampleFS) directionFailover t) = PhaseExecutingPreActions" for g t
    by (simp add: newTransition_def getTransitionHooks_def localTarget_def sampleReconciler_def newReconciler_def Let_def
        sampleFS_def sampleTarget_def split: prod.splits)
  with path show ?thesis
    by (simp add: calls_def Reconcile_def reconcileFinalized_def reconcileAnnotated_def dispatchPhase_def reconcileIdle_def
        beginTransition_def updateClusterStatus_def createFailoverEvent_def call_defs call_def Let_def world0_def storedEnv_def)
qed

theorem stored_transitions_well_formed_witness:
  "\<exists>t. stored sampleReconciler (Some t) \<and> tr_Phase t = PhaseExecutingPreActions \<and> transition_ok t"
proof -
  obtain f x t where f: "UpdateFSStatus f x \<in> set (calls (Reconcile (storedEnv sampleFS) sampleReconciler (''default'', ''db'')) world0)"
    and t: "fs_Transition f = Some t" "tr_Phase t = PhaseExecutingPreActions"
    using sample_begins by blast
  have "fs_Transition sampleFS = None" by (simp add: sampleFS_def sampleStatus_def)
  then have "stored sampleReconciler (fs_Transition sampleFS)" by (simp add: stored.created)
  then have "stored sampleReconciler (fs_Transition f)"
    by (rule stored.reconciled [OF _ storedEnv_keeps(2) storedEnv_keeps(1) f])
  with t stored_transitions_well_formed [of rolePrimary "''a''" sampleProvider "''sys''" "Some t"] show ?thesis
    by (auto simp: sampleReconciler_def)
qed

end
