(* ===== verification/Completion.thy ===== *)
theory Completion
  imports Transition
begin

text \<open>
  What the reconciler promises when nothing is in its way: a requested failover or failback is carried out, within a bounded
  number of reconciliations.  The API server is one that stores the object (\<open>keepsObject\<close>), the rest of the environment
  is assumed to be \<open>cooperative\<close>.  \<open>settles\<close> is the program logic of the proofs: a run stores exactly one status.
  \<open>nearer\<close> says what each reconciliation of a transition achieves, with \<open>remaining\<close> as its measure.
\<close>

section \<open>Runs that store one status\<close>

text \<open>\<open>settles sv Q m\<close>: whatever the world, \<open>m\<close> writes the FailoverService once, a status satisfying \<open>Q\<close>, and the API
  server accepts it; unless \<open>sv\<close>, it leaves the managed objects alone.\<close>

definition still :: "bool \<Rightarrow> entry \<Rightarrow> bool" where
  "still sv e \<longleftrightarrow> \<not> is_fs_write e \<and> (sv \<or> \<not> is_service_entry e)"

definition settled_calls :: "bool \<Rightarrow> (FailoverService \<Rightarrow> bool) \<Rightarrow> entry list \<Rightarrow> bool" where
  "settled_calls sv Q cs \<longleftrightarrow> (\<exists>g. filter (\<lambda>e. \<not> still sv e) cs = [UpdateFSStatus g (Inr g)] \<and> Q g)"

definition settles :: "bool \<Rightarrow> (FailoverService \<Rightarrow> bool) \<Rightarrow> 'a io \<Rightarrow> bool" where
  "settles sv Q m \<longleftrightarrow> tspec m (\<lambda>_. settled_calls sv Q)"

lemma settled_still: "\<forall>e \<in> set cs. still sv e \<Longrightarrow> settled_calls sv Q (cs @ ds) = settled_calls sv Q ds"
  "\<forall>e \<in> set cs. still sv e \<Longrightarrow> settled_calls sv Q (e # cs) \<longleftrightarrow> (\<exists>g. e = UpdateFSStatus g (Inr g) \<and> Q g)"
proof -
  assume "\<forall>e \<in> set cs. still sv e"
  then have none: "filter (\<lambda>e. \<not> still sv e) cs = []" by (simp add: filter_empty_conv)
  then show "settled_calls sv Q (cs @ ds) = settled_calls sv Q ds" by (simp add: settled_calls_def)
  from none show "settled_calls sv Q (e # cs) \<longleftrightarrow> (\<exists>g. e = UpdateFSStatus g (Inr g) \<and> Q g)"
    by (auto simp: settled_calls_def still_def)
qed

lemma settles_bind: "eff (still sv) m S \<Longrightarrow> (\<And>a. S a \<Longrightarrow> settles sv Q (k a)) \<Longrightarrow> settles sv Q (m \<bind> k)"
  unfolding settles_def by (rule tspec_bind [OF tspec_eff]) (auto simp: settled_still(1))

lemma settles_write:
  assumes "\<And>h. o_updateFSStatus E h f = Inr f" "Q f" "emits (still sv) (k (Inr f))"
  shows "settles sv Q (updateFSStatus E f \<bind> k)"
  unfolding settles_def updateFSStatus_def
  by (rule tspec_bind_call) (auto intro!: tspec_weaken [OF tspec_eff [OF assms(3)]] simp: assms(1,2) settled_still(2))

lemma settles_mono: "settles sv Q m \<Longrightarrow> (\<And>g. Q g \<Longrightarrow> R g) \<Longrightarrow> settles sv R m"
  unfolding settles_def by (erule tspec_weaken) (auto simp: settled_calls_def)

lemma settles_then: "settles sv Q m \<Longrightarrow> (\<And>a. emits (still sv) (k a)) \<Longrightarrow> settles sv Q (m \<bind> k)"
  unfolding settles_def
proof (erule tspec_bind)
  fix a cs
  assume "\<And>a. emits (still sv) (k a)" "settled_calls sv Q cs"
  then show "tspec (k a) (\<lambda>_ ds. settled_calls sv Q (cs @ ds))"
    by (intro tspec_weaken [OF tspec_eff]) (auto simp: settled_calls_def filter_empty_conv)
qed

lemma eff_quietly: "eff quiet m S \<Longrightarrow> eff (still sv) m S"
  by (erule eff_weaken) (simp_all add: quiet_def still_def)

lemma returns: "emits quiet m \<Longrightarrow> (\<And>w. S (result m w)) \<Longrightarrow> eff (still sv) m S"
  by (rule eff_returns [OF eff_quietly]) (simp_all add: wp_result_final)

lemma settles_saveStatus: "(\<And>h. o_updateFSStatus E h f = Inr f) \<Longrightarrow> Q f \<Longrightarrow> settles sv Q (saveStatus E f ok)"
  unfolding saveStatus_def by (rule settles_write) (auto intro: eff_ret)

lemma settles_saveIgnoring: "(\<And>h. o_updateFSStatus E h f = Inr f) \<Longrightarrow> Q f \<Longrightarrow> settles sv Q (saveIgnoring E f ok)"
  unfolding saveIgnoring_def by (rule settles_write) (auto intro: eff_ret)

text \<open>The same from one world.\<close>

definition settles_at :: "bool \<Rightarrow> (FailoverService \<Rightarrow> bool) \<Rightarrow> 'a io \<Rightarrow> world \<Rightarrow> bool" where
  "settles_at sv Q m v \<longleftrightarrow> (\<exists>cs. w_hist (final m v) = rev cs @ w_hist v \<and> settled_calls sv Q cs)"

lemma settles_everywhere: "settles sv Q m \<Longrightarrow> settles_at sv Q m v"
  unfolding settles_def settles_at_def using final_hist tspec_calls by blast

lemma settles_at_bind:
  assumes "emits (still sv) m" "settles_at sv Q (k (result m v)) (final m v)"
  shows "settles_at sv Q (m \<bind> k) v"
proof -
  obtain cs where cs: "w_hist (final (k (result m v)) (final m v)) = rev cs @ w_hist (final m v)" "settled_calls sv Q cs"
    using assms(2) by (auto simp: settles_at_def)
  have "w_hist (final m v) = rev (calls m v) @ w_hist v" using tspec_eff [OF assms(1)] by (rule final_hist)
  moreover have "settled_calls sv Q (calls m v @ cs)"
    using cs(2) eff_calls [OF assms(1)] by (subst settled_still(1)) auto
  ultimately show ?thesis using cs(1) by (auto simp: settles_at_def run_bind intro!: exI [of _ "calls m v @ cs"])
qed

lemma settles_at_mono: "settles_at sv Q m v \<Longrightarrow> (\<And>g. Q g \<Longrightarrow> R g) \<Longrightarrow> settles_at sv R m v"
  unfolding settles_at_def settled_calls_def by blast

section \<open>A cooperative environment\<close>

text \<open>The timeouts that apply to an action.\<close>

definition actionLimits :: "FailoverAction \<Rightarrow> int list" where
  "actionLimits a =
     (case fa_WaitReady a of None \<Rightarrow> [] | Some x \<Rightarrow> [timeoutOr300 (wra_TimeoutSeconds x)]) @
     (case fa_Scale a of None \<Rightarrow> [] | Some x \<Rightarrow> [timeoutOr300 (sa_TimeoutSeconds x)]) @
     (case fa_WaitRemote a of None \<Rightarrow> [] | Some x \<Rightarrow> [timeoutOr300 (wrm_ActionTimeoutSeconds x)])"

text \<open>A kill was signalled, with this token and to these nodes.\<close>

definition signalledIn :: "env \<Rightarrow> Signaler \<Rightarrow> FailoverService \<Rightarrow> hist \<Rightarrow> string \<Rightarrow> string list \<Rightarrow> bool" where
  "signalledIn E sg fs h tok nn \<longleftrightarrow> (\<exists>ip v es. result (SignalKill E sg ip tok (fs_Namespace fs) (fs_Name fs)) v = Inr nn \<and>
     h = es @ w_hist (final (SignalKill E sg ip tok (fs_Namespace fs) (fs_Name fs)) v))"

lemma signalledIn_later: "signalledIn E sg fs h tok nn \<Longrightarrow> signalledIn E sg fs (es @ h) tok nn"
  unfolding signalledIn_def by (metis append.assoc)

definition hookActions :: "Reconciler \<Rightarrow> FailoverService \<Rightarrow> FailoverAction set" where
  "hookActions r fs = {a. \<exists>d h. getTransitionHooks r fs d = Some h \<and> a \<in> set (ta_PreActions h) \<union> set (ta_PostActions h)}"

text \<open>Status updates are accepted, the managed objects can be reconciled, every action of the hooks succeeds when it runs
  and no timeout counted from a reading of the clock has passed, agents can be signalled and have acknowledged when
  the controller asks, and the other cluster does not win a conflict.\<close>

definition cooperative :: "env \<Rightarrow> Reconciler \<Rightarrow> FailoverService \<Rightarrow> bool" where
  "cooperative E r fs \<longleftrightarrow>
     (\<forall>h f. o_updateFSStatus E h f = Inr f) \<and>
     (\<forall>g address w. fs_Meta g = fs_Meta fs \<and> fs_Spec g = fs_Spec fs \<longrightarrow> result (ReconcileWithAddress E g address) w = None) \<and>
     (\<forall>m ctx a p i w. rec_ActionExecutor r = Some m \<and> a \<in> hookActions r fs \<longrightarrow>
        (\<exists>x. result (MultiExecute m E ctx a (fs_Namespace fs) p i) w = Inr x \<and> ex_Completed x \<and> ex_Succeeded x)) \<and>
     (\<forall>a limit h w. a \<in> hookActions r fs \<and> limit \<in> set (actionLimits a) \<longrightarrow> \<not> result (CheckTimeout E (Some (o_now E h)) limit) w) \<and>
     (\<forall>sg ip tok w. rec_ConnSignaler r = Some sg \<longrightarrow> (\<exists>nn. result (SignalKill E sg ip tok (fs_Namespace fs) (fs_Name fs)) w = Inr nn)) \<and>
     (\<forall>sg tok nn w. rec_ConnSignaler r = Some sg \<and> signalledIn E sg fs (w_hist w) tok nn \<longrightarrow>
        (\<exists>st. result (CheckAcks E sg tok nn (fs_Namespace fs) (fs_Name fs)) w = Inr st \<and> as_AllAcked st)) \<and>
     (\<forall>s g w. rec_Syncer r = Some s \<longrightarrow> (\<forall>res. result (s E g) w = Inr res \<longrightarrow> \<not> sr_RemoteWins res))"

lemma cooperativeD:
  assumes "cooperative E r fs"
  shows "o_updateFSStatus E h f = Inr f"
    and "fs_Meta g = fs_Meta fs \<Longrightarrow> fs_Spec g = fs_Spec fs \<Longrightarrow> result (ReconcileWithAddress E g address) w = None"
    and "rec_ActionExecutor r = Some m \<Longrightarrow> a \<in> hookActions r fs \<Longrightarrow>
      \<exists>x. result (MultiExecute m E ctx a (fs_Namespace fs) p i) w = Inr x \<and> ex_Completed x \<and> ex_Succeeded x"
    and "a \<in> hookActions r fs \<Longrightarrow> limit \<in> set (actionLimits a) \<Longrightarrow> \<not> result (CheckTimeout E (Some (o_now E h)) limit) w"
    and "rec_ConnSignaler r = Some sg \<Longrightarrow> \<exists>nn. result (SignalKill E sg ip tok (fs_Namespace fs) (fs_Name fs)) w = Inr nn"
    and "rec_ConnSignaler r = Some sg \<Longrightarrow> signalledIn E sg fs (w_hist w) tok nn \<Longrightarrow>
      \<exists>st. result (CheckAcks E sg tok nn (fs_Namespace fs) (fs_Name fs)) w = Inr st \<and> as_AllAcked st"
    and "rec_Syncer r = Some s \<Longrightarrow> result (s E g) w = Inr res \<Longrightarrow> \<not> sr_RemoteWins res"
  using assms [unfolded cooperative_def] by (elim conjE; simp)+

text \<open>Only metadata and specification of the object matter.\<close>

lemma hooks_cong: "fs_Spec g = fs_Spec fs \<Longrightarrow> getTransitionHooks r g d = getTransitionHooks r fs d"
  by (simp add: getTransitionHooks_def localTarget_def)

lemma cooperative_cong:
  assumes "cooperative E r fs" "fs_Meta g = fs_Meta fs" "fs_Spec g = fs_Spec fs"
  shows "cooperative E r g"
proof -
  have hooks: "hookActions r g = hookActions r fs"
    by (simp add: hookActions_def getTransitionHooks_def localTarget_def assms(3))
  show ?thesis using assms(1) unfolding cooperative_def signalledIn_def assms(2,3) hooks .
qed

section \<open>How much is left\<close>

text \<open>The number of reconciliations that are left: an action takes two, one to start and one to run it, an action phase
  one more to end it, the switch one and the flush two.\<close>

definition todo :: "ActionResult list \<Rightarrow> nat" where
  "todo rs = (\<Sum>res \<leftarrow> rs. if ar_Status res = ActionStatusPending then 2 else 1)"

definition remaining :: "TransitionStatus \<Rightarrow> nat" where
  "remaining tr =
     (if tr_Phase tr = PhaseExecutingPreActions
      then todo (drop (atIndex tr) (tr_PreActionResults tr)) + todo (tr_PostActionResults tr) + 5
      else if tr_Phase tr = PhaseUpdatingResources then todo (tr_PostActionResults tr) + 4
      else if tr_Phase tr = PhaseFlushingConnections
      then todo (tr_PostActionResults tr) + (case tr_ConnectionKill tr of None \<Rightarrow> 3 | Some ck \<Rightarrow> if ck_SignalSent ck then 2 else 3)
      else todo (drop (atIndex tr) (tr_PostActionResults tr)) + 1)"

text \<open>The phases after the switch.\<close>

definition switched :: "TransitionStatus \<Rightarrow> bool" where
  "switched tr \<longleftrightarrow> tr_Phase tr = PhaseFlushingConnections \<or> tr_Phase tr = PhaseExecutingPostActions"

definition unsent :: "TransitionStatus \<Rightarrow> bool" where
  "unsent tr \<longleftrightarrow> (\<forall>ck. tr_ConnectionKill tr = Some ck \<longrightarrow> \<not> ck_SignalSent ck)"

text \<open>A transition that can go on: no action has failed, and the actions that were started were started by the clock of
  this environment, and no kill was signalled before the switch.\<close>

definition healthy :: "env \<Rightarrow> ActionResult \<Rightarrow> bool" where
  "healthy E res \<longleftrightarrow> ar_Status res \<noteq> ActionStatusFailed \<and> (\<forall>t. ar_StartedAt res = Some t \<longrightarrow> t \<in> range (o_now E))"

definition underway_ok :: "env \<Rightarrow> TransitionStatus \<Rightarrow> bool" where
  "underway_ok E tr \<longleftrightarrow> 0 < PhaseOrder (tr_Phase tr) \<and> indexable tr \<and> (switched tr \<or> unsent tr) \<and>
     list_all (healthy E) (tr_PreActionResults tr) \<and> list_all (healthy E) (tr_PostActionResults tr)"

definition nearer :: "env \<Rightarrow> FailoverService \<Rightarrow> TransitionStatus \<Rightarrow> FailoverService \<Rightarrow> bool" where
  "nearer E fs tr g \<longleftrightarrow> fs_Meta g = fs_Meta fs \<and> fs_Spec g = fs_Spec fs \<and>
     (case fs_Transition g of
        None \<Rightarrow> switched tr \<and> st_LastKnownFailoverActive (fs_Status g) = Some (tr_TargetDirection tr = directionFailover)
      | Some tr' \<Rightarrow> tr_TargetDirection tr' = tr_TargetDirection tr \<and> tr_NewAddressSnapshot tr' = tr_NewAddressSnapshot tr \<and>
          underway_ok E tr' \<and> remaining tr' < remaining tr \<and> (switched tr' \<longrightarrow> switched tr \<or> tr_Phase tr = PhaseUpdatingResources) \<and>
          (tr_Phase tr' = PhaseFlushingConnections \<longrightarrow> unsent tr' \<or> tr_Phase tr = PhaseFlushingConnections))"

lemma unsent_simps [simp]:
  "unsent (storeResult isPre i res tr) = unsent tr" "unsent (incrIndex tr) = unsent tr"
  "unsent (tr\<lparr>tr_Phase := p, tr_CurrentActionIndex := j\<rparr>) = unsent tr"
  "switched (storeResult isPre i res tr) = switched tr" "switched (incrIndex tr) = switched tr"
  by (simp_all add: unsent_def switched_def storeResult_def incrIndex_def)

lemma unsent_before: "underway_ok E tr \<Longrightarrow> \<not> switched tr \<Longrightarrow> unsent tr"
  by (simp add: underway_ok_def)

lemma todo_simps [simp]: "todo [] = 0"
  "todo (res # rs) = (if ar_Status res = ActionStatusPending then 2 else 1) + todo rs"
  by (simp_all add: todo_def)

lemma todo_drop: "i < length rs \<Longrightarrow>
    todo (drop i rs) = (if ar_Status (rs ! i) = ActionStatusPending then 2 else 1) + todo (drop (Suc i) rs)"
  by (simp add: Cons_nth_drop_Suc [symmetric])

lemma todo_drop_le: "todo (drop i rs) \<le> todo rs"
  by (metis append_take_drop_id le_add2 map_append sum_list_append todo_def)

section \<open>Each reconciliation gets nearer\<close>

lemma nearer_cong: "kept f g \<Longrightarrow> fs_Meta f = fs_Meta fs \<Longrightarrow> fs_Spec f = fs_Spec fs \<Longrightarrow> nearer E fs tr f \<Longrightarrow> nearer E fs tr g"
  by (auto simp: nearer_def kept_def same_object_def split: option.splits)

lemma nearer_phase:
  assumes "underway_ok E tr" "0 < PhaseOrder (tr_Phase tr')" "remaining tr' < remaining tr" "tr_TargetDirection tr' = tr_TargetDirection tr"
    and "tr_PreActionResults tr' = tr_PreActionResults tr" "tr_PostActionResults tr' = tr_PostActionResults tr"
    and "tr_NewAddressSnapshot tr' = tr_NewAddressSnapshot tr" "switched tr' \<Longrightarrow> switched tr \<or> tr_Phase tr = PhaseUpdatingResources"
    and "switched tr' \<or> unsent tr'" "tr_Phase tr' = PhaseFlushingConnections \<Longrightarrow> unsent tr' \<or> tr_Phase tr = PhaseFlushingConnections"
    and "fs_Transition g = Some tr'" "fs_Meta g = fs_Meta fs" "fs_Spec g = fs_Spec fs"
  shows "nearer E fs tr g"
  using assms by (simp add: nearer_def underway_ok_def indexable_def)

lemma nearer_norm: "nearer E fs (normIndex tr) g \<Longrightarrow> nearer E fs tr g"
proof -
  have "remaining (normIndex tr) = remaining tr"
    by (simp add: remaining_def) (simp add: normIndex_def)
  then show "nearer E fs (normIndex tr) g \<Longrightarrow> nearer E fs tr g" by (simp add: nearer_def switched_def normIndex_def split: option.splits)
qed

lemma underway_norm: "underway_ok E tr \<Longrightarrow> underway_ok E (normIndex tr)"
  by (simp add: underway_ok_def switched_def) (simp add: indexable_def unsent_def normIndex_def)

context sound_reconciler
begin

lemma completeTransition_settles:
  assumes "cooperative E r fs" "fs_Transition g = Some tr" "fs_Meta g = fs_Meta fs" "fs_Spec g = fs_Spec fs"
    and "tr_TargetDirection tr = tr_TargetDirection base" "switched base"
  shows "settles sv (\<lambda>f. nearer E fs base f \<and> fs_Transition f = None) (completeTransition E r g)"
proof -
  have duration: "emits quiet (case tr_StartedAt tr of None \<Rightarrow> ret () | Some s \<Rightarrow>
      do { n \<leftarrow> now E; emit (TransitionDuration (fs_Name g) (fs_Namespace g) (tr_TargetDirection tr) (n - s)) })"
    by (intro eff_case_option eff_ret eff_bind [OF quiet_calls(1)] quiet_calls) simp
  have ended: "nearer E fs base f \<and> fs_Transition f = None" if "kept (completedStatus E r tr n g) f" for n f
    using that assms by (simp add: nearer_def kept_def same_object_def completedStatus_def)
  have finish: "settles sv (\<lambda>f. nearer E fs base f \<and> fs_Transition f = None) (finishTransition E f tr)"
    if "nearer E fs base f \<and> fs_Transition f = None" for f
    unfolding finishTransition_def
    by (rule settles_write)
      (auto simp: cooperativeD(1) [OF assms(1)] that intro!: eff_bind [OF eff_quietly [OF updateFailoverEvent_quiet]] eff_ret)
  note quietly = settles_bind [OF eff_quietly]
  show ?thesis
    unfolding completeTransition_def Let_def assms(2) option.case
  proof (intro quietly [OF duration] quietly [OF cleanupTransitionJobs_quiet] quietly [OF quiet_helpers(9)]
      quietly [OF quiet_helpers(4)] quietly [OF quiet_calls(1)] quietly [OF updateClusterStatus_kept], goal_cases)
    case (1 _ _ _ _ n f)
    let ?f = "removeCond E ConditionActionFailed (removeCond E ConditionTransitionInProgress f)"
    have kept: "kept (completedStatus E r tr n g) h" if "kept ?f h \<or> kept (setStatus (\<lambda>x. x\<lparr>st_RemoteState := s\<rparr>) ?f) h" for h s
      using 1 that by (auto simp: kept_def same_object_def removeCond_def)
    show ?case
    proof (cases "rec_Syncer r")
      case None
      show ?thesis unfolding None option.case by (rule finish [OF ended [OF kept]]) simp
    next
      case (Some sync)
      have sync: "eff (still sv) (sync E ?f) (\<lambda>s. \<forall>res. s = Inr res \<longrightarrow> \<not> sr_RemoteWins res)"
        by (rule returns [OF sync_quiet [OF Some]]) (use cooperativeD(7) [OF assms(1) Some] in blast)
      show ?thesis
        unfolding Some option.case
        by (rule settles_bind [OF sync])
          (auto split: sum.split intro!: quietly [OF sync_results_kept(1)] quietly [OF sync_results_kept(2)] finish ended kept)
    qed
  qed
qed

lemma endActionPhase_settles:
  assumes "cooperative E r fs" "underway_ok E tr" "tr_Phase tr = actionPhase isPre"
  shows "settles sv (nearer E fs tr) (endActionPhase E r fs tr isPre)"
proof (cases isPre)
  case True
  let ?tr = "tr\<lparr>tr_Phase := PhaseUpdatingResources, tr_CurrentActionIndex := 0\<rparr>"
  have "nearer E fs tr g" if "kept (setTransition (Some ?tr) fs) g" for g
    by (rule nearer_phase [OF assms(2)]) (use that assms(3) True unsent_before [OF assms(2)] in \<open>auto simp: remaining_def switched_def actionPhase_def kept_def same_object_def\<close>)
  with True show ?thesis
    unfolding endActionPhase_def
    by (auto intro!: settles_bind [OF eff_quietly [OF updateClusterStatus_kept]] settles_saveStatus cooperativeD(1) [OF assms(1)])
next
  case False
  then show ?thesis
    unfolding endActionPhase_def
    using settles_mono [OF completeTransition_settles [OF assms(1), of "setTransition (Some tr) fs" tr tr]] assms(3)
    by (simp add: switched_def actionPhase_def)
qed

end

text \<open>Storing the result of the current action.\<close>

lemma snapshot_simps [simp]:
  "tr_NewAddressSnapshot (storeResult isPre i res tr) = tr_NewAddressSnapshot tr"
  "tr_NewAddressSnapshot (incrIndex tr) = tr_NewAddressSnapshot tr"
  by (simp_all add: storeResult_def incrIndex_def)

lemma nearer_store:
  assumes "underway_ok E tr" "tr_Phase tr = actionPhase isPre" "tr_CurrentActionIndex tr = int (atIndex tr)"
    and "atIndex tr < length (phaseResults isPre tr)" "healthy E res"
  shows "currentStatus isPre tr = ActionStatusPending \<Longrightarrow> ar_Status res \<noteq> ActionStatusPending \<Longrightarrow>
      nearer E fs tr (setTransition (Some (storeResult isPre (atIndex tr) res tr)) fs)"
    and "nearer E fs tr (setTransition (Some (incrIndex (storeResult isPre (atIndex tr) res tr))) fs)"
proof -
  let ?s = "storeResult isPre (atIndex tr) res tr"
  have at: "atIndex ?s = atIndex tr" by (simp add: atIndex_def)
  have len: "int (length (phaseResults isPre tr)) < 2 ^ 63"
    using assms(1) by (cases isPre) (simp_all add: underway_ok_def indexable_def phaseResults_def)
  have incr: "atIndex (incrIndex ?s) = Suc (atIndex tr)"
    by (rule atIndex_next [OF len assms(4)]) (simp add: assms(3))
  have ok: "underway_ok E ?s" "underway_ok E (incrIndex ?s)"
    using assms(1,5) by (auto simp: underway_ok_def indexable_def list_all_update)
  show "nearer E fs tr (setTransition (Some ?s) fs)"
    if "currentStatus isPre tr = ActionStatusPending" "ar_Status res \<noteq> ActionStatusPending"
    using that ok(1) assms(2,4) at
    by (cases isPre) (auto simp: nearer_def switched_def remaining_def actionPhase_def phaseResults_def todo_drop)
  show "nearer E fs tr (setTransition (Some (incrIndex ?s)) fs)"
    using ok(2) assms(2,4) incr
    by (cases isPre) (auto simp: nearer_def switched_def remaining_def actionPhase_def phaseResults_def todo_drop)
qed

context sound_reconciler
begin

lemma checkActionTimeout_passes:
  assumes "cooperative E r fs" "a \<in> hookActions r fs" "healthy E res" "\<And>l. limit = Some l \<Longrightarrow> l \<in> set (actionLimits a)"
  shows "eff (still sv) (checkActionTimeout E g isPre a res tr limit what) (\<lambda>x. x = None)"
proof (cases "limit = None \<or> ar_StartedAt res = None")
  case True
  then show ?thesis unfolding checkActionTimeout_def by (auto intro!: eff_ret split: option.split)
next
  case False
  then obtain l t where l: "limit = Some l" "ar_StartedAt res = Some t" by auto
  with assms(3) obtain h where t: "t = o_now E h" by (auto simp: healthy_def)
  have "eff (still sv) (CheckTimeout E (Some t) l) (\<lambda>late. \<not> late)"
    unfolding t by (rule returns [OF quiet_helpers(1)]) (use cooperativeD(4) [OF assms(1,2) assms(4) [OF l(1)]] in blast)
  then show ?thesis
    unfolding checkActionTimeout_def l prod.case option.case by (rule eff_bind) (auto intro!: eff_ret)
qed

lemma actionLimits_waits:
  "map_option (\<lambda>x. timeoutOr300 (wra_TimeoutSeconds x)) (fa_WaitReady a) = Some l \<Longrightarrow> l \<in> set (actionLimits a)"
  "(case fa_Scale a of None \<Rightarrow> None | Some x \<Rightarrow> if sa_WaitReady x then Some (timeoutOr300 (sa_TimeoutSeconds x)) else None) = Some l \<Longrightarrow>
     l \<in> set (actionLimits a)"
  "map_option (\<lambda>x. timeoutOr300 (wrm_ActionTimeoutSeconds x)) (fa_WaitRemote a) = Some l \<Longrightarrow> l \<in> set (actionLimits a)"
  by (auto simp: actionLimits_def split: option.splits if_splits)

lemma handleActionState_passes:
  assumes "cooperative E r fs" "a \<in> hookActions r fs" "healthy E res"
    and "ar_Status res \<noteq> ActionStatusSucceeded" "ar_Status res \<noteq> ActionStatusSkipped" "ar_Status res \<noteq> ActionStatusFailed"
    "ar_Status res \<noteq> ActionStatusPending"
  shows "eff (still sv) (handleActionState E g isPre a res tr) (\<lambda>h. h = None)"
proof -
  have unfinished: "\<not> (ar_Status res = ActionStatusSucceeded \<or> ar_Status res = ActionStatusSkipped)" using assms(4,5) by simp
  have pass: "eff (still sv) (checkActionTimeout E g isPre a res tr limit what) (\<lambda>x. x = None)"
    if "\<And>l. limit = Some l \<Longrightarrow> l \<in> set (actionLimits a)" for limit what
    by (rule checkActionTimeout_passes [OF assms(1-3) that])
  show ?thesis
    unfolding handleActionState_def Let_def if_not_P [OF assms(6)] if_not_P [OF assms(7)] if_not_P [OF unfinished]
    by (rule eff_bind, rule pass, erule actionLimits_waits, simp, rule eff_bind, rule pass, erule actionLimits_waits, simp,
      rule pass, erule actionLimits_waits)
qed

lemma runAction_settles:
  assumes "cooperative E r fs" "rec_ActionExecutor r = Some m" "a \<in> hookActions r fs" "fs_Namespace g = fs_Namespace fs"
    and "\<And>t (x :: ExecResult). nearer E fs base (setTransition (Some (incrIndex (storeResult isPre (nat (tr_CurrentActionIndex tr))
      (res\<lparr>ar_JobName := ex_JobName x, ar_Message := ex_Message x, ar_CompletedAt := Some t, ar_Status := ActionStatusSucceeded\<rparr>) tr))) g)"
  shows "settles sv (nearer E fs base) (runAction E r g isPre a res tr)"
proof -
  have run: "eff (still sv) (MultiExecute m E ctx a (fs_Namespace g) pre i) (\<lambda>s. \<exists>x. s = Inr x \<and> ex_Completed x \<and> ex_Succeeded x)" for ctx pre i
    unfolding assms(4) by (rule returns [OF exec_quiet [OF assms(2)]]) (use cooperativeD(3) [OF assms(1,2,3)] in blast)
  have count: "emits quiet (case ar_StartedAt res of None \<Rightarrow> ret () | Some s \<Rightarrow> do {
       emit (ActionExecutionDuration (fs_Name g) (fs_Namespace g) (fa_Name a) (actionType a) (t - s)); countAction g a ''success'' })" for t
    by (intro eff_case_option eff_ret eff_bind [OF quiet_calls(2)] quiet_helpers TrueI)
  show ?thesis
    unfolding runAction_def assms(2) option.case
  proof (rule settles_bind [OF run])
    fix s :: "go_error + ExecResult"
    assume "\<exists>x. s = Inr x \<and> ex_Completed x \<and> ex_Succeeded x"
    then obtain x where x: "s = Inr x" "ex_Completed x" "ex_Succeeded x" by blast
    show "settles sv (nearer E fs base) (case s of Inl err \<Rightarrow> actionErrored E g isPre a res tr err
        | Inr execResult \<Rightarrow> actionCompleted E g isPre a res tr execResult)"
      unfolding x(1) sum.case actionCompleted_def Let_def saveTransition_def
      using x(2,3) assms(5)
      by (auto intro!: settles_bind [OF eff_quietly [OF quiet_calls(1)]] settles_bind [OF eff_quietly [OF count]] settles_saveStatus
          cooperativeD(1) [OF assms(1)])
  qed
qed

end

context sound_reconciler
begin

lemma phaseActions_hook: "a \<in> set (phaseActions r fs tr isPre) \<Longrightarrow> a \<in> hookActions r fs"
  by (cases "getTransitionHooks r fs (tr_TargetDirection tr)") (auto simp: hookActions_def phaseActions_def split: if_splits)

lemma currentAction_settles:
  assumes "cooperative E r fs" "rec_ActionExecutor r = Some m" "a \<in> hookActions r fs" "underway_ok E tr" "tr_Phase tr = actionPhase isPre"
    and "tr_CurrentActionIndex tr = int (atIndex tr)" "atIndex tr < length (phaseResults isPre tr)"
    and "res = phaseResults isPre tr ! atIndex tr" "healthy E res" "g = setTransition (Some tr) fs"
  shows "settles sv (nearer E fs tr) (do {
    h \<leftarrow> handleActionState E g isPre a res tr;
    case h of Some reply \<Rightarrow> ret reply | None \<Rightarrow> runAction E r g isPre a res tr })"
proof -
  note store = nearer_store [OF assms(4-7), of _ fs]
  note save = settles_saveStatus [OF cooperativeD(1) [OF assms(1)]]
  have again: "setTransition (Some t) g = setTransition (Some t) fs" for t by (simp add: assms(10) setTransition_def setStatus_def)
  have same: "storeResult isPre (atIndex tr) res tr = tr" using storeResult_same assms(8) by simp
  consider (passed) "ar_Status res = ActionStatusSucceeded \<or> ar_Status res = ActionStatusSkipped"
    | (pending) "ar_Status res = ActionStatusPending"
    | (running) "ar_Status res \<noteq> ActionStatusSucceeded" "ar_Status res \<noteq> ActionStatusSkipped" "ar_Status res \<noteq> ActionStatusFailed"
        "ar_Status res \<noteq> ActionStatusPending"
    using assms(9) by (auto simp: healthy_def)
  then show ?thesis
  proof cases
    case passed
    then show ?thesis
      using store(2) [OF assms(9)]
      by (simp add: handleActionState_def Let_def saveTransition_def same again assms(6)) (rule save)
  next
    case pending
    have start: "healthy E (res\<lparr>ar_Status := ActionStatusRunning, ar_StartedAt := Some t\<rparr>)" if "t \<in> range (o_now E)" for t
      using that by (simp add: healthy_def)
    have clock: "eff (still sv) (now E) (\<lambda>t. t \<in> range (o_now E))"
      unfolding now_def by (rule eff_call) (simp_all add: still_def)
    show ?thesis
      using pending store(1) [OF start] assms(8)
      by (simp add: handleActionState_def Let_def saveTransition_def again assms(6)) (auto intro!: settles_bind [OF clock] save)
  next
    case running
    have finished: "healthy E (res\<lparr>ar_JobName := ex_JobName x, ar_Message := ex_Message x, ar_CompletedAt := Some t,
        ar_Status := ActionStatusSucceeded\<rparr>)" for t and x :: ExecResult
      using assms(9) by (simp add: healthy_def)
    have ran: "settles sv (nearer E fs tr) (runAction E r g isPre a res tr)"
      by (rule runAction_settles [OF assms(1-3)]) (use store(2) [OF finished] in \<open>simp_all add: again assms(6)\<close>, simp add: assms(10))
    show ?thesis
      by (rule settles_bind [OF handleActionState_passes [OF assms(1,3,9) running]]) (simp add: ran)
  qed
qed

lemma executeActionPhase_settles:
  assumes "cooperative E r fs" "fs_Transition fs = Some base" "underway_ok E base" "tr_Phase base = actionPhase isPre"
    and "rec_ActionExecutor r \<noteq> None"
  shows "settles sv (nearer E fs base) (executeActionPhase E r fs isPre)"
proof -
  let ?tr = "normIndex base" and ?i = "atIndex base"
  note ok = underway_norm [OF assms(3)]
  have phase: "tr_Phase ?tr = actionPhase isPre" by (simp add: assms(4))
  note near = settles_mono [OF _ nearer_norm]
  show ?thesis
  proof (cases "?i < length (phaseActions r fs ?tr isPre) \<and> ?i < length (phaseResults isPre ?tr)")
    case False
    then have "executeActionPhase E r fs isPre = endActionPhase E r fs ?tr isPre"
      unfolding executeActionPhase_def assms(2) option.case normIndex_eq Let_def by auto
    then show ?thesis using near [OF endActionPhase_settles [OF assms(1) ok phase]] by simp
  next
    case True
    let ?a = "phaseActions r fs ?tr isPre ! ?i" and ?res = "phaseResults isPre base ! ?i" and ?g = "setTransition (Some ?tr) fs"
    have run: "executeActionPhase E r fs isPre = do {
        h \<leftarrow> handleActionState E ?g isPre ?a ?res ?tr;
        case h of Some reply \<Rightarrow> ret reply | None \<Rightarrow> runAction E r ?g isPre ?a ?res ?tr }"
      using True unfolding executeActionPhase_def assms(2) option.case normIndex_eq Let_def normIndex_simps by auto
    have res: "healthy E ?res"
      using assms(3) True [unfolded normIndex_simps] nth_mem [of ?i "phaseResults isPre base"]
      by (cases isPre) (auto simp: underway_ok_def phaseResults_def list_all_iff)
    have a: "?a \<in> hookActions r fs"
      by (rule phaseActions_hook [OF nth_mem]) (use True in simp)
    obtain m where m: "rec_ActionExecutor r = Some m" using assms(5) by auto
    show ?thesis
      unfolding run by (rule near [OF currentAction_settles [OF assms(1) m a ok phase _ _ _ res refl]]) (use True in simp_all)
  qed
qed

end

context sound_reconciler
begin

lemma reconcileUpdatingResources_settles:
  assumes "cooperative E r fs" "fs_Transition fs = Some tr" "underway_ok E tr" "tr_Phase tr = PhaseUpdatingResources"
  shows "settles True (nearer E fs tr) (reconcileUpdatingResources E r fs)"
proof -
  let ?tr = "tr\<lparr>tr_Phase := PhaseFlushingConnections, tr_CurrentActionIndex := 0\<rparr>"
  have switch: "eff (still True) (ReconcileWithAddress E fs address) (\<lambda>e. e = None)" for address
    by (rule eff_returns [OF emits_weaken [OF ReconcileWithAddress_confined]])
      (use cooperativeD(2) [OF assms(1) refl refl] in \<open>auto simp: wp_result_final still_def elim: is_service_entry.elims\<close>)
  have near: "nearer E fs tr g" if "kept fs f" "kept (setTransition (Some ?tr) f) g" for f g
    by (rule nearer_phase [OF assms(3)])
      (use that assms(4) unsent_before [OF assms(3)] in \<open>auto simp: remaining_def switched_def kept_def same_object_def split: option.split\<close>)
  show ?thesis
    unfolding reconcileUpdatingResources_def assms(2) option.case Let_def
    by (rule settles_bind [OF switch])
      (auto intro!: settles_bind [OF eff_quietly [OF setConditionNow_kept]] settles_bind [OF eff_quietly [OF updateClusterStatus_kept]]
        settles_saveStatus cooperativeD(1) [OF assms(1)] near)
qed

end

text \<open>A status that has left the flush, and one that waits for acknowledgements of a kill that was signalled.\<close>

definition flushed :: "FailoverService \<Rightarrow> bool" where
  "flushed g \<longleftrightarrow> (\<forall>t. fs_Transition g = Some t \<longrightarrow> tr_Phase t \<noteq> PhaseFlushingConnections)"

definition kill_sent :: "env \<Rightarrow> Signaler \<Rightarrow> FailoverService \<Rightarrow> hist \<Rightarrow> FailoverService \<Rightarrow> bool" where
  "kill_sent E sg fs h g \<longleftrightarrow> (\<exists>t ck. fs_Transition g = Some t \<and> tr_ConnectionKill t = Some ck \<and>
     signalledIn E sg fs h (ck_KillToken ck) (ck_ExpectedNodes ck))"

context sound_reconciler
begin

lemma advanceAfterFlush_settles:
  assumes "cooperative E r fs" "underway_ok E tr" "tr_Phase tr = PhaseFlushingConnections"
    and "kept fs f \<or> kept (setTransition (Some t) fs) f" "tr_TargetDirection t = tr_TargetDirection tr"
    "tr_PreActionResults t = tr_PreActionResults tr" "tr_PostActionResults t = tr_PostActionResults tr"
    "tr_NewAddressSnapshot t = tr_NewAddressSnapshot tr"
  shows "settles sv (\<lambda>g. nearer E fs tr g \<and> flushed g) (advanceAfterFlush E r f t)"
proof -
  let ?t = "t\<lparr>tr_Phase := PhaseExecutingPostActions, tr_CurrentActionIndex := 0\<rparr>"
  have same: "fs_Meta f = fs_Meta fs" "fs_Spec f = fs_Spec fs" using assms(4) by (auto simp: kept_def same_object_def)
  have near: "nearer E fs tr g \<and> flushed g" if "kept (setTransition (Some ?t) f) g" for g
  proof
    show "flushed g" using that by (simp add: flushed_def kept_def same_object_def)
    show "nearer E fs tr g"
      by (rule nearer_phase [OF assms(2)])
        (use that same assms(3,5-8) in \<open>auto simp: remaining_def switched_def kept_def same_object_def atIndex_def split: option.split\<close>)
  qed
  have complete: "settles sv (\<lambda>g. nearer E fs tr g \<and> flushed g) (completeTransition E r (setTransition (Some t) f))"
    by (rule settles_mono [OF completeTransition_settles [OF assms(1), of "setTransition (Some t) f" t tr]])
      (use same assms(3,5) in \<open>auto simp: switched_def flushed_def\<close>)
  show ?thesis
    unfolding advanceAfterFlush_def
    by (auto intro!: settles_bind [OF eff_quietly [OF updateClusterStatus_kept]] settles_saveStatus
        cooperativeD(1) [OF assms(1)] near complete split: option.split)
qed

lemma skipFlush_settles:
  assumes "cooperative E r fs" "underway_ok E tr" "tr_Phase tr = PhaseFlushingConnections"
  shows "settles sv (\<lambda>g. nearer E fs tr g \<and> flushed g) (skipFlush E r fs tr)"
  unfolding skipFlush_def
  by (auto intro!: settles_bind [OF eff_quietly [OF setConditionNow_kept]] advanceAfterFlush_settles [OF assms])

lemma flushPoll_settles:
  assumes "cooperative E r fs" "underway_ok E tr" "tr_Phase tr = PhaseFlushingConnections" "rec_ConnSignaler r = Some sg"
    and "signalledIn E sg fs (w_hist v) (ck_KillToken ck) (ck_ExpectedNodes ck)"
  shows "settles_at sv (\<lambda>g. nearer E fs tr g \<and> flushed g) (flushPoll E r sg fs tr ck ip) v"
proof -
  obtain st where st: "result (CheckAcks E sg (ck_KillToken ck) (ck_ExpectedNodes ck) (fs_Namespace fs) (fs_Name fs)) v = Inr st"
    "as_AllAcked st"
    using cooperativeD(6) [OF assms(1,4,5)] by blast
  show ?thesis
    unfolding flushPoll_def Let_def
    by (rule settles_at_bind [OF eff_quietly [OF quiet_helpers(7)]], unfold st(1) sum.case, rule settles_everywhere)
      (auto simp: st(2) intro!: settles_bind [OF eff_quietly [OF quiet_calls(2)]] settles_bind [OF eff_quietly [OF setConditionNow_kept]]
        advanceAfterFlush_settles [OF assms(1-3)])
qed

lemma flushSignal_settles:
  assumes "cooperative E r fs" "underway_ok E tr" "tr_Phase tr = PhaseFlushingConnections" "rec_ConnSignaler r = Some sg" "unsent tr"
  shows "settles_at sv (\<lambda>g. nearer E fs tr g \<and>
      (flushed g \<or> kill_sent E sg fs (w_hist (final (flushSignal E r sg fs tr ip) v)) g)) (flushSignal E r sg fs tr ip) v"
proof -
  let ?u = "final (now E) v"
  let ?tok = "tr_TransitionID tr @ ''-'' @ show_int (wrap64 (result (now E) v))"
  let ?kill = "SignalKill E sg ip ?tok (fs_Namespace fs) (fs_Name fs)"
  obtain nn where nn: "result ?kill ?u = Inr nn" using cooperativeD(5) [OF assms(1,4)] by blast
  define k where "k nn = (if nn = [] then do {
        fs1 \<leftarrow> setConditionNow E ConditionConnectionsKilled True ''Skipped''
          ''No ready connection-killer agents available; connection kill skipped'' (setTransition (Some (tr\<lparr>tr_ConnectionKill := None\<rparr>)) fs);
        advanceAfterFlush E r fs1 (tr\<lparr>tr_ConnectionKill := None\<rparr>) }
      else do {
        t \<leftarrow> now E;
        fs2 \<leftarrow> updateClusterStatus E r (setCondition_at E ConditionConnectionsKilled False t ''WaitingForAcks''
            (''Kill signal sent for '' @ ip @ '', waiting for '' @ show_nat (length nn) @ '' node ACKs'')
            (setTransition (Some (tr\<lparr>tr_ConnectionKill := Some \<lparr>ck_SignalSent = True, ck_KillToken = ?tok,
               ck_ExpectedNodes = nn, ck_AckedNodes = [], ck_SignaledAt = Some t\<rparr>\<rparr>)) fs)) PhaseFlushingConnections;
        saveIgnoring E fs2 (requeueAfter connKillPollInterval) })" for nn
  let ?Q = "\<lambda>g. nearer E fs tr g \<and> (flushed g \<or> (\<exists>t ck. fs_Transition g = Some t \<and> tr_ConnectionKill t = Some ck \<and>
      ck_KillToken ck = ?tok \<and> ck_ExpectedNodes ck = nn))"
  have near: "?Q g" if "kept (setTransition (Some (tr\<lparr>tr_ConnectionKill := Some ck\<rparr>)) fs) g" "ck_SignalSent ck"
    "ck_KillToken ck = ?tok" "ck_ExpectedNodes ck = nn" for g ck
  proof -
    have "nearer E fs tr g"
      by (rule nearer_phase [OF assms(2)])
        (use that assms(3,5) in \<open>auto simp: remaining_def switched_def kept_def same_object_def unsent_def split: option.split\<close>)
    with that show ?thesis by (auto simp: kept_def same_object_def)
  qed
  have sent: "settles sv ?Q (k nn)"
  proof (cases "nn = []")
    case True
    then show ?thesis
      unfolding k_def
      by (auto intro!: settles_bind [OF eff_quietly [OF setConditionNow_kept]]
          settles_mono [OF advanceAfterFlush_settles [OF assms(1-3)]])
  next
    case False
    show ?thesis
      unfolding k_def if_not_P [OF False]
      by (intro settles_bind [OF eff_quietly [OF quiet_calls(1)]] settles_bind [OF eff_quietly [OF updateClusterStatus_kept]]
          settles_saveIgnoring cooperativeD(1) [OF assms(1)], rule near, erule kept_trans [OF kept_updates(2)]) simp_all
  qed
  have run: "final (flushSignal E r sg fs tr ip) v = final (k nn) (final ?kill ?u)"
    unfolding flushSignal_def Let_def run_bind nn sum.case k_def by simp
  have "\<exists>es. w_hist (final (k nn) x) = es @ w_hist x" for x
    using settles_everywhere [OF sent, of x] by (auto simp: settles_at_def)
  then have after: "signalledIn E sg fs (w_hist (final (flushSignal E r sg fs tr ip) v)) ?tok nn"
    unfolding signalledIn_def run using nn by blast
  have "settles_at sv ?Q (now E \<bind> (\<lambda>_. ?kill \<bind> (\<lambda>_. k nn))) v"
    by (rule settles_at_bind [OF eff_quietly [OF quiet_calls(1)]], rule settles_at_bind [OF eff_quietly [OF quiet_helpers(6)]])
      (rule settles_everywhere [OF sent])
  then have "settles_at sv ?Q (flushSignal E r sg fs tr ip) v" unfolding settles_at_def run run_bind .
  then show ?thesis by (rule settles_at_mono) (use after in \<open>auto simp: kill_sent_def\<close>)
qed

end

text \<open>The outcome of one reconciliation, from a given world: nearer, and waiting only for kills that were signalled.\<close>

definition flush_tracked :: "env \<Rightarrow> Reconciler \<Rightarrow> FailoverService \<Rightarrow> hist \<Rightarrow> TransitionStatus \<Rightarrow> bool" where
  "flush_tracked E r fs h tr \<longleftrightarrow> (\<forall>sg ck. tr_Phase tr = PhaseFlushingConnections \<and> rec_ConnSignaler r = Some sg \<and>
     tr_ConnectionKill tr = Some ck \<and> ck_SignalSent ck \<longrightarrow> signalledIn E sg fs h (ck_KillToken ck) (ck_ExpectedNodes ck))"

lemma flush_tracked_later: "flush_tracked E r fs h tr \<Longrightarrow> flush_tracked E r fs (es @ h) tr"
  unfolding flush_tracked_def using signalledIn_later by blast

lemma flush_tracked_unsent: "unsent tr \<or> tr_Phase tr \<noteq> PhaseFlushingConnections \<Longrightarrow> flush_tracked E r fs h tr"
  by (auto simp: flush_tracked_def unsent_def)

definition nearer_tracked :: "env \<Rightarrow> Reconciler \<Rightarrow> FailoverService \<Rightarrow> TransitionStatus \<Rightarrow> hist \<Rightarrow> FailoverService \<Rightarrow> bool" where
  "nearer_tracked E r fs tr h g \<longleftrightarrow> nearer E fs tr g \<and> (\<forall>t. fs_Transition g = Some t \<longrightarrow> flush_tracked E r fs h t)"

context sound_reconciler
begin

lemma reconcileFlushingConnections_settles:
  assumes "cooperative E r fs" "fs_Transition fs = Some tr" "underway_ok E tr" "tr_Phase tr = PhaseFlushingConnections"
    and "flush_tracked E r fs (w_hist v) tr"
  shows "settles_at False (nearer_tracked E r fs tr (w_hist (final (reconcileFlushingConnections E r fs) v)))
    (reconcileFlushingConnections E r fs) v"
proof -
  have left: "nearer_tracked E r fs tr h g" if "nearer E fs tr g \<and> flushed g" for h g
    using that by (auto simp: nearer_tracked_def flushed_def intro: flush_tracked_unsent)
  note skip = settles_at_mono [OF settles_everywhere [OF skipFlush_settles [OF assms(1,3,4)]] left]
  show ?thesis
  proof (cases "rec_ConnSignaler r")
    case None
    with skip show ?thesis by (simp add: reconcileFlushingConnections_def assms(2))
  next
    case (Some sg)
    have sent: "nearer_tracked E r fs tr h g" if "nearer E fs tr g \<and> (flushed g \<or> kill_sent E sg fs h g)" for h g
      using that left [of g h] by (auto simp: nearer_tracked_def kill_sent_def flush_tracked_def Some)
    note poll = settles_at_mono [OF flushPoll_settles [OF assms(1,3,4) Some] left]
    note signal = settles_at_mono [OF flushSignal_settles [OF assms(1,3,4) Some] sent]
    have unsent: "unsent tr" if "\<nexists>ck. tr_ConnectionKill tr = Some ck \<and> ck_SignalSent ck" using that by (auto simp: unsent_def)
    show ?thesis
      unfolding reconcileFlushingConnections_def assms(2) option.case Some Let_def
      using skip poll signal unsent assms(5) Some
      by (auto simp: flush_tracked_def assms(4) split: option.split)
  qed
qed

lemma dispatchPhase_settles:
  assumes "cooperative E r fs" "fs_Transition fs = Some tr" "underway_ok E tr" "rec_ActionExecutor r \<noteq> None"
    and "flush_tracked E r fs (w_hist v) tr"
  shows "settles_at (tr_Phase tr = PhaseUpdatingResources) (nearer_tracked E r fs tr (w_hist (final (dispatchPhase E r fs) v)))
    (dispatchPhase E r fs) v"
proof -
  have other: "nearer_tracked E r fs tr h g" if "nearer E fs tr g" "tr_Phase tr \<noteq> PhaseFlushingConnections" for h g
    using that by (auto simp: nearer_tracked_def nearer_def intro: flush_tracked_unsent split: option.splits)
  note everywhere = settles_at_mono [OF settles_everywhere other]
  note pre = everywhere [OF executeActionPhase_settles [OF assms(1-3) _ assms(4), of True, unfolded actionPhase_def, simplified]]
  note post = everywhere [OF executeActionPhase_settles [OF assms(1-3) _ assms(4), of False, unfolded actionPhase_def, simplified]]
  note switch = everywhere [OF reconcileUpdatingResources_settles [OF assms(1-3)]]
  note flush = reconcileFlushingConnections_settles [OF assms(1-3) _ assms(5)]
  have "tr_Phase tr \<in> {PhaseExecutingPreActions, PhaseUpdatingResources, PhaseFlushingConnections, PhaseExecutingPostActions}"
    using assms(3) by (auto simp: underway_ok_def PhaseOrder_def split: if_splits)
  then show ?thesis
    using pre post switch flush unfolding dispatchPhase_def assms(2) option.case Let_def by auto
qed

end

section \<open>A server that stores the object\<close>

fun storedFS :: "FailoverService \<Rightarrow> hist \<Rightarrow> FailoverService" where
  "storedFS base [] = base"
| "storedFS base (e # h) = (case e of UpdateFS _ (Inr f) \<Rightarrow> f | UpdateFSStatus _ (Inr f) \<Rightarrow> f | _ \<Rightarrow> storedFS base h)"

definition keepsObject :: "env \<Rightarrow> FailoverService \<Rightarrow> nsname \<Rightarrow> bool" where
  "keepsObject E base req \<longleftrightarrow> (\<forall>h. o_getFS E h req = Inr (storedFS base h))"

text \<open>An object that is not being deleted, carries finalizer and cluster ID, and is not to be force-advanced.\<close>

definition plainObject :: "env \<Rightarrow> Reconciler \<Rightarrow> FailoverService \<Rightarrow> bool" where
  "plainObject E r fs \<longleftrightarrow> \<not> isDeleted fs \<and> x_containsFinalizer E (m_Finalizers (fs_Meta fs)) finalizerName \<and>
     m_Annotations (fs_Meta fs) \<noteq> None \<and> mget (m_Annotations (fs_Meta fs)) clusterIDAnnotation = rec_ClusterID r \<and>
     mget (m_Annotations (fs_Meta fs)) forceAdvanceAnnotation = ''''"

fun reconcileTimes :: "nat \<Rightarrow> env \<Rightarrow> Reconciler \<Rightarrow> nsname \<Rightarrow> unit io" where
  "reconcileTimes 0 E r req = ret ()"
| "reconcileTimes (Suc n) E r req = do { Reconcile E r req; reconcileTimes n E r req }"

lemma storedFS_filter: "storedFS base h = storedFS base (filter is_fs_write h)"
proof (induction h)
  case (Cons e h)
  then show ?case by (cases e) (auto split: sum.split)
qed simp

lemma storedFS_settled:
  assumes "settled_calls sv Q cs"
  shows "Q (storedFS base (rev cs @ h))"
proof -
  obtain g where g: "filter (\<lambda>e. \<not> still sv e) cs = [UpdateFSStatus g (Inr g)]" "Q g" using assms by (auto simp: settled_calls_def)
  have "filter is_fs_write cs = filter is_fs_write (filter (\<lambda>e. \<not> still sv e) cs)"
    unfolding filter_filter by (rule filter_cong) (auto simp: still_def)
  then have "filter is_fs_write (rev cs @ h) = UpdateFSStatus g (Inr g) # filter is_fs_write h"
    unfolding g(1) by (simp add: rev_filter [symmetric])
  with g(2) show ?thesis by (subst storedFS_filter) simp
qed

text \<open>One reconciliation of a plain object is one run of its phase, and what that settles is what is stored.\<close>

lemma Reconcile_plain:
  assumes "keepsObject E base req" "plainObject E r fs" "storedFS base (w_hist w) = fs"
  shows "\<exists>v. w_hist v = GetFS req (Inr fs) # w_hist w \<and> final (Reconcile E r req) w = final (dispatchPhase E r fs) v"
proof -
  let ?k = "\<lambda>g. case g of Inl e \<Rightarrow> if IsNotFound e then ret (Inr noRequeue) else ret (Inl e)
    | Inr fs \<Rightarrow> if isDeleted fs then reconcileDeletion E r fs
       else if \<not> x_containsFinalizer E (m_Finalizers (fs_Meta fs)) finalizerName then do {
         u \<leftarrow> updateFS E (setFinalizers (x_addFinalizer E (m_Finalizers (fs_Meta fs)) finalizerName) fs);
         case u of Inl e \<Rightarrow> ret (Inl e) | Inr fs1 \<Rightarrow> reconcileFinalized E r fs1 }
       else reconcileFinalized E r fs"
  have read: "result (getFS E req) w = Inr fs" "w_hist (final (getFS E req) w) = GetFS req (Inr fs) # w_hist w"
    using assms(1,3) by (simp_all add: getFS_def run_call keepsObject_def)
  have phase: "?k (Inr fs) = dispatchPhase E r fs"
    using assms(2) by (auto simp: plainObject_def reconcileFinalized_def reconcileAnnotated_def)
  have "final (Reconcile E r req) w = final (dispatchPhase E r fs) (final (getFS E req) w)"
    unfolding Reconcile_def run_bind read phase ..
  with read(2) show ?thesis by blast
qed

lemma plainObject_cong: "fs_Meta g = fs_Meta fs \<Longrightarrow> plainObject E r fs \<Longrightarrow> plainObject E r g"
  by (simp add: plainObject_def isDeleted_def)

text \<open>Where the transition switches the traffic to.\<close>

definition switchAddress :: "Reconciler \<Rightarrow> FailoverService \<Rightarrow> TransitionStatus \<Rightarrow> string" where
  "switchAddress r fs tr = (if tr_NewAddressSnapshot tr = '''' then snd (getTransitionAddresses r fs (tr_TargetDirection tr))
     else tr_NewAddressSnapshot tr)"

definition finished :: "FailoverService \<Rightarrow> bool \<Rightarrow> FailoverService \<Rightarrow> bool" where
  "finished fs b f \<longleftrightarrow> fs_Transition f = None \<and> fs_Meta f = fs_Meta fs \<and> fs_Spec f = fs_Spec fs \<and>
     st_LastKnownFailoverActive (fs_Status f) = Some b"

lemma routes_to_cong: "fs_Meta g = fs_Meta fs \<Longrightarrow> fs_Spec g = fs_Spec fs \<Longrightarrow> routes_to E g a h = routes_to E fs a h"
  by (simp add: routes_to_def buildClusterIPService_def desiredSlice_def sliceName_def Let_def)

lemma switchAddress_cong:
  "fs_Spec g = fs_Spec fs \<Longrightarrow> tr_TargetDirection t = tr_TargetDirection tr \<Longrightarrow> tr_NewAddressSnapshot t = tr_NewAddressSnapshot tr \<Longrightarrow>
   switchAddress r g t = switchAddress r fs tr"
  by (simp add: switchAddress_def getTransitionAddresses_def localTarget_def Let_def)

lemma settled_no_service: "settled_calls False Q cs \<Longrightarrow> e \<in> set cs \<Longrightarrow> \<not> is_service_entry e"
proof
  assume "settled_calls False Q cs" "e \<in> set cs" "is_service_entry e"
  then obtain g where "filter (\<lambda>e. \<not> still False e) cs = [UpdateFSStatus g (Inr g)]" by (auto simp: settled_calls_def)
  moreover have "e \<in> set (filter (\<lambda>e. \<not> still False e) cs)"
    using \<open>e \<in> set cs\<close> \<open>is_service_entry e\<close> by (simp add: still_def)
  ultimately show False using \<open>is_service_entry e\<close> by simp
qed

lemma settled_written: "settled_calls sv Q cs \<Longrightarrow> \<exists>g. UpdateFSStatus g (Inr g) \<in> set cs"
  unfolding settled_calls_def by (metis filter_is_subset list.set_intros(1) subsetD)

context sound_reconciler
begin

lemma Reconcile_nearer:
  assumes "keepsObject E base req" "gets_named E" "rec_ActionExecutor r \<noteq> None" "storedFS base (w_hist w) = fs"
    and "plainObject E r fs" "cooperative E r fs" "fs_Transition fs = Some tr" "underway_ok E tr" "flush_tracked E r fs (w_hist w) tr"
  shows "nearer_tracked E r fs tr (w_hist (final (Reconcile E r req) w)) (storedFS base (w_hist (final (Reconcile E r req) w)))"
    and "tr_Phase tr = PhaseUpdatingResources \<or> switched tr \<and> routes_to E fs (switchAddress r fs tr) (w_hist w) \<Longrightarrow>
      routes_to E fs (switchAddress r fs tr) (w_hist (final (Reconcile E r req) w))"
proof -
  let ?m = "dispatchPhase E r fs"
  obtain v where v: "w_hist v = GetFS req (Inr fs) # w_hist w" "final (Reconcile E r req) w = final ?m v"
    using Reconcile_plain [OF assms(1,5,4)] by blast
  have "flush_tracked E r fs (w_hist v) tr" unfolding v(1) using flush_tracked_later [OF assms(9), of "[GetFS req (Inr fs)]"] by simp
  from dispatchPhase_settles [OF assms(6,7,8,3) this]
  obtain cs where hist: "w_hist (final ?m v) = rev cs @ w_hist v"
    and settled: "settled_calls (tr_Phase tr = PhaseUpdatingResources) (nearer_tracked E r fs tr (w_hist (final ?m v))) cs"
    by (auto simp: settles_at_def)
  show "nearer_tracked E r fs tr (w_hist (final (Reconcile E r req) w)) (storedFS base (w_hist (final (Reconcile E r req) w)))"
    using storedFS_settled [OF settled, of base "w_hist v"] unfolding v(2) hist .
  assume before: "tr_Phase tr = PhaseUpdatingResources \<or> switched tr \<and> routes_to E fs (switchAddress r fs tr) (w_hist w)"
  show "routes_to E fs (switchAddress r fs tr) (w_hist (final (Reconcile E r req) w))"
  proof (cases "tr_Phase tr = PhaseUpdatingResources")
    case True
    then have m: "?m = reconcileUpdatingResources E r fs" by (simp add: dispatchPhase_def assms(7))
    obtain g where "UpdateFSStatus g (Inr g) \<in> set (calls (reconcileUpdatingResources E r fs) v)"
      using settled_written [OF tspec_calls [OF reconcileUpdatingResources_settles [OF assms(6,7,8) True, unfolded settles_def]]] by blast
    from reconcileUpdatingResources_routes [OF assms(2,7) this] show ?thesis
      unfolding v(2) m switchAddress_def by simp
  next
    case False
    then have "settled_calls False (nearer_tracked E r fs tr (w_hist (final ?m v))) cs" using settled by simp
    note quiet_run = settled_no_service [OF this]
    have "routes_to E fs (switchAddress r fs tr) (rev cs @ [GetFS req (Inr fs)] @ w_hist w)"
      using before False by (subst routes_to_frame) (auto simp: quiet_run routes_to_frame [of "[GetFS req (Inr fs)]", simplified])
    then show ?thesis unfolding v(2) hist v(1) by simp
  qed
qed

lemma transition_finishes:
  assumes "keepsObject E base req" "gets_named E" "rec_ActionExecutor r \<noteq> None"
  shows "storedFS base (w_hist w) = fs \<Longrightarrow> plainObject E r fs \<Longrightarrow> cooperative E r fs \<Longrightarrow> fs_Transition fs = Some tr \<Longrightarrow>
    underway_ok E tr \<Longrightarrow> flush_tracked E r fs (w_hist w) tr \<Longrightarrow> (switched tr \<Longrightarrow> routes_to E fs (switchAddress r fs tr) (w_hist w)) \<Longrightarrow>
    \<exists>n \<le> remaining tr. finished fs (tr_TargetDirection tr = directionFailover)
        (storedFS base (w_hist (final (reconcileTimes n E r req) w))) \<and>
      routes_to E fs (switchAddress r fs tr) (w_hist (final (reconcileTimes n E r req) w))"
proof (induction "remaining tr" arbitrary: tr fs w rule: less_induct)
  case less
  let ?w = "final (Reconcile E r req) w"
  let ?g = "storedFS base (w_hist ?w)"
  note outcome = Reconcile_nearer(1) [OF assms less.prems(1-6)] and routed = Reconcile_nearer(2) [OF assms less.prems(1-6)]
  have near: "nearer E fs tr ?g" using outcome by (simp add: nearer_tracked_def)
  have same: "fs_Meta ?g = fs_Meta fs" "fs_Spec ?g = fs_Spec fs" using near by (simp_all add: nearer_def)
  have step: "final (reconcileTimes (Suc n) E r req) w = final (reconcileTimes n E r req) ?w" for n
    by (simp add: run_bind)
  have pos: "0 < remaining tr" by (auto simp: remaining_def split: option.split)
  show ?case
  proof (cases "fs_Transition ?g")
    case None
    have "final (reconcileTimes (Suc 0) E r req) w = ?w" unfolding step by (simp add: run_ret)
    moreover have "switched tr" using near None by (simp add: nearer_def)
    ultimately show ?thesis
      using None near pos routed less.prems(7) by (intro exI [of _ "Suc 0"]) (auto simp: nearer_def finished_def)
  next
    case (Some t)
    with near have t: "tr_TargetDirection t = tr_TargetDirection tr" "tr_NewAddressSnapshot t = tr_NewAddressSnapshot tr"
      "underway_ok E t" "remaining t < remaining tr" "switched t \<longrightarrow> switched tr \<or> tr_Phase tr = PhaseUpdatingResources"
      by (simp_all add: nearer_def)
    note cong = switchAddress_cong [OF same(2) t(1,2)] routes_to_cong [OF same]
    have flush_tracked: "flush_tracked E r ?g (w_hist ?w) t"
      using outcome Some by (simp add: nearer_tracked_def flush_tracked_def signalledIn_def same)
    have "routes_to E ?g (switchAddress r ?g t) (w_hist ?w)" if "switched t"
      using that t(5) routed less.prems(7) unfolding cong by blast
    from less.hyps [OF t(4) refl plainObject_cong [OF same(1) less.prems(2)] cooperative_cong [OF less.prems(3) same] Some t(3) flush_tracked this]
    obtain n where "n \<le> remaining t" and "finished fs (tr_TargetDirection tr = directionFailover)
        (storedFS base (w_hist (final (reconcileTimes n E r req) ?w)))"
      "routes_to E fs (switchAddress r fs tr) (w_hist (final (reconcileTimes n E r req) ?w))"
      unfolding cong t(1) by (auto simp: finished_def same)
    with t(4) show ?thesis unfolding step [symmetric] by (intro exI [of _ "Suc n"]) auto
  qed
qed

end

section \<open>Beginning\<close>

text \<open>The actions of the direction that is wanted.\<close>

definition wantedDirection :: "FailoverService \<Rightarrow> string" where
  "wantedDirection fs = (if sp_FailoverActive (fs_Spec fs) then directionFailover else directionFailback)"

definition actionCount :: "Reconciler \<Rightarrow> FailoverService \<Rightarrow> nat" where
  "actionCount r fs = (case getTransitionHooks r fs (wantedDirection fs) of None \<Rightarrow> 0
     | Some h \<Rightarrow> length (ta_PreActions h) + length (ta_PostActions h))"

definition begun :: "env \<Rightarrow> Reconciler \<Rightarrow> FailoverService \<Rightarrow> FailoverService \<Rightarrow> bool" where
  "begun E r fs g \<longleftrightarrow> fs_Meta g = fs_Meta fs \<and> fs_Spec g = fs_Spec fs \<and>
     (\<exists>tr. fs_Transition g = Some tr \<and> underway_ok E tr \<and> \<not> switched tr \<and> tr_TargetDirection tr = wantedDirection fs \<and>
       switchAddress r g tr = snd (getTransitionAddresses r fs (wantedDirection fs)) \<and> remaining tr \<le> 2 * actionCount r fs + 5)"

lemma todo_new: "todo (makeActionResults l) = 2 * length l"
  by (induction l) (simp_all add: makeActionResults_def)

lemma length_new: "length (makeActionResults l) = length l"
  by (simp add: makeActionResults_def)

lemma healthy_new: "list_all (healthy E) (makeActionResults l)"
  by (simp add: makeActionResults_def healthy_def list_all_iff)

lemma newTransition_begun:
  assumes "int (actionCount r fs) < 2 ^ 63" "fs_Meta g = fs_Meta fs" "fs_Spec g = fs_Spec fs"
    and "fs_Transition h = Some (newTransition r g (wantedDirection fs) t)" "fs_Meta h = fs_Meta fs" "fs_Spec h = fs_Spec fs"
  shows "begun E r fs h"
proof -
  let ?tr = "newTransition r g (wantedDirection fs) t"
  have hooks: "getTransitionHooks r g d = getTransitionHooks r fs d" "getTransitionAddresses r h d = getTransitionAddresses r fs d"
    "getTransitionAddresses r g d = getTransitionAddresses r fs d" for d
    using assms(3,6) by (simp_all add: getTransitionHooks_def getTransitionAddresses_def localTarget_def Let_def)
  have "underway_ok E ?tr \<and> \<not> switched ?tr \<and> tr_TargetDirection ?tr = wantedDirection fs \<and> remaining ?tr \<le> 2 * actionCount r fs + 5"
    using assms(1)
    by (cases "getTransitionHooks r fs (wantedDirection fs)")
      (auto simp: newTransition_def hooks actionCount_def underway_ok_def switched_def unsent_def remaining_def indexable_def todo_new healthy_new
        atIndex_def length_new split: prod.split)
  moreover have "switchAddress r h ?tr = snd (getTransitionAddresses r fs (wantedDirection fs))"
    by (simp add: switchAddress_def newTransition_def hooks Let_def split: prod.split)
  ultimately show ?thesis using assms(4-6) by (auto simp: begun_def)
qed

lemma dispatchPhase_begins:
  assumes "\<And>h f. o_updateFSStatus E h f = Inr f" "fs_Transition fs = None" "pending fs" "int (actionCount r fs) < 2 ^ 63"
  shows "settles False (begun E r fs) (dispatchPhase E r fs)"
proof -
  note quietly = settles_bind [OF eff_quietly]
  have start: "dispatchPhase E r fs = do {
      t \<leftarrow> now E; beginTransition E r (setStatus (\<lambda>s. s\<lparr>st_SpecChangeTime := Some t\<rparr>) fs) triggerManual }"
    using assms(3) by (simp add: dispatchPhase_def assms(2) reconcileIdle_def pending_def)
  show ?thesis
    unfolding start beginTransition_def Let_def
  proof (intro quietly [OF quiet_calls(1)] quietly [OF quiet_calls(2)] quietly [OF updateClusterStatus_kept], goal_cases)
    case (1 a _ t f)
    then have f: "fs_Transition f = Some (newTransition r (setStatus (\<lambda>s. s\<lparr>st_SpecChangeTime := Some a\<rparr>) fs) (wantedDirection fs) t)"
      "fs_Meta f = fs_Meta fs" "fs_Spec f = fs_Spec fs"
      by (simp_all add: kept_def same_object_def wantedDirection_def)
    show ?case
      by (rule settles_write [OF assms(1)])
        (auto intro!: newTransition_begun [OF assms(4) _ _ f] eff_bind [OF eff_quietly [OF createFailoverEvent_quiet]] eff_ret
          split: option.split)
  qed
qed

context sound_reconciler
begin

lemma failover_finishes:
  assumes "keepsObject E base req" "gets_named E" "rec_ActionExecutor r \<noteq> None" "storedFS base (w_hist w) = fs"
    and "plainObject E r fs" "cooperative E r fs" "fs_Transition fs = None" "pending fs" "int (actionCount r fs) < 2 ^ 63"
  shows "\<exists>n \<le> 2 * actionCount r fs + 6. finished fs (sp_FailoverActive (fs_Spec fs))
      (storedFS base (w_hist (final (reconcileTimes n E r req) w))) \<and>
    routes_to E fs (snd (getTransitionAddresses r fs (wantedDirection fs))) (w_hist (final (reconcileTimes n E r req) w))"
proof -
  let ?w = "final (Reconcile E r req) w"
  let ?g = "storedFS base (w_hist ?w)"
  obtain v where v: "final (Reconcile E r req) w = final (dispatchPhase E r fs) v"
    using Reconcile_plain [OF assms(1,5,4)] by blast
  note run = dispatchPhase_begins [where E = E, OF cooperativeD(1) [OF assms(6)] assms(7-9), unfolded settles_def]
  have "begun E r fs ?g"
    unfolding v final_hist [OF run] by (rule storedFS_settled [OF tspec_calls [OF run]])
  then obtain tr where same: "fs_Meta ?g = fs_Meta fs" "fs_Spec ?g = fs_Spec fs" and tr: "fs_Transition ?g = Some tr"
    "underway_ok E tr" "\<not> switched tr" "tr_TargetDirection tr = wantedDirection fs"
    "switchAddress r ?g tr = snd (getTransitionAddresses r fs (wantedDirection fs))" "remaining tr \<le> 2 * actionCount r fs + 5"
    by (auto simp: begun_def)
  have flush_tracked: "flush_tracked E r ?g (w_hist ?w) tr" using tr(3) by (intro flush_tracked_unsent) (auto simp: switched_def)
  have dir: "(wantedDirection fs = directionFailover) = sp_FailoverActive (fs_Spec fs)"
    by (simp add: wantedDirection_def)
  obtain n where "n \<le> remaining tr" "finished fs (sp_FailoverActive (fs_Spec fs)) (storedFS base (w_hist (final (reconcileTimes n E r req) ?w)))"
    "routes_to E fs (snd (getTransitionAddresses r fs (wantedDirection fs))) (w_hist (final (reconcileTimes n E r req) ?w))"
    using transition_finishes [OF assms(1-3) refl plainObject_cong [OF same(1) assms(5)] cooperative_cong [OF assms(6) same] tr(1,2) flush_tracked] tr(3-6)
    by (auto simp: finished_def same dir routes_to_cong [OF same])
  moreover have "final (reconcileTimes (Suc n) E r req) w = final (reconcileTimes n E r req) ?w" by (simp add: run_bind)
  ultimately show ?thesis using tr(6) by (intro exI [of _ "Suc n"]) simp
qed

end

section \<open>Properties\<close>


definition objectEnv :: env where
  "objectEnv = quietEnv\<lparr>o_getFS := \<lambda>h _. Inr (storedFS sampleFS h)\<rparr>"

lemma sampleFS_hooks: "getTransitionHooks sampleReconciler sampleFS d =
    (if d = directionFailover then Some \<lparr>ta_PreActions = [sampleAction], ta_PostActions = []\<rparr> else None)"
  by (simp add: getTransitionHooks_def localTarget_def sampleReconciler_def newReconciler_def Let_def sampleFS_def sampleTarget_def)

lemma objectEnv_cooperative: "cooperative objectEnv sampleReconciler sampleFS"
proof -
  have hook: "hookActions sampleReconciler sampleFS = {sampleAction}"
    by (auto simp: hookActions_def sampleFS_hooks split: if_splits)
  have service: "result (ReconcileWithAddress objectEnv g address) w = None" for g address w
    by (simp add: result_def objectEnv_def service_defs call_defs call_def Let_def notFound_def IsNotFound_def)
  have action: "\<exists>x. result (MultiExecute m objectEnv ctx sampleAction k p i) w = Inr x \<and> ex_Completed x \<and> ex_Succeeded x"
    if "rec_ActionExecutor sampleReconciler = Some m" for m ctx k p i w
    using that
    by (auto simp: sampleReconciler_def newReconciler_def Let_def actionExecutor_def MultiExecute_def HTTPExecute_def result_def
        objectEnv_def sampleAction_def call_defs call_def succeeded_def)
  have limits: "actionLimits sampleAction = []" by (simp add: actionLimits_def sampleAction_def)
  have agents: "result (SignalKill objectEnv sg ip tok k f) w = Inr []" for sg ip tok k f w
    by (simp add: result_def SignalKill_def discoverAgentNodes_def objectEnv_def call_defs call_def Let_def sort_strings_def)
  have acks: "\<exists>st. result (CheckAcks objectEnv sg tok [] k f) w = Inr st \<and> as_AllAcked st" for sg tok k f w
    by (simp add: CheckAcks_def run_ret)
  have secrets: "o_getSecret objectEnv h k = Inl notFound" for h k by (simp add: objectEnv_def)
  have sync: "result (s objectEnv g) w \<noteq> Inr res" if "rec_Syncer sampleReconciler = Some s" for s g w res
    using that eff_result [OF unreachable_sync [where E = objectEnv, OF secrets]]
    by (auto simp: sampleReconciler_def newReconciler_def Let_def) (metis sum.distinct(1))
  show ?thesis
    unfolding cooperative_def hook
    using service action agents acks sync by (auto simp: signalledIn_def limits objectEnv_def)
qed


end
