(* ===== verification/TwoClusters.thy ===== *)
theory TwoClusters
  imports Completion
begin

text \<open>
  The two clusters together: what one of them decides is carried out by the other one.  One controller's \<open>Sync\<close> pushes its
  \<^verbatim>\<open>failoverActive\<close> into the other cluster's object, and the other cluster's controller, reconciling that object, takes it
  through a whole transition (\<open>Completion\<close>).
\<close>

section \<open>What a push leaves behind\<close>

text \<open>The other cluster's object after the calls \<open>cs\<close>: the one of the last push that was accepted.\<close>

fun acceptedPush :: "entry \<Rightarrow> FailoverService option" where
  "acceptedPush (Write (RemoteUpdateFS c f) None) = Some f"
| "acceptedPush _ = None"

lemma acceptedPush_iff: "acceptedPush e = Some f \<longleftrightarrow> (\<exists>c. e = Write (RemoteUpdateFS c f) None)"
  by (cases e rule: acceptedPush.cases) simp_all

fun remoteObject :: "FailoverService \<Rightarrow> entry list \<Rightarrow> FailoverService" where
  "remoteObject b [] = b"
| "remoteObject b (e # cs) = remoteObject (case acceptedPush e of None \<Rightarrow> b | Some f \<Rightarrow> f) cs"

definition withActive :: "bool \<Rightarrow> FailoverService \<Rightarrow> FailoverService" where
  "withActive v f = f\<lparr>fs_Spec := (fs_Spec f)\<lparr>sp_FailoverActive := v\<rparr>\<rparr>"

lemma withActive_simps [simp]:
  "fs_Meta (withActive v f) = fs_Meta f" "fs_Status (withActive v f) = fs_Status f"
  "sp_FailoverActive (fs_Spec (withActive v f)) = v"
  by (simp_all add: withActive_def)

text \<open>All pushes store \<open>g\<close>, and one was accepted if \<open>acc\<close>.\<close>

definition pushes :: "FailoverService \<Rightarrow> bool \<Rightarrow> entry list \<Rightarrow> bool" where
  "pushes g acc cs \<longleftrightarrow> (\<forall>c f r. Write (RemoteUpdateFS c f) r \<in> set cs \<longrightarrow> f = g) \<and>
     (acc \<longrightarrow> (\<exists>c. Write (RemoteUpdateFS c g) None \<in> set cs))"

lemma pushes_remoteObject: "pushes g acc cs \<Longrightarrow> acc \<or> b = g \<Longrightarrow> remoteObject b cs = g"
proof (induction cs arbitrary: b acc)
  case (Cons e cs)
  show ?case
  proof (cases "acceptedPush e")
    case None
    then have "e \<noteq> Write (RemoteUpdateFS c g) None" for c by auto
    with Cons.prems have "pushes g acc cs" unfolding pushes_def by auto
    with None Cons.IH [of acc b] Cons.prems(2) show ?thesis by simp
  next
    case (Some f)
    then obtain c where "e = Write (RemoteUpdateFS c f) None" unfolding acceptedPush_iff by blast
    with Cons.prems(1) have "f = g" "pushes g False cs" unfolding pushes_def by (metis list.set_intros)+
    with Some Cons.IH [of False g] show ?thesis by simp
  qed
qed (simp add: pushes_def)

lemma pushes_append: "pushes g a cs \<Longrightarrow> pushes g acc ds \<Longrightarrow> pushes g acc (cs @ ds)"
  unfolding pushes_def set_append by blast

lemma pushes_quiet: "\<forall>e \<in> set cs. \<not> is_push e \<Longrightarrow> pushes g acc (cs @ ds) \<longleftrightarrow> pushes g acc ds"
  unfolding pushes_def set_append by (metis Un_iff is_push.simps(1))

lemma pushes_around: "pushes g acc cs \<Longrightarrow> pushes g acc ([Now s] @ cs @ [Now t, Metric m])"
  by (auto simp: pushes_def)

lemma pushState_pushes:
  assumes "\<And>h c k. o_remoteGetFS E h c k = Inr b"
  shows "tspec (pushState E c local) (\<lambda>r. pushes (withActive (sp_FailoverActive (fs_Spec local)) b) (r = None))"
  unfolding pushState_def call_defs
proof (rule tspec_OnError)
  show "tspec (call (\<lambda>h. o_remoteGetFS E h c (fs_Namespace local, fs_Name local)) (RemoteGetFS c (fs_Namespace local, fs_Name local)) \<bind>
      (\<lambda>r. case r of Inl e \<Rightarrow> ret (Some e)
        | Inr remote \<Rightarrow> call (\<lambda>h. o_write E h (RemoteUpdateFS c (remote\<lparr>fs_Spec := (fs_Spec remote)\<lparr>sp_FailoverActive :=
            sp_FailoverActive (fs_Spec local)\<rparr>\<rparr>))) (Write (RemoteUpdateFS c (remote\<lparr>fs_Spec := (fs_Spec remote)\<lparr>sp_FailoverActive :=
            sp_FailoverActive (fs_Spec local)\<rparr>\<rparr>)))))
      (\<lambda>r. pushes (withActive (sp_FailoverActive (fs_Spec local)) b) (r = None))"
    by (intro tspec_rules) (auto simp: pushes_def withActive_def assms)
qed (rule pushes_append)

text \<open>After a synchronisation that found a disagreement and did not lose it, the other cluster's object carries the local
  value and is otherwise unchanged.\<close>

lemma Sync_pushes:
  assumes "\<And>h c k. o_remoteGetFS E h c k = Inr b" "sp_FailoverActive (fs_Spec b) \<noteq> sp_FailoverActive (fs_Spec local)"
  shows "tspec (Sync E s local) (\<lambda>r. pushes (withActive (sp_FailoverActive (fs_Spec local)) b) (\<exists>x. r = Inr x \<and> \<not> sr_RemoteWins x))"
proof -
  let ?Q = "\<lambda>r. pushes (withActive (sp_FailoverActive (fs_Spec local)) b) (\<exists>x. r = Inr x \<and> \<not> sr_RemoteWins x)"
  have body: "tspec (syncBody E s local) ?Q"
    unfolding syncBody_def
  proof (rule tspec_bind [OF tspec_eff [OF GetClient_calls]], goal_cases)
    case (1 cl cs)
    then have cs: "pushes g acc (cs @ ds) \<longleftrightarrow> pushes g acc ds" for g acc ds by (intro pushes_quiet) auto
    show ?case
      unfolding Let_def now_def remoteGetFS_def cs
      by (intro tspec_case_sum tspec_bind_call tspec_if tspec_ret tspec_bind [OF pushState_pushes [OF assms(1)]] tspec_case_option)
        (use assms(2) in \<open>auto simp: assms(1) pushes_def\<close>)
  qed
  show ?thesis
    unfolding Sync_def now_def emit_def
    by (intro tspec_bind_call tspec_bind [OF body] tspec_ret) (use pushes_around in simp)
qed

section \<open>Properties\<close>


text \<open>The sample object before its failover was requested, in a cluster whose peer has been asked for it.\<close>

definition peerFS :: FailoverService where
  "peerFS = SetClusterIDAnnotation sampleFS ''b''"


end
