(* ===== verification/Commands.thy ===== *)
theory Commands
  imports Watchers Controller
begin

text \<open>
  The two processes, \<^verbatim>\<open>src/cmd/main.go\<close> (the manager of a cluster) and \<^verbatim>\<open>src/cmd/connection-killer/main.go\<close> (the
  agent of a node): their flags, options and environment variables, the order in which the manager is put together, and
  \<^verbatim>\<open>SetupWithManager\<close> of the reconciler.  What the frameworks answer to each step is a parameter.  Logging and the
  registration of the API types in the scheme are left out.
\<close>

section \<open>The flags of the manager\<close>

record ManagerFlags =
  mf_metricsAddr :: string
  mf_probeAddr :: string
  mf_enableLeaderElection :: bool
  mf_secureMetrics :: bool
  mf_webhookCertPath :: string
  mf_webhookCertName :: string
  mf_webhookCertKey :: string
  mf_metricsCertPath :: string
  mf_metricsCertName :: string
  mf_metricsCertKey :: string
  mf_enableHTTP2 :: bool

definition defaultFlags :: ManagerFlags where
  "defaultFlags = \<lparr>mf_metricsAddr = ''0'', mf_probeAddr = '':8081'', mf_enableLeaderElection = False, mf_secureMetrics = True,
     mf_webhookCertPath = '''', mf_webhookCertName = ''tls.crt'', mf_webhookCertKey = ''tls.key'',
     mf_metricsCertPath = '''', mf_metricsCertName = ''tls.crt'', mf_metricsCertKey = ''tls.key'', mf_enableHTTP2 = False\<rparr>"

definition stringFlags :: "(string \<times> (string \<Rightarrow> ManagerFlags \<Rightarrow> ManagerFlags)) list" where
  "stringFlags = [
     (''metrics-bind-address'', \<lambda>v f. f\<lparr>mf_metricsAddr := v\<rparr>),
     (''health-probe-bind-address'', \<lambda>v f. f\<lparr>mf_probeAddr := v\<rparr>),
     (''webhook-cert-path'', \<lambda>v f. f\<lparr>mf_webhookCertPath := v\<rparr>),
     (''webhook-cert-name'', \<lambda>v f. f\<lparr>mf_webhookCertName := v\<rparr>),
     (''webhook-cert-key'', \<lambda>v f. f\<lparr>mf_webhookCertKey := v\<rparr>),
     (''metrics-cert-path'', \<lambda>v f. f\<lparr>mf_metricsCertPath := v\<rparr>),
     (''metrics-cert-name'', \<lambda>v f. f\<lparr>mf_metricsCertName := v\<rparr>),
     (''metrics-cert-key'', \<lambda>v f. f\<lparr>mf_metricsCertKey := v\<rparr>)]"

definition boolFlags :: "(string \<times> (bool \<Rightarrow> ManagerFlags \<Rightarrow> ManagerFlags)) list" where
  "boolFlags = [
     (''leader-elect'', \<lambda>b f. f\<lparr>mf_enableLeaderElection := b\<rparr>),
     (''metrics-secure'', \<lambda>b f. f\<lparr>mf_secureMetrics := b\<rparr>),
     (''enable-http2'', \<lambda>b f. f\<lparr>mf_enableHTTP2 := b\<rparr>)]"

text \<open>\<^verbatim>\<open>flag.Parse\<close> of Go's standard library.  An argument is no flag, the end of the flags, ill-formed, or a flag with
  its name and the value behind an equals sign; other packages (zap, controller-runtime) bind flags of their own, whose
  kind and setter are a parameter.  Errors end the process with status 2, a request for help with 0.\<close>

datatype argument = Positional | Terminator | BadSyntax | Flag string "string option"

definition splitArgument :: "string \<Rightarrow> argument" where
  "splitArgument s =
     (if length s < 2 \<or> hd s \<noteq> CHR ''-'' then Positional
      else if s = ''--'' then Terminator
      else let name = (if s ! 1 = CHR ''-'' then drop 2 s else drop 1 s) in
        if name = '''' \<or> hd name = CHR ''-'' \<or> hd name = CHR ''='' then BadSyntax
        else let rest = dropWhile (\<lambda>c. c \<noteq> CHR ''='') (tl name) in
          Flag (hd name # takeWhile (\<lambda>c. c \<noteq> CHR ''='') (tl name)) (if rest = [] then None else Some (tl rest)))"

definition ParseBool :: "string \<Rightarrow> bool option" where
  "ParseBool s =
     (if s \<in> {''1'', ''t'', ''T'', ''TRUE'', ''true'', ''True''} then Some True
      else if s \<in> {''0'', ''f'', ''F'', ''FALSE'', ''false'', ''False''} then Some False else None)"

type_synonym other_flags = "string \<Rightarrow> (bool \<times> (string \<Rightarrow> bool)) option"

text \<open>Setting a flag to a value, the kinds of flags, and the loop over the arguments, whose index moves on by two
  when the value of a flag is the next argument.\<close>

definition setFlag :: "other_flags \<Rightarrow> string \<Rightarrow> string \<Rightarrow> ManagerFlags \<Rightarrow> int + ManagerFlags" where
  "setFlag other n v f =
     (case map_of boolFlags n of
        Some assign \<Rightarrow> (case ParseBool v of None \<Rightarrow> Inl 2 | Some b \<Rightarrow> Inr (assign b f))
      | None \<Rightarrow> (case map_of stringFlags n of
          Some assign \<Rightarrow> Inr (assign v f)
        | None \<Rightarrow> (case other n of
            None \<Rightarrow> Inl 2
          | Some (_, accepts) \<Rightarrow> if accepts v then Inr f else Inl 2)))"

definition isBoolFlag :: "other_flags \<Rightarrow> string \<Rightarrow> bool" where
  "isBoolFlag other n \<longleftrightarrow> map_of boolFlags n \<noteq> None \<or>
     (map_of stringFlags n = None \<and> (case other n of None \<Rightarrow> False | Some (b, _) \<Rightarrow> b))"

definition isFlag :: "other_flags \<Rightarrow> string \<Rightarrow> bool" where
  "isFlag other n \<longleftrightarrow> map_of boolFlags n \<noteq> None \<or> map_of stringFlags n \<noteq> None \<or> other n \<noteq> None"

fun parseFlags :: "other_flags \<Rightarrow> string list \<Rightarrow> ManagerFlags \<Rightarrow> int + ManagerFlags" where
  "parseFlags other [] f = Inr f"
| "parseFlags other (s # args) f =
     (case splitArgument s of
        Positional \<Rightarrow> Inr f
      | Terminator \<Rightarrow> Inr f
      | BadSyntax \<Rightarrow> Inl 2
      | Flag n v \<Rightarrow>
          if \<not> isFlag other n then Inl (if n = ''help'' \<or> n = ''h'' then 0 else 2)
          else (case (if v = None \<and> isBoolFlag other n then Some ''true'' else v) of
            Some x \<Rightarrow> (case setFlag other n x f of Inl c \<Rightarrow> Inl c | Inr f1 \<Rightarrow> parseFlags other args f1)
          | None \<Rightarrow> (case args of
              [] \<Rightarrow> Inl 2
            | x # args1 \<Rightarrow> (case setFlag other n x f of Inl c \<Rightarrow> Inl c | Inr f1 \<Rightarrow> parseFlags other args1 f1))))"

section \<open>The options of the manager\<close>

record TLSConfig =
  tls_NextProtos :: "string list"

definition disableHTTP2 :: "TLSConfig \<Rightarrow> TLSConfig" where
  "disableHTTP2 c = c\<lparr>tls_NextProtos := [''http/1.1'']\<rparr>"

record WebhookOptions =
  wo_TLSOpts :: "(TLSConfig \<Rightarrow> TLSConfig) list"
  wo_CertDir :: string
  wo_CertName :: string
  wo_KeyName :: string

datatype filter_provider = WithAuthenticationAndAuthorization

record MetricsOptions =
  mt_BindAddress :: string
  mt_SecureServing :: bool
  mt_TLSOpts :: "(TLSConfig \<Rightarrow> TLSConfig) list"
  mt_FilterProvider :: "filter_provider option"
  mt_CertDir :: string
  mt_CertName :: string
  mt_KeyName :: string

record ManagerOptions =
  mo_Metrics :: MetricsOptions
  mo_WebhookServer :: WebhookOptions
  mo_HealthProbeBindAddress :: string
  mo_LeaderElection :: bool
  mo_LeaderElectionID :: string

definition tlsOpts :: "ManagerFlags \<Rightarrow> (TLSConfig \<Rightarrow> TLSConfig) list" where
  "tlsOpts f = (if \<not> mf_enableHTTP2 f then [disableHTTP2] else [])"

definition webhookServerOptions :: "ManagerFlags \<Rightarrow> WebhookOptions" where
  "webhookServerOptions f =
     (let opts = \<lparr>wo_TLSOpts = tlsOpts f, wo_CertDir = '''', wo_CertName = '''', wo_KeyName = ''''\<rparr> in
      if mf_webhookCertPath f \<noteq> ''''
      then opts\<lparr>wo_CertDir := mf_webhookCertPath f, wo_CertName := mf_webhookCertName f, wo_KeyName := mf_webhookCertKey f\<rparr>
      else opts)"

definition metricsServerOptions :: "ManagerFlags \<Rightarrow> MetricsOptions" where
  "metricsServerOptions f =
     (let opts = \<lparr>mt_BindAddress = mf_metricsAddr f, mt_SecureServing = mf_secureMetrics f, mt_TLSOpts = tlsOpts f,
            mt_FilterProvider = None, mt_CertDir = '''', mt_CertName = '''', mt_KeyName = ''''\<rparr>;
          opts1 = (if mf_secureMetrics f then opts\<lparr>mt_FilterProvider := Some WithAuthenticationAndAuthorization\<rparr> else opts) in
      if mf_metricsCertPath f \<noteq> ''''
      then opts1\<lparr>mt_CertDir := mf_metricsCertPath f, mt_CertName := mf_metricsCertName f, mt_KeyName := mf_metricsCertKey f\<rparr>
      else opts1)"

definition managerOptions :: "ManagerFlags \<Rightarrow> ManagerOptions" where
  "managerOptions f = \<lparr>mo_Metrics = metricsServerOptions f, mo_WebhookServer = webhookServerOptions f,
     mo_HealthProbeBindAddress = mf_probeAddr f, mo_LeaderElection = mf_enableLeaderElection f,
     mo_LeaderElectionID = ''e40b61bb.zyno.io''\<rparr>"

section \<open>Starting the manager\<close>

text \<open>What the controller is told to watch: its own kind, the kinds it owns, and the watcher of the other cluster.\<close>

datatype watch_source = For string | Owns string | RawSource ClientProvider

definition watchSources :: "Reconciler \<Rightarrow> watch_source list" where
  "watchSources r = [For ''FailoverService'', Owns ''Service'', Owns ''EndpointSlice'', Owns ''Job'', Owns ''FailoverEvent''] @
     (case rec_RemoteWatcher r of None \<Rightarrow> [] | Some p \<Rightarrow> [RawSource p])"

record framework =
  fw_otherFlags :: other_flags
  fw_getConfig :: "go_error option"
  fw_newManager :: "ManagerOptions \<Rightarrow> go_error option"
  fw_complete :: "string \<Rightarrow> watch_source list \<Rightarrow> go_error option"
  fw_addHealthzCheck :: "string \<Rightarrow> go_error option"
  fw_addReadyzCheck :: "string \<Rightarrow> go_error option"
  fw_start :: "go_error option"

definition SetupWithManager :: "framework \<Rightarrow> Reconciler \<Rightarrow> go_error option" where
  "SetupWithManager X r = fw_complete X ''failoverservice'' (watchSources r)"

text \<open>The steps that were taken, and the exit status.  \<^verbatim>\<open>mgr.Start\<close> returns when the process is told to stop.\<close>

datatype boot_step =
    NewManager ManagerOptions
  | Setup Reconciler
  | AddHealthzCheck string
  | AddReadyzCheck string
  | StartManager

definition attempt :: "boot_step \<Rightarrow> go_error option \<Rightarrow> boot_step list \<times> int \<Rightarrow> boot_step list \<times> int" where
  "attempt s err rest = (case err of Some e \<Rightarrow> ([s], 1) | None \<Rightarrow> (s # fst rest, snd rest))"

definition managerMain :: "framework \<Rightarrow> (string \<Rightarrow> string) \<Rightarrow> string list \<Rightarrow> boot_step list \<times> int" where
  "managerMain X getenv args =
     (case parseFlags (fw_otherFlags X) args defaultFlags of
        Inl status \<Rightarrow> ([], status)
      | Inr f \<Rightarrow>
          if fw_getConfig X \<noteq> None then ([], 1)
          else attempt (NewManager (managerOptions f)) (fw_newManager X (managerOptions f))
            (case NewReconcilerFromEnv getenv of
               Inl e \<Rightarrow> ([], 1)
             | Inr r \<Rightarrow>
                 attempt (Setup r) (SetupWithManager X r)
                 (attempt (AddHealthzCheck ''healthz'') (fw_addHealthzCheck X ''healthz'')
                 (attempt (AddReadyzCheck ''readyz'') (fw_addReadyzCheck X ''readyz'')
                 (attempt StartManager (fw_start X) ([], 0))))))"

section \<open>The agent process\<close>

definition defaultControllerNamespace :: string where
  "defaultControllerNamespace = ''k8s-failover-manager-system''"

definition agentNodeName :: "(string \<Rightarrow> string) \<Rightarrow> go_error + string" where
  "agentNodeName getenv =
     (let nodeName = getenv ''NODE_NAME'' in
      if nodeName = '''' then Inl (Errorf ''NODE_NAME environment variable is required'') else Inr nodeName)"

definition controllerNamespace :: "(string \<Rightarrow> string) \<Rightarrow> string" where
  "controllerNamespace getenv =
     (let namespace = getenv ''CONTROLLER_NAMESPACE'' in
      if namespace = '''' then defaultControllerNamespace else namespace)"

record clients =
  cl_getConfig :: "go_error option"
  cl_newClient :: "go_error option"
  cl_newClientset :: "go_error option"

text \<open>The exit status; none as long as the agent runs.\<close>

definition agentMain :: "nat \<Rightarrow> env \<Rightarrow> killer \<Rightarrow> clients \<Rightarrow> (string \<Rightarrow> string) \<Rightarrow> int option io" where
  "agentMain fuel E kill C getenv =
     (case agentNodeName getenv of
        Inl e \<Rightarrow> ret (Some 1)
      | Inr nodeName \<Rightarrow>
          if cl_getConfig C \<noteq> None then ret (Some 1)
          else if cl_newClient C \<noteq> None then ret (Some 1)
          else if cl_newClientset C \<noteq> None then ret (Some 1)
          else do {
            r \<leftarrow> Watch fuel E kill \<lparr>ag_NodeName = nodeName, ag_Namespace = controllerNamespace getenv\<rparr> True (1 * second) [];
            case r of
              None \<Rightarrow> ret None
            | Some (_, err) \<Rightarrow> ret (Some (if err \<noteq> ctxErr then 1 else 0)) })"

section \<open>Lemmas\<close>

definition names_flag :: "string \<Rightarrow> string \<Rightarrow> bool" where
  "names_flag n s \<longleftrightarrow> (case splitArgument s of Flag m _ \<Rightarrow> m = n | _ \<Rightarrow> False)"

text \<open>A boolean flag keeps its value as long as no argument names it, whatever else is set.\<close>

definition secured :: "string \<Rightarrow> (ManagerFlags \<Rightarrow> bool) \<Rightarrow> bool" where
  "secured n get \<longleftrightarrow> n = ''enable-http2'' \<and> get = mf_enableHTTP2 \<or> n = ''metrics-secure'' \<and> get = mf_secureMetrics"

lemma boolFlags_keep: "secured n get \<Longrightarrow> (m, assign) \<in> set boolFlags \<Longrightarrow> m \<noteq> n \<Longrightarrow> get (assign b f) = get f"
  unfolding secured_def by (elim disjE conjE) (simp_all add: boolFlags_def, safe, simp_all)

lemma stringFlags_keep: "secured n get \<Longrightarrow> (m, assign) \<in> set stringFlags \<Longrightarrow> get (assign v f) = get f"
  unfolding secured_def by (elim disjE conjE) (simp_all add: stringFlags_def, safe, simp_all)

lemma setFlag_keeps:
  assumes "secured n get" "setFlag other m v f = Inr f1" "m \<noteq> n"
  shows "get f1 = get f"
proof (cases "map_of boolFlags m")
  case None
  show ?thesis
  proof (cases "map_of stringFlags m")
    case (Some assign)
    with None assms stringFlags_keep [OF assms(1) map_of_SomeD [OF Some]] show ?thesis by (auto simp: setFlag_def)
  qed (use None assms in \<open>auto simp: setFlag_def split: option.splits if_splits\<close>)
next
  case (Some assign)
  with assms boolFlags_keep [OF assms(1) map_of_SomeD [OF Some]] show ?thesis
    by (auto simp: setFlag_def split: option.splits)
qed

lemma parseFlags_keeps:
  assumes "secured n get"
  shows "parseFlags other args f = Inr f1 \<Longrightarrow> \<forall>s \<in> set args. \<not> names_flag n s \<Longrightarrow> get f1 = get f"
proof (induction other args f rule: parseFlags.induct)
  case (2 other s args f)
  note keeps = setFlag_keeps [OF assms]
  show ?case
  proof (cases "splitArgument s")
    case (Flag m v)
    with 2 have "m \<noteq> n" by (simp add: names_flag_def)
    note step = keeps [OF _ this]
    from 2 Flag show ?thesis
      by (auto split: if_splits option.splits sum.splits list.splits dest: step)
  qed (use 2 in simp_all)
qed simp

lemma NewReconcilerFromEnv_complete:
  assumes "NewReconcilerFromEnv getenv = Inr r"
  shows "rec_ClusterRole r \<in> {rolePrimary, roleFailover} \<and> rec_ClusterID r = getenv ''CLUSTER_ID'' \<and> rec_ClusterID r \<noteq> '''' \<and>
    (\<exists>p. rec_RemoteWatcher r = Some p \<and> cp_SecretName p \<noteq> '''' \<and> cp_SecretNamespace p \<noteq> '''') \<and>
    rec_ConnSignaler r = Some \<lparr>sg_Namespace = controllerNamespace getenv\<rparr>"
  using assms
  by (auto simp: NewReconcilerFromEnv_def newReconciler_def controllerNamespace_def defaultControllerNamespace_def Let_def split: if_splits)

section \<open>Properties\<close>


text \<open>C23: The servers of the manager are hardened by default: unless an argument names \<^verbatim>\<open>enable-http2\<close>, the TLS
  configuration of both the metrics and the webhook server offers HTTP/1.1 only, whatever it was before; unless one names
  \<^verbatim>\<open>metrics-secure\<close>, the metrics are served by TLS and only to authenticated and authorised clients.\<close>

theorem servers_hardened:
  assumes "NewManager opts \<in> set (fst (managerMain X getenv args))"
  shows "((\<forall>s \<in> set args. \<not> names_flag ''enable-http2'' s) \<longrightarrow>
      tls_NextProtos (fold (\<lambda>opt. opt) (mt_TLSOpts (mo_Metrics opts)) c) = [''http/1.1''] \<and>
      tls_NextProtos (fold (\<lambda>opt. opt) (wo_TLSOpts (mo_WebhookServer opts)) c) = [''http/1.1'']) \<and>
    ((\<forall>s \<in> set args. \<not> names_flag ''metrics-secure'' s) \<longrightarrow>
      mt_SecureServing (mo_Metrics opts) \<and> mt_FilterProvider (mo_Metrics opts) = Some WithAuthenticationAndAuthorization)"
proof -
  obtain f where f: "parseFlags (fw_otherFlags X) args defaultFlags = Inr f" and opts: "opts = managerOptions f"
    using assms by (auto simp: managerMain_def attempt_def split: sum.splits if_splits option.splits)
  note kept = parseFlags_keeps [OF _ f]
  note option_defs = opts managerOptions_def metricsServerOptions_def webhookServerOptions_def tlsOpts_def Let_def
  have "\<not> mf_enableHTTP2 f" if "\<forall>s \<in> set args. \<not> names_flag ''enable-http2'' s"
    using kept [of _ mf_enableHTTP2, OF _ that] by (simp add: secured_def defaultFlags_def)
  moreover have "mf_secureMetrics f" if "\<forall>s \<in> set args. \<not> names_flag ''metrics-secure'' s"
    using kept [of _ mf_secureMetrics, OF _ that] by (simp add: secured_def defaultFlags_def)
  ultimately show ?thesis by (simp add: option_defs disableHTTP2_def)
qed

section \<open>The agent on the ConfigMap of the controller\<close>

fun configMapOf :: "entry \<Rightarrow> nsname option" where
  "configMapOf (GetConfigMap k _) = Some k"
| "configMapOf (Session (WatchConfigMap k _)) = Some k"
| "configMapOf _ = None"

definition at_map :: "string \<Rightarrow> entry \<Rightarrow> bool" where
  "at_map ns e \<longleftrightarrow> (case configMapOf e of None \<Rightarrow> True | Some k \<Rightarrow> k = (ns, ConfigMapName))"

lemma signaler_at_map:
  "emits (at_map (sg_Namespace s)) (SignalKill E s ip tok ns f)" "emits (at_map (sg_Namespace s)) (CheckAcks E s tok nn ns f)"
  "emits (at_map (sg_Namespace s)) (CleanupSignals E s ns f)"
proof -
  have "emits (at_map (sg_Namespace s)) (discoverAgentNodes E s)"
    unfolding discoverAgentNodes_def call_defs Let_def by (intro eff_intros TrueI) (simp_all add: at_map_def)
  moreover have "emits (at_map (sg_Namespace s)) (signalAttempt E s nn ip tok ns f)" for nn
    unfolding signalAttempt_def call_defs by (intro eff_intros TrueI) (simp_all add: at_map_def)
  ultimately show "emits (at_map (sg_Namespace s)) (SignalKill E s ip tok ns f)"
    unfolding SignalKill_def by (intro eff_intros eff_OnError TrueI)
  show "emits (at_map (sg_Namespace s)) (CheckAcks E s tok nn ns f)"
    unfolding CheckAcks_def call_defs Let_def by (intro eff_intros TrueI) (simp_all add: at_map_def)
  show "emits (at_map (sg_Namespace s)) (CleanupSignals E s ns f)"
    unfolding CleanupSignals_def cleanupAttempt_def call_defs Let_def
    by (intro eff_OnError eff_intros TrueI) (simp_all add: at_map_def)
qed

lemma RunOnce_at_map:
  assumes "\<And>ip. emits (at_map (ag_Namespace a)) (kill ip)"
  shows "emits (at_map (ag_Namespace a)) (RunOnce E kill a l)"
proof -
  have ack: "emits (at_map (ag_Namespace a)) (writeAck E a key seq tok ns f killed errs)" for key seq tok ns f killed errs
    unfolding writeAck_def ackAttempt_def call_defs Let_def by (intro eff_OnError eff_intros TrueI) (simp_all add: at_map_def)
  have entry: "emits (at_map (ag_Namespace a)) (processEntry E kill a l e)" for l e
    unfolding processEntry_def Let_def
    by (intro eff_case_option eff_if eff_case_prod eff_ret eff_bind [OF assms] eff_bind [OF ack] TrueI)
  have entries: "emits (at_map (ag_Namespace a)) (processEntries E kill a l es)" for l es
  proof (induction es arbitrary: l)
    case (Cons e es)
    then show ?case by (auto intro: eff_bind [OF entry])
  qed (simp add: eff_ret)
  show ?thesis
    unfolding RunOnce_def call_defs
    by (intro eff_bind [OF emits_call] eff_bind [OF entries] eff_case_sum eff_if eff_ret TrueI) (simp add: at_map_def)
qed

text \<open>The calls of the watch loop, and the only error it returns.\<close>

definition until_cancelled :: "(seqs \<times> go_error) option \<Rightarrow> bool" where
  "until_cancelled r \<longleftrightarrow> (case r of None \<Rightarrow> True | Some (_, e) \<Rightarrow> e = ctxErr)"

lemma eff_case_channel:
  "(c = ChannelClosed \<Longrightarrow> eff P m Q) \<Longrightarrow> (\<And>t obj. c = Event t obj \<Longrightarrow> eff P (f t obj) Q) \<Longrightarrow>
   eff P (case c of ChannelClosed \<Rightarrow> m | Event t obj \<Rightarrow> f t obj) Q"
  by (cases c) simp_all

lemma Watch_until_cancelled:
  assumes "\<And>ip. emits (at_map (ag_Namespace a)) (kill ip)"
  shows "eff (at_map (ag_Namespace a)) (Watch fuel E kill a hasClientset interval l) until_cancelled"
proof -
  let ?P = "at_map (ag_Namespace a)"
  have run: "emits ?P (runLogged E kill a l)" for l
    unfolding runLogged_def by (intro eff_bind [OF RunOnce_at_map] assms eff_ret TrueI)
  have events: "emits ?P (watchEvents n E kill a l)" for n l
  proof (induction n arbitrary: l)
    case (Suc n)
    show ?case
      unfolding watchEvents.simps session_defs
      by (intro eff_bind [OF emits_call] eff_case_option eff_case_channel eff_if eff_ret eff_bind [OF run] Suc TrueI) (simp add: at_map_def)
  qed (simp add: eff_ret)
  have once: "emits ?P (watchOnce n E kill a l)" for n l
    unfolding watchOnce_def session_defs
    by (intro eff_bind [OF run] eff_bind [OF events] eff_intros TrueI) (simp_all add: at_map_def)
  have poll: "eff ?P (pollWatch n E kill a interval l) until_cancelled" for n l
  proof (induction n arbitrary: l)
    case (Suc n)
    show ?case
      unfolding pollWatch.simps session_defs
      by (intro eff_bind [OF emits_call] eff_if eff_ret eff_bind [OF run] Suc) (simp_all add: at_map_def until_cancelled_def)
  qed (simp add: eff_ret until_cancelled_def)
  have reconnect: "eff ?P (reconnect n E kill a interval l) until_cancelled" for n l
  proof (induction n arbitrary: l)
    case (Suc n)
    show ?case
      unfolding reconnect.simps session_defs
      by (intro eff_bind [OF once] eff_case_option eff_case_prod eff_bind [OF emits_call] eff_if eff_ret Suc)
        (simp_all add: at_map_def until_cancelled_def)
  qed (simp add: eff_ret until_cancelled_def)
  have init: "emits ?P (initFromConfigMap E a l)"
    unfolding initFromConfigMap_def call_defs by (intro eff_intros TrueI) (simp_all add: at_map_def)
  show ?thesis
    unfolding Watch_def by (intro eff_bind [OF init] eff_if poll reconnect)
qed

definition agent_ready :: "clients \<Rightarrow> (string \<Rightarrow> string) \<Rightarrow> bool" where
  "agent_ready C getenv \<longleftrightarrow> getenv ''NODE_NAME'' \<noteq> '''' \<and> cl_getConfig C = None \<and> cl_newClient C = None \<and> cl_newClientset C = None"

lemma agentKiller_at_map: "emits (at_map ns) (agentKiller E n ip)"
  unfolding agentKiller_def
  by (intro eff_bind [OF emits_weaken [OF Kill_emits]] eff_ret TrueI) (auto simp: at_map_def)

lemma agentMain_ready:
  assumes "agent_ready C getenv"
  shows "eff (at_map (controllerNamespace getenv)) (agentMain fuel E (agentKiller E n) C getenv) (\<lambda>s. s \<in> {None, Some 0})"
proof -
  note watch = Watch_until_cancelled [of "\<lparr>ag_NodeName = x, ag_Namespace = controllerNamespace getenv\<rparr>" for x, simplified,
      OF agentKiller_at_map]
  show ?thesis
    using assms
    by (auto simp: agentMain_def agentNodeName_def agent_ready_def Let_def until_cancelled_def
        intro!: eff_bind [OF watch] eff_ret eff_case_option eff_case_prod)
qed

lemma at_mapD: "at_map ns e \<Longrightarrow> configMapOf e = Some k \<Longrightarrow> k = (ns, ConfigMapName)"
  by (simp add: at_map_def)

text \<open>C21: Both sides of the connection-kill protocol meet.  When controller and agent are started with the same
  \<^verbatim>\<open>CONTROLLER_NAMESPACE\<close>, set or not, every ConfigMap that the agent process reads or watches and every one that the
  controller's signaler reads is the same.  The agent process runs until it is told to stop: it ends only with status 0,
  whatever errors its calls have, unless the node name or a client is missing, when it ends with 1 before any call.\<close>

theorem agent_meets_controller:
  assumes "NewReconcilerFromEnv env = Inr r" "rec_ConnSignaler r = Some sg"
    and "getenv ''CONTROLLER_NAMESPACE'' = env ''CONTROLLER_NAMESPACE''"
    and "m = agentMain fuel E (agentKiller E n) C getenv"
  shows "(if agent_ready C getenv then result m w \<in> {None, Some 0} else result m w = Some 1 \<and> calls m w = []) \<and>
    (\<forall>e \<in> set (calls m w) \<union> set (calls (SignalKill F sg ip tok ns f) v) \<union> set (calls (CheckAcks F sg tok nn ns f) v) \<union>
        set (calls (CleanupSignals F sg ns f) v). \<forall>k. configMapOf e = Some k \<longrightarrow> k = (sg_Namespace sg, ConfigMapName))"
proof -
  have sg: "sg_Namespace sg = controllerNamespace getenv"
    using NewReconcilerFromEnv_complete [OF assms(1)] assms(2,3) by (auto simp: controllerNamespace_def Let_def)
  have early: "result m w = Some 1 \<and> calls m w = []" if "\<not> agent_ready C getenv"
    using that by (auto simp: assms(4) agentMain_def agentNodeName_def agent_ready_def Let_def run_ret calls_def split: if_splits)
  have status: "result m w \<in> {None, Some 0}" if "agent_ready C getenv"
    unfolding assms(4) by (rule eff_result [OF agentMain_ready [OF that]])
  have "at_map (sg_Namespace sg) e" if "e \<in> set (calls m w)" for e
    using that early eff_calls [OF agentMain_ready] by (cases "agent_ready C getenv") (auto simp: assms(4) sg)
  moreover have "at_map (sg_Namespace sg) e" if "e \<in> set (calls (SignalKill F sg ip tok ns f) v) \<union>
      set (calls (CheckAcks F sg tok nn ns f) v) \<union> set (calls (CleanupSignals F sg ns f) v)" for e
    using that by (elim UnE) (auto intro: signaler_at_map [THEN eff_calls])
  ultimately show ?thesis
    by (intro conjI ballI allI impI) (use early status in simp, blast intro: at_mapD)
qed

section \<open>Witnesses\<close>

definition sampleFramework :: framework where
  "sampleFramework = \<lparr>fw_otherFlags = (\<lambda>_. None), fw_getConfig = None, fw_newManager = (\<lambda>_. None), fw_complete = (\<lambda>_ _. None),
     fw_addHealthzCheck = (\<lambda>_. None), fw_addReadyzCheck = (\<lambda>_. None), fw_start = None\<rparr>"

definition sampleVars :: "string \<Rightarrow> string" where
  "sampleVars v = (if v = ''CONTROLLER_NAMESPACE'' then '''' else if v = ''CLUSTER_ROLE'' then ''failover'' else ''x'')"

lemma sampleVars_reconciler: "\<exists>r. NewReconcilerFromEnv sampleVars = Inr r"
  by (simp add: NewReconcilerFromEnv_def sampleVars_def rolePrimary_def roleFailover_def Let_def)

lemma sampleArgs_parsed:
  "\<exists>f. parseFlags (fw_otherFlags sampleFramework) [''--leader-elect'', ''-metrics-bind-address'', '':8443''] defaultFlags = Inr f"
  by (simp add: splitArgument_def isFlag_def isBoolFlag_def setFlag_def boolFlags_def stringFlags_def ParseBool_def Let_def)

lemma sample_started:
  "StartManager \<in> set (fst (managerMain sampleFramework sampleVars [''--leader-elect'', ''-metrics-bind-address'', '':8443'']))"
  using sampleVars_reconciler sampleArgs_parsed
  by (auto simp: managerMain_def attempt_def SetupWithManager_def sampleFramework_def)


theorem servers_hardened_witness:
  "\<exists>opts. NewManager opts \<in> set (fst (managerMain sampleFramework sampleVars [''--leader-elect'', ''-metrics-bind-address'', '':8443''])) \<and>
     tls_NextProtos (fold (\<lambda>opt. opt) (mt_TLSOpts (mo_Metrics opts)) \<lparr>tls_NextProtos = [''h2'']\<rparr>) = [''http/1.1''] \<and>
     mt_SecureServing (mo_Metrics opts)"
proof -
  let ?args = "[''--leader-elect'', ''-metrics-bind-address'', '':8443'']"
  obtain opts where opts: "NewManager opts \<in> set (fst (managerMain sampleFramework sampleVars ?args))"
    using sampleVars_reconciler sampleArgs_parsed
    by (auto simp: managerMain_def attempt_def SetupWithManager_def sampleFramework_def)
  have "\<forall>s \<in> set ?args. \<not> names_flag ''enable-http2'' s" "\<forall>s \<in> set ?args. \<not> names_flag ''metrics-secure'' s"
    by (simp_all add: names_flag_def splitArgument_def Let_def)
  with servers_hardened [OF opts] opts show ?thesis by blast
qed

theorem agent_meets_controller_witness:
  "\<exists>r sg. NewReconcilerFromEnv sampleVars = Inr r \<and> rec_ConnSignaler r = Some sg \<and>
     result (agentMain 3 quietEnv (agentKiller quietEnv 1) \<lparr>cl_getConfig = None, cl_newClient = None, cl_newClientset = None\<rparr> sampleVars)
       world0 \<in> {None, Some 0}"
proof -
  obtain r where r: "NewReconcilerFromEnv sampleVars = Inr r" using sampleVars_reconciler by blast
  then obtain sg where sg: "rec_ConnSignaler r = Some sg" using NewReconcilerFromEnv_complete by blast
  have "agent_ready \<lparr>cl_getConfig = None, cl_newClient = None, cl_newClientset = None\<rparr> sampleVars"
    by (simp add: agent_ready_def sampleVars_def)
  with agent_meets_controller [where getenv = sampleVars and w = world0 and E = quietEnv and n = 1 and fuel = 3
      and C = "\<lparr>cl_getConfig = None, cl_newClient = None, cl_newClientset = None\<rparr>", OF r sg refl refl] r sg
  show ?thesis by auto
qed

end
