(* ===== verification/Metrics.thy ===== *)
theory Metrics
  imports World
begin

text \<open>
  \<^verbatim>\<open>src/internal/metrics/metrics.go\<close>: the collectors the package declares and their registration when the process starts.
  What the other components count and observe are entries \<open>Metric\<close> of the history (theory \<open>World\<close>); here each of them is
  related to its collector.  Both ways to misuse Prometheus panic at run time and not when compiling: a name
  that is registered twice, and a number of label values other than that of the labels declared.
\<close>

section \<open>The collectors\<close>

record collector =
  col_Name :: string
  col_Labels :: "string list"

definition collectors :: "collector list" where
  "collectors = [
     \<lparr>col_Name = ''failover_transitions_total'', col_Labels = [''name'', ''namespace'', ''direction'']\<rparr>,
     \<lparr>col_Name = ''failover_reconcile_errors_total'', col_Labels = [''name'', ''namespace'', ''phase'']\<rparr>,
     \<lparr>col_Name = ''failover_remote_sync_duration_seconds'', col_Labels = []\<rparr>,
     \<lparr>col_Name = ''failover_connection_kill_phases_total'', col_Labels = []\<rparr>,
     \<lparr>col_Name = ''failover_active'', col_Labels = [''name'', ''namespace'']\<rparr>,
     \<lparr>col_Name = ''failover_action_execution_duration_seconds'', col_Labels = [''name'', ''namespace'', ''action'', ''type'']\<rparr>,
     \<lparr>col_Name = ''failover_action_executions_total'', col_Labels = [''name'', ''namespace'', ''action'', ''type'', ''result'']\<rparr>,
     \<lparr>col_Name = ''failover_transition_duration_seconds'', col_Labels = [''name'', ''namespace'', ''direction'']\<rparr>]"

text \<open>The collector an entry goes to, by its position, and the label values it is given.\<close>

fun collectorOf :: "metric \<Rightarrow> collector \<times> string list" where
  "collectorOf (FailoverTransitionsTotal a b c) = (collectors ! 0, [a, b, c])"
| "collectorOf (ReconcileErrorsTotal a b c) = (collectors ! 1, [a, b, c])"
| "collectorOf (RemoteSyncDuration d) = (collectors ! 2, [])"
| "collectorOf ConnectionsKilledTotal = (collectors ! 3, [])"
| "collectorOf (FailoverActiveGauge a b v) = (collectors ! 4, [a, b])"
| "collectorOf (ActionExecutionDuration a b c d v) = (collectors ! 5, [a, b, c, d])"
| "collectorOf (ActionExecutionsTotal a b c d e) = (collectors ! 6, [a, b, c, d, e])"
| "collectorOf (TransitionDuration a b c v) = (collectors ! 7, [a, b, c])"

section \<open>Registration\<close>

text \<open>\<^verbatim>\<open>Registry.MustRegister\<close>: the registry is Prometheus' own, so registering one collector is a parameter; an error of it is
  a panic.\<close>

fun MustRegister :: "('r \<Rightarrow> collector \<Rightarrow> 'r option) \<Rightarrow> collector list \<Rightarrow> 'r \<Rightarrow> 'r option" where
  "MustRegister register [] reg = Some reg"
| "MustRegister register (c # cs) reg = do { reg1 \<leftarrow> register reg c; MustRegister register cs reg1 }"

definition initMetrics :: "('r \<Rightarrow> collector \<Rightarrow> 'r option) \<Rightarrow> 'r \<Rightarrow> 'r option" where
  "initMetrics register reg = MustRegister register collectors reg"

text \<open>What Prometheus documents: a collector is accepted if no registered one has its name, and is registered then.\<close>

definition registers :: "('r \<Rightarrow> collector \<Rightarrow> 'r option) \<Rightarrow> ('r \<Rightarrow> string set) \<Rightarrow> bool" where
  "registers register names \<longleftrightarrow> (\<forall>reg c. col_Name c \<notin> names reg \<longrightarrow>
     (\<exists>reg1. register reg c = Some reg1 \<and> names reg1 = insert (col_Name c) (names reg)))"

lemma MustRegister_distinct:
  assumes "registers register names"
  shows "distinct (map col_Name cs) \<Longrightarrow> col_Name ` set cs \<inter> names reg = {} \<Longrightarrow>
    \<exists>reg1. MustRegister register cs reg = Some reg1 \<and> names reg1 = names reg \<union> col_Name ` set cs"
proof (induction cs arbitrary: reg)
  case (Cons c cs)
  then have "col_Name c \<notin> names reg" by simp
  with assms obtain reg1 where reg1: "register reg c = Some reg1" "names reg1 = insert (col_Name c) (names reg)"
    unfolding registers_def by blast
  with Cons.prems have "col_Name ` set cs \<inter> names reg1 = {}" by auto
  with Cons.IH [of reg1] Cons.prems(1) reg1 show ?case by auto
qed simp

text \<open>The package's collectors have names of their own, so registering them with a registry that has none of the names
  does not panic.\<close>

theorem metrics_register:
  assumes "registers register names" "col_Name ` set collectors \<inter> names reg = {}"
  shows "\<exists>reg1. initMetrics register reg = Some reg1 \<and> names reg1 = names reg \<union> col_Name ` set collectors"
  unfolding initMetrics_def by (rule MustRegister_distinct [OF assms(1) _ assms(2)]) (simp add: collectors_def)

text \<open>Everything the program counts or observes goes to a registered collector, with as many label values as it has
  labels.\<close>

theorem metrics_labelled: "fst (collectorOf m) \<in> set collectors \<and> length (snd (collectorOf m)) = length (col_Labels (fst (collectorOf m)))"
proof -
  have "n < length collectors \<Longrightarrow> collectors ! n \<in> set collectors" for n by simp
  then show ?thesis by (cases m) (simp_all add: collectors_def)
qed

end
