(* ===== verification/Memory.thy ===== *)
theory Memory
  imports Api
begin

text \<open>
  A memory in which aliasing can be stated.  The other theories pass structs as values; Go passes pointers, and two
  structs may share what their pointers, slices and maps refer to.  Here a pointer is an address, \<open>new\<close> and \<open>make\<close>
  allocate, and \<open>observe\<close> reads what a value of a declared type stands for together with the addresses it reaches.
  \<open>copier\<close> is the contract of a deep copy, with one rule for each form of statement the generated code has.
\<close>

section \<open>Values, types and the store\<close>

type_synonym addr = nat

text \<open>An allocation is an array of variables (a single one for \<^verbatim>\<open>new\<close>) or a map with string keys and values.  A pointer
  names a variable by its allocation and index, a slice is a part of an array.\<close>

type_synonym ptr = "(addr \<times> nat) option"

datatype val =
    VBool bool | VInt int | VString string
  | VPtr ptr
  | VSlice "(addr \<times> nat \<times> nat) option"
  | VMap "addr option"
  | VStruct "(string \<times> val) list"

datatype obj = Vars "val list" | Entries "(string, string) gomap"

type_synonym store = "obj list"

datatype ty = TBool | TInt | TString | TPtr ty | TSlice ty | TMap | TStruct "(string \<times> ty) list"

primrec zero :: "ty \<Rightarrow> val" where
  "zero TBool = VBool False"
| "zero TInt = VInt 0"
| "zero TString = VString ''''"
| "zero (TPtr t) = VPtr None"
| "zero (TSlice t) = VSlice None"
| "zero TMap = VMap None"
| "zero (TStruct fs) = VStruct (map (map_prod id zero) fs)"

text \<open>The operations; \<open>None\<close> is a panic.\<close>

definition vars :: "addr \<Rightarrow> store \<Rightarrow> val list option" where
  "vars a h = (if a < length h then case h ! a of Vars vs \<Rightarrow> Some vs | _ \<Rightarrow> None else None)"

definition entries :: "addr \<Rightarrow> store \<Rightarrow> (string, string) gomap option" where
  "entries a h = (if a < length h then case h ! a of Entries m \<Rightarrow> Some m | _ \<Rightarrow> None else None)"

definition load :: "addr \<times> nat \<Rightarrow> store \<Rightarrow> val option" where
  "load p h = do { vs \<leftarrow> vars (fst p) h; if snd p < length vs then Some (vs ! snd p) else None }"

definition assign :: "addr \<times> nat \<Rightarrow> val \<Rightarrow> store \<Rightarrow> store option" where
  "assign p v h = do { vs \<leftarrow> vars (fst p) h; if snd p < length vs then Some (h[fst p := Vars (vs[snd p := v])]) else None }"

definition slice :: "addr \<times> nat \<times> nat \<Rightarrow> store \<Rightarrow> val list option" where
  "slice s h = (case s of (a, i, n) \<Rightarrow>
     do { vs \<leftarrow> vars a h; if i + n \<le> length vs then Some (take n (drop i vs)) else None })"

definition alloc :: "obj \<Rightarrow> store \<Rightarrow> addr \<times> store" where
  "alloc ob h = (length h, h @ [ob])"

fun field :: "string \<Rightarrow> val \<Rightarrow> val option" where
  "field f (VStruct vs) = map_of vs f"
| "field f _ = None"

fun setField :: "string \<Rightarrow> val \<Rightarrow> val \<Rightarrow> val option" where
  "setField f y (VStruct vs) = (if f \<in> fst ` set vs then Some (VStruct (map (\<lambda>(k, x). (k, if k = f then y else x)) vs)) else None)"
| "setField f y _ = None"

fun isNil :: "val \<Rightarrow> bool" where
  "isNil (VPtr p) = (p = None)"
| "isNil (VSlice s) = (s = None)"
| "isNil (VMap m) = (m = None)"
| "isNil _ = False"

section \<open>What a value stands for\<close>

text \<open>The value with all references followed.  A nil slice or map differs from an empty one.\<close>

datatype datum =
    DBool bool | DInt int | DString string
  | DNil
  | DRef datum
  | DList "datum list"
  | DMap "(string, string) gomap"
  | DStruct "(string \<times> datum) list"

fun collect :: "('a \<times> 'b list) option list \<Rightarrow> ('a list \<times> 'b list) option" where
  "collect [] = Some ([], [])"
| "collect (x # xs) = do { (d, A) \<leftarrow> x; (ds, B) \<leftarrow> collect xs; Some (d # ds, A @ B) }"

text \<open>\<open>observe h T v\<close> is the reading of \<open>v\<close> as a value of type \<open>T\<close>, with the addresses it follows, or \<open>None\<close> if \<open>v\<close> is
  not of this type in \<open>h\<close>.\<close>

fun observe :: "store \<Rightarrow> ty \<Rightarrow> val \<Rightarrow> (datum \<times> addr list) option"
  and observe_fields :: "store \<Rightarrow> (string \<times> ty) list \<Rightarrow> (string \<times> val) list \<Rightarrow> ((string \<times> datum) list \<times> addr list) option" where
  "observe h TBool v = (case v of VBool b \<Rightarrow> Some (DBool b, []) | _ \<Rightarrow> None)"
| "observe h TInt v = (case v of VInt i \<Rightarrow> Some (DInt i, []) | _ \<Rightarrow> None)"
| "observe h TString v = (case v of VString s \<Rightarrow> Some (DString s, []) | _ \<Rightarrow> None)"
| "observe h (TPtr t) v = (case v of
     VPtr None \<Rightarrow> Some (DNil, [])
   | VPtr (Some p) \<Rightarrow> do { x \<leftarrow> load p h; (d, A) \<leftarrow> observe h t x; Some (DRef d, fst p # A) }
   | _ \<Rightarrow> None)"
| "observe h (TSlice t) v = (case v of
     VSlice None \<Rightarrow> Some (DNil, [])
   | VSlice (Some s) \<Rightarrow> do { xs \<leftarrow> slice s h; (ds, A) \<leftarrow> collect (map (observe h t) xs); Some (DList ds, fst s # A) }
   | _ \<Rightarrow> None)"
| "observe h TMap v = (case v of
     VMap None \<Rightarrow> Some (DNil, [])
   | VMap (Some a) \<Rightarrow> do { m \<leftarrow> entries a h; if distinct (map fst m) then Some (DMap m, [a]) else None }
   | _ \<Rightarrow> None)"
| "observe h (TStruct fs) v = (case v of
     VStruct vs \<Rightarrow> do { (ds, A) \<leftarrow> observe_fields h fs vs; Some (DStruct ds, A) }
   | _ \<Rightarrow> None)"
| "observe_fields h [] vs = (if vs = [] then Some ([], []) else None)"
| "observe_fields h ((n, t) # fs) vs = (case vs of
     [] \<Rightarrow> None
   | (m, x) # ws \<Rightarrow> if m = n then do { (d, A) \<leftarrow> observe h t x; (ds, B) \<leftarrow> observe_fields h fs ws; Some ((n, d) # ds, A @ B) }
       else None)"

text \<open>The same as a predicate, with a bound on the addresses.\<close>

definition reads :: "store \<Rightarrow> ty \<Rightarrow> val \<Rightarrow> datum \<Rightarrow> addr set \<Rightarrow> bool" where
  "reads h t v d S \<longleftrightarrow> (\<exists>A. observe h t v = Some (d, A) \<and> set A \<subseteq> S)"


lemma collect_in: "collect (map f xs) = Some (es, B) \<Longrightarrow> a \<in> set B \<Longrightarrow> \<exists>x \<in> set xs. \<exists>e C. f x = Some (e, C) \<and> a \<in> set C"
  by (induction xs arbitrary: es B) (fastforce split: Option.bind_splits)+

lemma collect_all:
  "(\<exists>B. collect (map f xs) = Some (ds, B) \<and> set B \<subseteq> S) \<longleftrightarrow> list_all2 (\<lambda>x d. \<exists>A. f x = Some (d, A) \<and> set A \<subseteq> S) xs ds"
proof (induction xs arbitrary: ds)
  case (Cons x xs)
  show ?case
  proof (cases ds)
    case (Cons d es)
    show ?thesis using Cons.IH [of es] by (auto simp: Cons bind_eq_Some_conv)
  qed (auto split: Option.bind_splits)
qed auto

lemma observe_frame:
  "observe h t v = Some (d, A) \<Longrightarrow> \<forall>a \<in> set A. a < length g \<and> g ! a = h ! a \<Longrightarrow> observe g t v = Some (d, A)"
  "observe_fields h fs vs = Some (ds, A) \<Longrightarrow> \<forall>a \<in> set A. a < length g \<and> g ! a = h ! a \<Longrightarrow> observe_fields g fs vs = Some (ds, A)"
proof (induction h t v and h fs vs arbitrary: d A and ds A rule: observe_observe_fields.induct)
  case (5 h t v)
  have "collect (map (observe h t) xs) = Some (es, B) \<Longrightarrow> \<forall>a \<in> set B. a < length g \<and> g ! a = h ! a \<Longrightarrow>
      (\<And>x e C. x \<in> set xs \<Longrightarrow> observe h t x = Some (e, C) \<Longrightarrow> \<forall>a \<in> set C. a < length g \<and> g ! a = h ! a \<Longrightarrow> observe g t x = Some (e, C)) \<Longrightarrow>
      collect (map (observe g t) xs) = Some (es, B)" for xs es B
    by (induction xs arbitrary: es B) (fastforce split: Option.bind_splits)+
  with 5 show ?case
    by (auto simp: slice_def vars_def split: val.splits option.splits Option.bind_splits if_splits obj.splits)
next
  case (9 h n t fs vs)
  then show ?case by (fastforce split: list.splits if_splits Option.bind_splits)
qed (fastforce simp: load_def vars_def entries_def split: val.splits option.splits Option.bind_splits if_splits obj.splits)+

lemma observe_bound:
  "observe h t v = Some (d, A) \<Longrightarrow> a \<in> set A \<Longrightarrow> a < length h"
  "observe_fields h fs vs = Some (ds, A) \<Longrightarrow> a \<in> set A \<Longrightarrow> a < length h"
proof (induction h t v and h fs vs arbitrary: d A and ds A rule: observe_observe_fields.induct)
  case (5 h t v)
  then obtain s xs es B where v: "v = VSlice (Some s)" "slice s h = Some xs" "collect (map (observe h t) xs) = Some (es, B)"
    "A = fst s # B"
    by (auto split: val.splits option.splits Option.bind_splits)
  show ?case
  proof (cases "a = fst s")
    case True
    with v(2) show ?thesis by (auto simp: slice_def vars_def split: prod.splits if_splits)
  next
    case False
    with v(4) "5.prems" have "a \<in> set B" by simp
    with collect_in [OF v(3)] "5.IH" [OF v(1) refl v(2)] show ?thesis by blast
  qed
next
  case (9 h n t fs vs)
  then show ?case by (fastforce split: list.splits if_splits Option.bind_splits)
qed (fastforce simp: load_def vars_def entries_def split: val.splits option.splits Option.bind_splits if_splits obj.splits)+

lemma reads_frame:
  assumes "reads h t v d S" "\<And>a. a \<in> S \<Longrightarrow> a < length h \<Longrightarrow> a < length g \<and> g ! a = h ! a"
  shows "reads g t v d S"
proof -
  obtain A where A: "observe h t v = Some (d, A)" "set A \<subseteq> S" using assms(1) by (auto simp: reads_def)
  then have "observe g t v = Some (d, A)" using assms(2) observe_bound(1) by (intro observe_frame(1) [OF A(1)]) blast
  with A(2) show ?thesis by (auto simp: reads_def)
qed

lemma reads_mono: "reads h t v d S \<Longrightarrow> S \<subseteq> R \<Longrightarrow> reads h t v d R"
  unfolding reads_def by blast

lemma reads_append: "reads h t v d S \<Longrightarrow> reads (h @ e) t v d S"
  by (erule reads_frame) (simp add: nth_append)

lemma reads_past: "reads (h @ ob # e) t v d {Suc (length h)..} \<Longrightarrow> reads (h @ ob' # e) t v d {Suc (length h)..}"
  by (erule reads_frame) (simp add: nth_append nth_Cons')

lemma reads_scalar [simp]:
  "reads h TBool v d S \<longleftrightarrow> (\<exists>b. v = VBool b \<and> d = DBool b)"
  "reads h TInt v d S \<longleftrightarrow> (\<exists>i. v = VInt i \<and> d = DInt i)"
  "reads h TString v d S \<longleftrightarrow> (\<exists>s. v = VString s \<and> d = DString s)"
  by (auto simp: reads_def split: val.splits)

lemma reads_nil [simp]:
  "reads h (TPtr t) (VPtr None) d S \<longleftrightarrow> d = DNil"
  "reads h (TSlice t) (VSlice None) d S \<longleftrightarrow> d = DNil"
  "reads h TMap (VMap None) d S \<longleftrightarrow> d = DNil"
  by (auto simp: reads_def)

lemma reads_ptr [simp]:
  "reads h (TPtr t) (VPtr (Some p)) d S \<longleftrightarrow> (\<exists>x e. load p h = Some x \<and> fst p \<in> S \<and> d = DRef e \<and> reads h t x e S)"
  by (auto simp: reads_def bind_eq_Some_conv)

lemma reads_slice [simp]:
  "reads h (TSlice t) (VSlice (Some s)) d S \<longleftrightarrow>
     (\<exists>xs ds. slice s h = Some xs \<and> fst s \<in> S \<and> d = DList ds \<and> list_all2 (\<lambda>x d. reads h t x d S) xs ds)"
  unfolding reads_def collect_all [symmetric] by (auto simp: bind_eq_Some_conv)

lemma reads_map [simp]:
  "reads h TMap (VMap (Some a)) d S \<longleftrightarrow> (\<exists>m. entries a h = Some m \<and> a \<in> S \<and> d = DMap m \<and> distinct (map fst m))"
  by (auto simp: reads_def bind_eq_Some_conv)

lemma reads_fields:
  "distinct (map fst fs) \<Longrightarrow>
   (\<exists>A. observe_fields h fs vs = Some (ds, A) \<and> set A \<subseteq> S) \<longleftrightarrow> map fst vs = map fst fs \<and> map fst ds = map fst fs \<and>
     (\<forall>(n, t) \<in> set fs. reads h t (the (map_of vs n)) (the (map_of ds n)) S)"
proof (induction fs arbitrary: vs ds)
  case (Cons f fs)
  obtain n t where f: "f = (n, t)" by fastforce
  show ?case
  proof (cases "\<exists>x ws d es. vs = (n, x) # ws \<and> ds = (n, d) # es")
    case True
    then obtain x ws d es where eqs: "vs = (n, x) # ws" "ds = (n, d) # es" by blast
    have "m \<noteq> n" if "(m, u) \<in> set fs" for m u using Cons.prems that by (force simp: f)
    then have other: "(\<forall>(m, u) \<in> set fs. reads h u (the (map_of vs m)) (the (map_of ds m)) S) \<longleftrightarrow>
        (\<forall>(m, u) \<in> set fs. reads h u (the (map_of ws m)) (the (map_of es m)) S)"
      by (intro ball_cong) (auto simp: eqs)
    show ?thesis
      using Cons.IH [of ws es] Cons.prems other by (auto simp: f eqs reads_def bind_eq_Some_conv)
  next
    case False
    then show ?thesis by (auto simp: f Cons_eq_map_conv bind_eq_Some_conv split: list.splits if_splits)
  qed
qed auto

lemma reads_struct:
  "distinct (map fst fs) \<Longrightarrow> reads h (TStruct fs) v d S \<longleftrightarrow>
     (\<exists>vs ds. v = VStruct vs \<and> d = DStruct ds \<and> map fst vs = map fst fs \<and> map fst ds = map fst fs \<and>
       (\<forall>(n, t) \<in> set fs. reads h t (the (map_of vs n)) (the (map_of ds n)) S))"
  unfolding reads_fields [symmetric] by (auto simp: reads_def bind_eq_Some_conv split: val.splits)

text \<open>A value of a type without references is read the same in every store.\<close>

primrec plain :: "ty \<Rightarrow> bool" where
  "plain TBool = True"
| "plain TInt = True"
| "plain TString = True"
| "plain (TPtr t) = False"
| "plain (TSlice t) = False"
| "plain TMap = False"
| "plain (TStruct fs) = list_all snd (map (map_prod id plain) fs)"

lemma observe_plain:
  "observe h t v = Some (d, A) \<Longrightarrow> plain t \<Longrightarrow> A = []"
  "observe_fields h fs vs = Some (ds, A) \<Longrightarrow> \<forall>(n, t) \<in> set fs. plain t \<Longrightarrow> A = []"
proof (induction h t v and h fs vs arbitrary: d A and ds A rule: observe_observe_fields.induct)
  case (7 h fs v)
  then show ?case by (fastforce simp: list_all_iff split: val.splits Option.bind_splits)
next
  case (9 h n t fs vs)
  then show ?case by (fastforce split: list.splits if_splits Option.bind_splits)
qed (auto split: val.splits if_splits)

lemma reads_plain: "reads h t v d S \<Longrightarrow> plain t \<Longrightarrow> reads g t v d {}"
  by (rule reads_frame [where h = h]) (auto simp: reads_def dest: observe_plain(1))

section \<open>The contract of a deep copy\<close>

type_synonym copy = "val \<Rightarrow> store \<Rightarrow> (val \<times> store) option"

text \<open>\<open>copier t f\<close>: from every value of type \<open>t\<close>, \<open>f\<close> returns a value that reads the same and reaches only allocations of
  its own, and all that was allocated before keeps its contents.  \<open>copier_some t f\<close> is the same for values that are not
  nil.\<close>

definition copied :: "ty \<Rightarrow> datum \<Rightarrow> store \<Rightarrow> (val \<times> store) option \<Rightarrow> bool" where
  "copied t d h r \<longleftrightarrow> (\<exists>y e. r = Some (y, h @ e) \<and> reads (h @ e) t y d {length h..})"

definition copier :: "ty \<Rightarrow> copy \<Rightarrow> bool" where
  "copier t f \<longleftrightarrow> (\<forall>h v d. reads h t v d UNIV \<longrightarrow> copied t d h (f v h))"

definition copier_some :: "ty \<Rightarrow> copy \<Rightarrow> bool" where
  "copier_some t f \<longleftrightarrow> (\<forall>h v d. reads h t v d UNIV \<longrightarrow> \<not> isNil v \<longrightarrow> copied t d h (f v h))"

lemma copier_some: "copier t f \<Longrightarrow> copier_some t f"
  by (simp add: copier_def copier_some_def)

text \<open>Plain assignment, \<^verbatim>\<open>*out = *in\<close>.\<close>

definition same :: copy where
  "same v h = Some (v, h)"

lemma copier_same: "plain t \<Longrightarrow> copier t same"
  unfolding copier_def copied_def same_def
  by (auto intro!: exI [of _ "[]"] elim: reads_mono [OF reads_plain])

text \<open>\<^verbatim>\<open>*out = new(T); (*in).DeepCopyInto(*out)\<close>, and \<^verbatim>\<open>**out = **in\<close> with \<open>same\<close>.\<close>

fun newInto :: "ty \<Rightarrow> copy \<Rightarrow> copy" where
  "newInto t f (VPtr (Some p)) h =
     do { let (a, h1) = alloc (Vars [zero t]) h;
          v \<leftarrow> load p h1;
          (y, h2) \<leftarrow> f v h1;
          h3 \<leftarrow> assign (a, 0) y h2;
          Some (VPtr (Some (a, 0)), h3) }"
| "newInto t f _ h = None"

lemma own_simps [simp]:
  "vars (length h) (h @ Vars vs # e) = Some vs"
  "load (length h, i) (h @ Vars vs # e) = (if i < length vs then Some (vs ! i) else None)"
  "assign (length h, i) y (h @ Vars vs # e) = (if i < length vs then Some (h @ Vars (vs[i := y]) # e) else None)"
  "slice (length h, i, n) (h @ Vars vs # e) = (if i + n \<le> length vs then Some (take n (drop i vs)) else None)"
  "entries (length h) (h @ Entries m # e) = Some m"
  by (simp_all add: vars_def load_def assign_def slice_def entries_def)

lemma load_append: "load p h = Some x \<Longrightarrow> load p (h @ e) = Some x"
  by (auto simp: load_def vars_def nth_append split: Option.bind_splits if_splits)

lemma copier_newInto:
  assumes "copier t f"
  shows "copier_some (TPtr t) (newInto t f)"
  unfolding copier_some_def
proof (intro allI impI)
  fix h v d
  assume v: "reads h (TPtr t) v d UNIV" "\<not> isNil v"
  then obtain p where p: "v = VPtr (Some p)" by (auto simp: reads_def split: val.splits option.splits)
  with v obtain x c where x: "load p h = Some x" "d = DRef c" "reads h t x c UNIV" by auto
  let ?h = "h @ [Vars [zero t]]"
  have "copied t c ?h (f x ?h)" using assms reads_append [OF x(3)] by (simp add: copier_def)
  then obtain y e where y: "f x ?h = Some (y, ?h @ e)" "reads (?h @ e) t y c {length ?h..}" by (auto simp: copied_def)
  have "reads (h @ Vars [y] # e) t y c {length h..}" using y(2) by (auto intro: reads_mono [OF reads_past])
  then show "copied (TPtr t) d h (newInto t f v h)"
    using y(1) by (simp add: p x(2) alloc_def load_append [OF x(1)] copied_def)
qed

text \<open>\<^verbatim>\<open>*out = make([]T, len(*in)); copy(*out, *in)\<close>.\<close>

definition overlay :: "'a list \<Rightarrow> 'a list \<Rightarrow> 'a list" where
  "overlay src dst = take (length dst) src @ drop (length src) dst"

fun makeCopy :: "ty \<Rightarrow> copy" where
  "makeCopy t (VSlice (Some (a, i, n))) h =
     do { let (b, h1) = alloc (Vars (replicate n (zero t))) h;
          xs \<leftarrow> slice (a, i, n) h1;
          ws \<leftarrow> vars b h1;
          Some (VSlice (Some (b, 0, n)), h1[b := Vars (overlay xs ws)]) }"
| "makeCopy t _ h = None"

lemma slice_append: "slice s h = Some xs \<Longrightarrow> slice s (h @ e) = Some xs"
  by (auto simp: slice_def vars_def nth_append split: prod.splits Option.bind_splits if_splits)

lemma slice_length: "slice (a, i, n) h = Some xs \<Longrightarrow> length xs = n"
  by (auto simp: slice_def split: Option.bind_splits if_splits)

lemma slice_load: "slice (a, i, n) h = Some xs \<Longrightarrow> j < n \<Longrightarrow> load (a, i + j) h = Some (xs ! j)"
  by (auto simp: slice_def load_def split: Option.bind_splits if_splits)

lemma reads_sliceE:
  assumes "reads h (TSlice t) v d S" "\<not> isNil v"
  obtains a i n xs ds where "v = VSlice (Some (a, i, n))" "slice (a, i, n) h = Some xs" "length xs = n" "d = DList ds"
    "list_all2 (\<lambda>x d. reads h t x d S) xs ds"
proof -
  obtain s where v: "v = VSlice (Some s)" using assms by (auto simp: reads_def split: val.splits option.splits)
  obtain a i n where s: "s = (a, i, n)" by (rule prod_cases3)
  from assms(1) obtain xs ds where xs: "slice s h = Some xs" "d = DList ds" "list_all2 (\<lambda>x d. reads h t x d S) xs ds"
    by (auto simp: v)
  show thesis using that [OF v [unfolded s] _ _ xs(2,3)] xs(1) slice_length by (auto simp: s)
qed

lemma copier_makeCopy:
  assumes "plain t"
  shows "copier_some (TSlice t) (makeCopy t)"
  unfolding copier_some_def
proof (intro allI impI)
  fix h v d
  assume v: "reads h (TSlice t) v d UNIV" "\<not> isNil v"
  then obtain a i n xs ds where xs: "v = VSlice (Some (a, i, n))" "slice (a, i, n) h = Some xs" "length xs = n" "d = DList ds"
    "list_all2 (\<lambda>x d. reads h t x d UNIV) xs ds"
    by (rule reads_sliceE)
  have "list_all2 (\<lambda>x d. reads (h @ [Vars xs]) t x d {length h..}) xs ds"
    using xs(5) by (rule list_all2_mono) (blast intro: reads_mono [OF reads_plain [OF _ assms]])
  then show "copied (TSlice t) d h (makeCopy t v h)"
    using xs(3) by (simp add: xs(1,4) alloc_def slice_append [OF xs(2)] overlay_def copied_def)
qed

text \<open>\<^verbatim>\<open>*out = make([]T, len(*in)); for i := range *in { (*in)[i].DeepCopyInto(&(*out)[i]) }\<close>.\<close>

fun copyEach :: "copy \<Rightarrow> addr \<times> nat \<Rightarrow> addr \<Rightarrow> nat \<Rightarrow> nat \<Rightarrow> store \<Rightarrow> store option" where
  "copyEach f s b i 0 h = Some h"
| "copyEach f s b i (Suc k) h =
     do { x \<leftarrow> load (fst s, snd s + i) h;
          (y, h1) \<leftarrow> f x h;
          h2 \<leftarrow> assign (b, i) y h1;
          copyEach f s b (Suc i) k h2 }"

fun makeEach :: "ty \<Rightarrow> copy \<Rightarrow> copy" where
  "makeEach t f (VSlice (Some (a, i, n))) h =
     do { let (b, h1) = alloc (Vars (replicate n (zero t))) h;
          h2 \<leftarrow> copyEach f (a, i) b 0 n h1;
          Some (VSlice (Some (b, 0, n)), h2) }"
| "makeEach t f _ h = None"

lemma copyEach:
  assumes "copier t f" "slice (a, off, n) h = Some xs" "list_all2 (\<lambda>x d. reads h t x d UNIV) xs ds"
  shows "length ws = n \<Longrightarrow> i + k = n \<Longrightarrow> \<forall>j < i. reads (h @ Vars ws # e) t (ws ! j) (ds ! j) {Suc (length h)..} \<Longrightarrow>
    \<exists>us c. copyEach f (a, off) (length h) i k (h @ Vars ws # e) = Some (h @ Vars us # c) \<and> length us = n \<and>
      (\<forall>j < n. reads (h @ Vars us # c) t (us ! j) (ds ! j) {Suc (length h)..})"
proof (induction k arbitrary: i ws e)
  case (Suc k)
  let ?g = "h @ Vars ws # e"
  have x: "load (a, off + i) ?g = Some (xs ! i)" using slice_load [OF assms(2)] Suc.prems(2) by (simp add: load_append)
  have "reads h t (xs ! i) (ds ! i) UNIV"
    using assms(3) Suc.prems(2) slice_length [OF assms(2)] by (simp add: list_all2_conv_all_nth)
  then have "copied t (ds ! i) ?g (f (xs ! i) ?g)" using assms(1) by (simp add: copier_def reads_append)
  then obtain y c where y: "f (xs ! i) ?g = Some (y, h @ Vars ws # e @ c)" "reads (h @ Vars ws # e @ c) t y (ds ! i) {length ?g..}"
    by (auto simp: copied_def)
  have "reads (h @ Vars ws # e @ c) t (ws[i := y] ! j) (ds ! j) {Suc (length h)..}" if "j < Suc i" for j
  proof (cases "j = i")
    case True
    with y(2) Suc.prems(1,2) show ?thesis by (auto elim: reads_mono)
  next
    case False
    with that Suc.prems(3) reads_append [of ?g t "ws ! j" "ds ! j" _ c] show ?thesis by simp
  qed
  then have "\<forall>j < Suc i. reads (h @ Vars (ws[i := y]) # e @ c) t (ws[i := y] ! j) (ds ! j) {Suc (length h)..}"
    by (auto intro: reads_past)
  with Suc.IH [of "ws[i := y]" "Suc i" "e @ c"] Suc.prems(1,2) show ?case by (simp add: x y(1))
qed simp

lemma copier_makeEach:
  assumes "copier t f"
  shows "copier_some (TSlice t) (makeEach t f)"
  unfolding copier_some_def
proof (intro allI impI)
  fix h v d
  assume v: "reads h (TSlice t) v d UNIV" "\<not> isNil v"
  then obtain a i n xs ds where xs: "v = VSlice (Some (a, i, n))" "slice (a, i, n) h = Some xs" "length xs = n" "d = DList ds"
    "list_all2 (\<lambda>x d. reads h t x d UNIV) xs ds"
    by (rule reads_sliceE)
  obtain us c where us: "copyEach f (a, i) (length h) 0 n (h @ [Vars (replicate n (zero t))]) = Some (h @ Vars us # c)"
    "length us = n" "\<forall>j < n. reads (h @ Vars us # c) t (us ! j) (ds ! j) {Suc (length h)..}"
    using copyEach [OF assms xs(2,5), of "replicate n (zero t)" 0 n "[]"] by auto
  have "list_all2 (\<lambda>x d. reads (h @ Vars us # c) t x d {length h..}) us ds"
    using us(2,3) xs(3,5) by (auto simp: list_all2_conv_all_nth intro: reads_mono)
  then show "copied (TSlice t) d h (makeEach t f v h)" using us by (simp add: xs(1,4) alloc_def copied_def)
qed

text \<open>\<^verbatim>\<open>*out = make(map[string]string, len(*in)); for key, val := range *in { (*out)[key] = val }\<close>.\<close>

fun putEach :: "addr \<Rightarrow> (string, string) gomap \<Rightarrow> store \<Rightarrow> store option" where
  "putEach b [] h = Some h"
| "putEach b ((key, v) # m) h = do { out \<leftarrow> entries b h; putEach b m (h[b := Entries (mupdate key v out)]) }"

fun makeMap :: copy where
  "makeMap (VMap (Some a)) h =
     do { let (b, h1) = alloc (Entries []) h;
          m \<leftarrow> entries a h1;
          h2 \<leftarrow> putEach b m h1;
          Some (VMap (Some b), h2) }"
| "makeMap _ h = None"

lemma putEach:
  "distinct (map fst (out @ m)) \<Longrightarrow> putEach (length h) m (h @ [Entries out]) = Some (h @ [Entries (out @ m)])"
proof (induction m arbitrary: out)
  case (Cons e m)
  obtain key v where e: "e = (key, v)" by fastforce
  have "key \<notin> fst ` set out \<Longrightarrow> mupdate key v out = out @ [(key, v)]" by (induction out) auto
  with Cons show ?case by (simp add: e)
qed simp

lemma copier_makeMap: "copier_some TMap makeMap"
  unfolding copier_some_def
proof (intro allI impI)
  fix h v d
  assume v: "reads h TMap v d UNIV" "\<not> isNil v"
  then obtain a where a: "v = VMap (Some a)" by (auto simp: reads_def split: val.splits option.splits)
  with v obtain m where m: "entries a h = Some m" "d = DMap m" "distinct (map fst m)" by auto
  have "entries a (h @ [Entries []]) = Some m"
    using m(1) by (simp add: entries_def nth_append split: if_splits)
  then show "copied TMap d h (makeMap v h)"
    using m(3) putEach [of "[]" m h] by (simp add: a m(2) alloc_def copied_def)
qed

section \<open>Copying a struct\<close>

text \<open>The statements of a generated \<^verbatim>\<open>DeepCopyInto\<close>: \<open>Into f g\<close> is \<^verbatim>\<open>in.f.DeepCopyInto(&out.f)\<close> or \<^verbatim>\<open>out.f = in.f\<close>, and
  \<open>IfNotNil f g\<close> is \<^verbatim>\<open>if in.f != nil { in, out := &in.f, &out.f; ... }\<close>.  \<open>copyStruct\<close> runs them after \<^verbatim>\<open>*out = *in\<close>; it
  takes \<^verbatim>\<open>*in\<close> and returns what \<^verbatim>\<open>*out\<close> becomes.\<close>

datatype stmt = Into string copy | IfNotNil string copy

fun exec :: "stmt \<Rightarrow> val \<Rightarrow> val \<Rightarrow> store \<Rightarrow> (val \<times> store) option" where
  "exec (Into f g) inn out h = do { x \<leftarrow> field f inn; (y, h1) \<leftarrow> g x h; out1 \<leftarrow> setField f y out; Some (out1, h1) }"
| "exec (IfNotNil f g) inn out h =
     do { x \<leftarrow> field f inn;
          if isNil x then Some (out, h)
          else do { (y, h1) \<leftarrow> g x h; out1 \<leftarrow> setField f y out; Some (out1, h1) } }"

fun execs :: "stmt list \<Rightarrow> val \<Rightarrow> val \<Rightarrow> store \<Rightarrow> (val \<times> store) option" where
  "execs [] inn out h = Some (out, h)"
| "execs (s # ss) inn out h = do { (out1, h1) \<leftarrow> exec s inn out h; execs ss inn out1 h1 }"

definition copyStruct :: "stmt list \<Rightarrow> copy" where
  "copyStruct ss inn h = execs ss inn inn h"

fun target :: "stmt \<Rightarrow> string" where
  "target (Into f g) = f"
| "target (IfNotNil f g) = f"

fun stmt_ok :: "ty \<Rightarrow> stmt \<Rightarrow> bool" where
  "stmt_ok t (Into f g) = copier t g"
| "stmt_ok t (IfNotNil f g) = copier_some t g"

lemma reads_isNil: "reads h t x d S \<Longrightarrow> isNil x \<Longrightarrow> reads g t x d {}"
  by (cases t; cases x) (auto simp: reads_def bind_eq_Some_conv split: option.splits)

lemma map_of_replace:
  "f \<in> fst ` set ws \<Longrightarrow> map_of (map (\<lambda>(k, x). (k, if k = f then y else x)) ws) = (map_of ws)(f \<mapsto> y)"
proof -
  assume "f \<in> fst ` set ws"
  then have "\<exists>x. map_of ws f = Some x" by (metis map_of_eq_None_iff not_None_eq)
  moreover have "map_of (map (\<lambda>(k, x). (k, if k = f then y else x)) ws) n =
      (if n = f then map_option (\<lambda>_. y) (map_of ws n) else map_of ws n)" for n
    by (induction ws) auto
  ultimately show ?thesis by auto
qed

lemma exec:
  assumes "stmt_ok t s" "map_of vs (target s) = Some x" "map_of ws (target s) = Some x" "reads h t x d UNIV"
  shows "\<exists>us e y. exec s (VStruct vs) (VStruct ws) h = Some (VStruct us, h @ e) \<and> map fst us = map fst ws \<and>
    map_of us = (map_of ws)(target s \<mapsto> y) \<and> reads (h @ e) t y d {length h..}"
proof -
  let ?us = "\<lambda>y. map (\<lambda>(k, x). (k, if k = target s then y else x)) ws"
  have mem: "target s \<in> fst ` set ws" using assms(3) by (metis domI dom_map_of_conv_image_fst)
  have names: "map fst (?us y) = map fst ws" for y by (simp add: comp_def case_prod_beta)
  show ?thesis
  proof (cases "isNil x \<and> (\<exists>f g. s = IfNotNil f g)")
    case True
    with assms(2,3) reads_mono [OF reads_isNil [OF assms(4)]] show ?thesis
      by (intro exI [of _ ws] exI [of _ "[]"] exI [of _ x]) (auto simp: fun_upd_triv)
  next
    case False
    obtain g where g: "copied t d h (g x h)" "exec s (VStruct vs) (VStruct ws) h = do { (y, h1) \<leftarrow> g x h;
        out1 \<leftarrow> setField (target s) y (VStruct ws); Some (out1, h1) }"
      using assms False by (cases s) (auto simp: copier_def copier_some_def)
    then show ?thesis using mem names map_of_replace [OF mem] by (auto simp: copied_def)
  qed
qed

text \<open>The fields in \<open>D\<close> have been copied, the others are still those of \<open>vs\<close>.\<close>

definition partly :: "(string \<times> ty) list \<Rightarrow> (string \<times> val) list \<Rightarrow> (string \<times> datum) list \<Rightarrow> nat \<Rightarrow> string set \<Rightarrow>
    (string \<times> val) list \<Rightarrow> store \<Rightarrow> bool" where
  "partly fs vs ds k D ws h \<longleftrightarrow> map fst ws = map fst fs \<and>
     (\<forall>(n, t) \<in> set fs. if n \<in> D then reads h t (the (map_of ws n)) (the (map_of ds n)) {k..} else map_of ws n = map_of vs n)"

lemma execs:
  assumes "distinct (map fst fs)" "map fst vs = map fst fs"
    and "\<forall>(n, t) \<in> set fs. reads h t (the (map_of vs n)) (the (map_of ds n)) UNIV"
  shows "\<forall>s \<in> set ss. \<exists>t. (target s, t) \<in> set fs \<and> stmt_ok t s \<Longrightarrow> distinct (map target ss) \<Longrightarrow> target ` set ss \<inter> D = {} \<Longrightarrow>
    partly fs vs ds (length h) D ws (h @ e) \<Longrightarrow>
    \<exists>us c. execs ss (VStruct vs) (VStruct ws) (h @ e) = Some (VStruct us, h @ c) \<and>
      partly fs vs ds (length h) (D \<union> target ` set ss) us (h @ c)"
proof (induction ss arbitrary: D ws e)
  case (Cons s ss)
  from Cons.prems(1) obtain t where t: "(target s, t) \<in> set fs" "stmt_ok t s" by auto
  obtain x where x: "map_of vs (target s) = Some x"
    using t(1) assms(2) by (metis fst_conv image_eqI list.set_map map_of_eq_None_iff not_None_eq)
  with Cons.prems(3,4) t(1) have w: "map_of ws (target s) = Some x" by (auto simp: partly_def)
  have "reads (h @ e) t x (the (map_of ds (target s))) UNIV"
    using bspec [OF assms(3) t(1)] x by (simp add: reads_append)
  from exec [OF t(2) x w this] obtain us c y where s: "exec s (VStruct vs) (VStruct ws) (h @ e) = Some (VStruct us, h @ e @ c)"
    "map fst us = map fst ws" "map_of us = (map_of ws)(target s \<mapsto> y)"
    "reads (h @ e @ c) t y (the (map_of ds (target s))) {length (h @ e)..}" by auto
  have only: "u = t" if "(target s, u) \<in> set fs" for u using that t(1) assms(1) by (metis map_of_is_SomeI option.inject)
  have "partly fs vs ds (length h) (insert (target s) D) us (h @ e @ c)"
    using Cons.prems(4) s(2,3) reads_mono [OF s(4)] only reads_append [where h = "h @ e" and e = c]
    by (fastforce simp: partly_def)
  with Cons.IH [of "insert (target s) D" us "e @ c"] Cons.prems(1,2,3) s(1) show ?case by auto
qed auto

lemma copier_struct:
  assumes "distinct (map fst fs)" "distinct (map target ss)"
    and "\<forall>s \<in> set ss. \<exists>t. (target s, t) \<in> set fs \<and> stmt_ok t s" "\<forall>(n, t) \<in> set fs. n \<in> target ` set ss \<or> plain t"
  shows "copier (TStruct fs) (copyStruct ss)"
  unfolding copier_def
proof (intro allI impI)
  fix h v d
  assume "reads h (TStruct fs) v d UNIV"
  then obtain vs ds where v: "v = VStruct vs" "d = DStruct ds" "map fst vs = map fst fs" "map fst ds = map fst fs"
    "\<forall>(n, t) \<in> set fs. reads h t (the (map_of vs n)) (the (map_of ds n)) UNIV"
    by (auto simp: reads_struct [OF assms(1)])
  have "partly fs vs ds (length h) {} vs (h @ [])" by (auto simp: partly_def v(3))
  from execs [OF assms(1) v(3,5) assms(3,2) _ this] obtain us c where us:
    "execs ss (VStruct vs) (VStruct vs) h = Some (VStruct us, h @ c)" "partly fs vs ds (length h) (target ` set ss) us (h @ c)"
    by auto
  have "reads (h @ c) t (the (map_of us n)) (the (map_of ds n)) {length h..}" if "(n, t) \<in> set fs" for n t
  proof (cases "n \<in> target ` set ss")
    case True
    with us(2) that show ?thesis by (auto simp: partly_def)
  next
    case False
    with us(2) that assms(4) have "map_of us n = map_of vs n" "plain t" by (auto simp: partly_def)
    with v(5) that show ?thesis by (auto intro: reads_mono [OF reads_plain])
  qed
  with us(2) show "copied (TStruct fs) d h (copyStruct ss v h)"
    by (auto simp: copied_def copyStruct_def v(1,2,4) us(1) reads_struct [OF assms(1)] partly_def)
qed

section \<open>Copying through a pointer\<close>

text \<open>A generated \<^verbatim>\<open>DeepCopy\<close>: nil for nil, and otherwise a new variable that \<^verbatim>\<open>DeepCopyInto\<close> fills.\<close>

definition deepCopy :: "ty \<Rightarrow> copy \<Rightarrow> ptr \<Rightarrow> store \<Rightarrow> (ptr \<times> store) option" where
  "deepCopy t f inn h =
     (case inn of
        None \<Rightarrow> Some (None, h)
      | Some p \<Rightarrow> do {
          let (a, h1) = alloc (Vars [zero t]) h;
          v \<leftarrow> load p h1;
          (y, h2) \<leftarrow> f v h1;
          h3 \<leftarrow> assign (a, 0) y h2;
          Some (Some (a, 0), h3) })"

text \<open>What a program may do to memory later: write to any allocation, any number of times.\<close>

definition overwrite :: "(addr \<times> obj) list \<Rightarrow> store \<Rightarrow> store" where
  "overwrite ws h = fold (\<lambda>(a, ob) g. g[a := ob]) ws h"

lemma overwrite_elsewhere: "a \<notin> fst ` set ws \<Longrightarrow> length (overwrite ws h) = length h \<and> overwrite ws h ! a = h ! a"
  unfolding overwrite_def by (induction ws arbitrary: h) auto

lemma observe_overwrite:
  assumes "observe h t v = Some (d, A)" "fst ` set ws \<inter> set A = {}"
  shows "observe (overwrite ws h) t v = Some (d, A)"
proof (rule observe_frame(1) [OF assms(1)], intro ballI)
  fix a
  assume "a \<in> set A"
  with assms(2) have "a \<notin> fst ` set ws" by auto
  with observe_bound(1) [OF assms(1) \<open>a \<in> set A\<close>] show "a < length (overwrite ws h) \<and> overwrite ws h ! a = h ! a"
    by (simp add: overwrite_elsewhere)
qed

text \<open>Two pointers stand for the same value, and whatever is written into the memory of one of them, the other one
  still does.\<close>

definition independent :: "ty \<Rightarrow> ptr \<Rightarrow> ptr \<Rightarrow> store \<Rightarrow> bool" where
  "independent t p q h \<longleftrightarrow> (\<exists>d A B. observe h (TPtr t) (VPtr p) = Some (d, A) \<and> observe h (TPtr t) (VPtr q) = Some (d, B) \<and>
     (\<forall>ws. fst ` set ws \<subseteq> set B \<longrightarrow> observe (overwrite ws h) (TPtr t) (VPtr p) = Some (d, A)) \<and>
     (\<forall>ws. fst ` set ws \<subseteq> set A \<longrightarrow> observe (overwrite ws h) (TPtr t) (VPtr q) = Some (d, B)))"

lemma deepCopy_newInto: "newInto t f (VPtr (Some p)) h = Some (VPtr q, g) \<Longrightarrow> deepCopy t f (Some p) h = Some (q, g)"
  by (auto simp: deepCopy_def alloc_def bind_eq_Some_conv split: prod.splits)

lemma reads_apart: "observe h t v = Some (d, A) \<Longrightarrow> observe g u w = Some (c, B) \<Longrightarrow> set B \<subseteq> {length h..} \<Longrightarrow> set A \<inter> set B = {}"
  using observe_bound(1) by fastforce

text \<open>What a client may rely on in a \<^verbatim>\<open>DeepCopy\<close> whose \<^verbatim>\<open>DeepCopyInto\<close> keeps the contract.\<close>

locale deep_copy =
  fixes t :: ty and f :: copy
  assumes copies: "copier t f"
begin

lemma copy_reads:
  assumes "reads h (TPtr t) (VPtr p) d UNIV"
  shows "\<exists>q e. deepCopy t f p h = Some (q, h @ e) \<and> reads (h @ e) (TPtr t) (VPtr q) d {length h..}"
proof (cases p)
  case None
  with assms show ?thesis by (simp add: deepCopy_def)
next
  case (Some l)
  have "\<not> isNil (VPtr p)" by (simp add: Some)
  with assms have "copied (TPtr t) d h (newInto t f (VPtr p) h)"
    using copier_newInto [OF copies] unfolding copier_some_def by blast
  then obtain y e where y: "newInto t f (VPtr p) h = Some (y, h @ e)" "reads (h @ e) (TPtr t) y d {length h..}"
    by (auto simp: copied_def)
  then obtain q where q: "y = VPtr q" by (cases y) (auto simp: reads_def)
  with y deepCopy_newInto [of t f l h q] show ?thesis by (auto simp: Some simp del: reads_ptr)
qed

lemma copy_independent:
  assumes "observe h (TPtr t) (VPtr p) = Some (d, A)"
  shows "\<exists>q e. deepCopy t f p h = Some (q, h @ e) \<and> independent t p q (h @ e)"
proof -
  have "reads h (TPtr t) (VPtr p) d UNIV" using assms by (simp add: reads_def)
  from copy_reads [OF this] obtain q e B where q: "deepCopy t f p h = Some (q, h @ e)"
    "observe (h @ e) (TPtr t) (VPtr q) = Some (d, B)" "set A \<inter> set B = {}"
    using reads_apart [OF assms] unfolding reads_def by blast
  have "observe (h @ e) (TPtr t) (VPtr p) = Some (d, A)"
    by (intro observe_frame(1) [OF assms]) (auto dest: observe_bound(1) [OF assms] simp: nth_append)
  with q show ?thesis unfolding independent_def by (blast intro: observe_overwrite)
qed

end

end
