(* ===== verification/DeepCopy.thy ===== *)
theory DeepCopy
  imports Memory
begin

text \<open>
  The deep copies of \<^verbatim>\<open>src/api/v1alpha1/zz_generated.deepcopy.go\<close>, in the memory of theory \<open>Memory\<close>.  Each API type has
  its layout (\<open>_T\<close>, the fields in the order of the struct), its \<open>_DeepCopyInto\<close> (which takes \<^verbatim>\<open>*in\<close> and returns what \<^verbatim>\<open>*out\<close>
  becomes) and its \<open>_DeepCopy\<close>; the four kinds of object have a \<open>_DeepCopyObject\<close> too.  That every one of them is a
  deep copy is what allows the other theories to treat an object read from a cache as a value: the reconciler changes
  the object it has read in place, and \<^verbatim>\<open>findRecentRemoteEvent\<close> keeps a copy of an element of a list.
\<close>

section \<open>The types of apimachinery\<close>

text \<open>\<^verbatim>\<open>metav1\<close> is a package of its own: its types and their deep copies are parameters, of which the documented
  behaviour is assumed (\<open>metav1_copies\<close>): \<^verbatim>\<open>TypeMeta\<close> holds no references, the others' copies are deep copies.\<close>

record metav1 =
  mv_TypeMeta :: ty
  mv_ObjectMeta :: ty
  mv_ListMeta :: ty
  mv_Condition :: ty
  mv_Time :: ty
  mv_ObjectMeta_DeepCopyInto :: copy
  mv_ListMeta_DeepCopyInto :: copy
  mv_Condition_DeepCopyInto :: copy
  mv_Time_DeepCopy :: copy

definition metav1_copies :: "metav1 \<Rightarrow> bool" where
  "metav1_copies X \<longleftrightarrow> plain (mv_TypeMeta X) \<and> copier (mv_ObjectMeta X) (mv_ObjectMeta_DeepCopyInto X) \<and>
     copier (mv_ListMeta X) (mv_ListMeta_DeepCopyInto X) \<and> copier (mv_Condition X) (mv_Condition_DeepCopyInto X) \<and>
     copier_some (TPtr (mv_Time X)) (mv_Time_DeepCopy X)"

section \<open>The generated functions\<close>

definition Port_T :: ty where
  "Port_T = TStruct
     [(''Name'', TString), (''Port'', TInt), (''Protocol'', TString)]"

definition Port_DeepCopyInto :: copy where
  "Port_DeepCopyInto = copyStruct []"

definition Port_DeepCopy :: "ptr \<Rightarrow> store \<Rightarrow> (ptr \<times> store) option" where
  "Port_DeepCopy = deepCopy Port_T Port_DeepCopyInto"

definition EnvVar_T :: ty where
  "EnvVar_T = TStruct
     [(''Name'', TString), (''Value'', TString)]"

definition EnvVar_DeepCopyInto :: copy where
  "EnvVar_DeepCopyInto = copyStruct []"

definition EnvVar_DeepCopy :: "ptr \<Rightarrow> store \<Rightarrow> (ptr \<times> store) option" where
  "EnvVar_DeepCopy = deepCopy EnvVar_T EnvVar_DeepCopyInto"

definition HTTPAction_T :: ty where
  "HTTPAction_T = TStruct
     [(''URL'', TString), (''Method'', TString), (''Headers'', TMap), (''Body'', TPtr TString),
      (''TimeoutSeconds'', TPtr TInt)]"

definition HTTPAction_DeepCopyInto :: copy where
  "HTTPAction_DeepCopyInto = copyStruct
     [IfNotNil ''Headers'' makeMap,
      IfNotNil ''Body'' (newInto TString same),
      IfNotNil ''TimeoutSeconds'' (newInto TInt same)]"

definition HTTPAction_DeepCopy :: "ptr \<Rightarrow> store \<Rightarrow> (ptr \<times> store) option" where
  "HTTPAction_DeepCopy = deepCopy HTTPAction_T HTTPAction_DeepCopyInto"

definition JobAction_T :: ty where
  "JobAction_T = TStruct
     [(''Image'', TString), (''Command'', TSlice TString), (''Script'', TPtr TString), (''Env'', TSlice EnvVar_T),
      (''ServiceAccountName'', TString), (''ActiveDeadlineSeconds'', TPtr TInt), (''MaxRetries'', TPtr TInt)]"

definition JobAction_DeepCopyInto :: copy where
  "JobAction_DeepCopyInto = copyStruct
     [IfNotNil ''Command'' (makeCopy TString),
      IfNotNil ''Script'' (newInto TString same),
      IfNotNil ''Env'' (makeCopy EnvVar_T),
      IfNotNil ''ActiveDeadlineSeconds'' (newInto TInt same),
      IfNotNil ''MaxRetries'' (newInto TInt same)]"

definition JobAction_DeepCopy :: "ptr \<Rightarrow> store \<Rightarrow> (ptr \<times> store) option" where
  "JobAction_DeepCopy = deepCopy JobAction_T JobAction_DeepCopyInto"

definition ScaleAction_T :: ty where
  "ScaleAction_T = TStruct
     [(''Kind'', TString), (''Name'', TString), (''Replicas'', TInt), (''WaitReady'', TBool),
      (''TimeoutSeconds'', TPtr TInt)]"

definition ScaleAction_DeepCopyInto :: copy where
  "ScaleAction_DeepCopyInto = copyStruct [IfNotNil ''TimeoutSeconds'' (newInto TInt same)]"

definition ScaleAction_DeepCopy :: "ptr \<Rightarrow> store \<Rightarrow> (ptr \<times> store) option" where
  "ScaleAction_DeepCopy = deepCopy ScaleAction_T ScaleAction_DeepCopyInto"

definition WaitReadyAction_T :: ty where
  "WaitReadyAction_T = TStruct
     [(''Kind'', TString), (''Name'', TString), (''TimeoutSeconds'', TPtr TInt)]"

definition WaitReadyAction_DeepCopyInto :: copy where
  "WaitReadyAction_DeepCopyInto = copyStruct [IfNotNil ''TimeoutSeconds'' (newInto TInt same)]"

definition WaitReadyAction_DeepCopy :: "ptr \<Rightarrow> store \<Rightarrow> (ptr \<times> store) option" where
  "WaitReadyAction_DeepCopy = deepCopy WaitReadyAction_T WaitReadyAction_DeepCopyInto"

definition WaitRemoteAction_T :: ty where
  "WaitRemoteAction_T = TStruct
     [(''Phase'', TPtr TString), (''ActionName'', TPtr TString), (''ConnectTimeoutSeconds'', TPtr TInt),
      (''ActionTimeoutSeconds'', TPtr TInt)]"

definition WaitRemoteAction_DeepCopyInto :: copy where
  "WaitRemoteAction_DeepCopyInto = copyStruct
     [IfNotNil ''Phase'' (newInto TString same),
      IfNotNil ''ActionName'' (newInto TString same),
      IfNotNil ''ConnectTimeoutSeconds'' (newInto TInt same),
      IfNotNil ''ActionTimeoutSeconds'' (newInto TInt same)]"

definition WaitRemoteAction_DeepCopy :: "ptr \<Rightarrow> store \<Rightarrow> (ptr \<times> store) option" where
  "WaitRemoteAction_DeepCopy = deepCopy WaitRemoteAction_T WaitRemoteAction_DeepCopyInto"

definition FailoverAction_T :: ty where
  "FailoverAction_T = TStruct
     [(''Name'', TString), (''HTTP'', TPtr HTTPAction_T), (''Job'', TPtr JobAction_T), (''Scale'', TPtr ScaleAction_T),
      (''WaitReady'', TPtr WaitReadyAction_T), (''WaitRemote'', TPtr WaitRemoteAction_T), (''IgnoreFailure'', TBool),
      (''MaxRetries'', TPtr TInt), (''RetryIntervalSeconds'', TPtr TInt)]"

definition FailoverAction_DeepCopyInto :: copy where
  "FailoverAction_DeepCopyInto = copyStruct
     [IfNotNil ''HTTP'' (newInto HTTPAction_T HTTPAction_DeepCopyInto),
      IfNotNil ''Job'' (newInto JobAction_T JobAction_DeepCopyInto),
      IfNotNil ''Scale'' (newInto ScaleAction_T ScaleAction_DeepCopyInto),
      IfNotNil ''WaitReady'' (newInto WaitReadyAction_T WaitReadyAction_DeepCopyInto),
      IfNotNil ''WaitRemote'' (newInto WaitRemoteAction_T WaitRemoteAction_DeepCopyInto),
      IfNotNil ''MaxRetries'' (newInto TInt same),
      IfNotNil ''RetryIntervalSeconds'' (newInto TInt same)]"

definition FailoverAction_DeepCopy :: "ptr \<Rightarrow> store \<Rightarrow> (ptr \<times> store) option" where
  "FailoverAction_DeepCopy = deepCopy FailoverAction_T FailoverAction_DeepCopyInto"

definition TransitionActions_T :: ty where
  "TransitionActions_T = TStruct
     [(''PreActions'', TSlice FailoverAction_T), (''PostActions'', TSlice FailoverAction_T)]"

definition TransitionActions_DeepCopyInto :: copy where
  "TransitionActions_DeepCopyInto = copyStruct
     [IfNotNil ''PreActions'' (makeEach FailoverAction_T FailoverAction_DeepCopyInto),
      IfNotNil ''PostActions'' (makeEach FailoverAction_T FailoverAction_DeepCopyInto)]"

definition TransitionActions_DeepCopy :: "ptr \<Rightarrow> store \<Rightarrow> (ptr \<times> store) option" where
  "TransitionActions_DeepCopy = deepCopy TransitionActions_T TransitionActions_DeepCopyInto"

definition ClusterTarget_T :: ty where
  "ClusterTarget_T = TStruct
     [(''PrimaryModeAddress'', TString), (''FailoverModeAddress'', TString),
      (''OnFailover'', TPtr TransitionActions_T), (''OnFailback'', TPtr TransitionActions_T)]"

definition ClusterTarget_DeepCopyInto :: copy where
  "ClusterTarget_DeepCopyInto = copyStruct
     [IfNotNil ''OnFailover'' (newInto TransitionActions_T TransitionActions_DeepCopyInto),
      IfNotNil ''OnFailback'' (newInto TransitionActions_T TransitionActions_DeepCopyInto)]"

definition ClusterTarget_DeepCopy :: "ptr \<Rightarrow> store \<Rightarrow> (ptr \<times> store) option" where
  "ClusterTarget_DeepCopy = deepCopy ClusterTarget_T ClusterTarget_DeepCopyInto"

definition ActionResult_T :: "metav1 \<Rightarrow> ty" where
  "ActionResult_T X = TStruct
     [(''Name'', TString), (''Status'', TString), (''Message'', TString), (''StartedAt'', TPtr (mv_Time X)),
      (''CompletedAt'', TPtr (mv_Time X)), (''JobName'', TString), (''RetryCount'', TInt)]"

definition ActionResult_DeepCopyInto :: "metav1 \<Rightarrow> copy" where
  "ActionResult_DeepCopyInto X = copyStruct
     [IfNotNil ''StartedAt'' (mv_Time_DeepCopy X),
      IfNotNil ''CompletedAt'' (mv_Time_DeepCopy X)]"

definition ActionResult_DeepCopy :: "metav1 \<Rightarrow> ptr \<Rightarrow> store \<Rightarrow> (ptr \<times> store) option" where
  "ActionResult_DeepCopy X = deepCopy (ActionResult_T X) (ActionResult_DeepCopyInto X)"

definition ClusterStatus_T :: "metav1 \<Rightarrow> ty" where
  "ClusterStatus_T X = TStruct
     [(''ClusterID'', TString), (''AppliedGeneration'', TInt), (''LastAppliedTime'', TPtr (mv_Time X)),
      (''Phase'', TString)]"

definition ClusterStatus_DeepCopyInto :: "metav1 \<Rightarrow> copy" where
  "ClusterStatus_DeepCopyInto X = copyStruct [IfNotNil ''LastAppliedTime'' (mv_Time_DeepCopy X)]"

definition ClusterStatus_DeepCopy :: "metav1 \<Rightarrow> ptr \<Rightarrow> store \<Rightarrow> (ptr \<times> store) option" where
  "ClusterStatus_DeepCopy X = deepCopy (ClusterStatus_T X) (ClusterStatus_DeepCopyInto X)"

definition ConnectionKillStatus_T :: "metav1 \<Rightarrow> ty" where
  "ConnectionKillStatus_T X = TStruct
     [(''SignalSent'', TBool), (''KillToken'', TString), (''ExpectedNodes'', TSlice TString),
      (''AckedNodes'', TSlice TString), (''SignaledAt'', TPtr (mv_Time X))]"

definition ConnectionKillStatus_DeepCopyInto :: "metav1 \<Rightarrow> copy" where
  "ConnectionKillStatus_DeepCopyInto X = copyStruct
     [IfNotNil ''ExpectedNodes'' (makeCopy TString),
      IfNotNil ''AckedNodes'' (makeCopy TString),
      IfNotNil ''SignaledAt'' (mv_Time_DeepCopy X)]"

definition ConnectionKillStatus_DeepCopy :: "metav1 \<Rightarrow> ptr \<Rightarrow> store \<Rightarrow> (ptr \<times> store) option" where
  "ConnectionKillStatus_DeepCopy X = deepCopy (ConnectionKillStatus_T X) (ConnectionKillStatus_DeepCopyInto X)"

definition FailoverEventSpec_T :: ty where
  "FailoverEventSpec_T = TStruct
     [(''FailoverServiceRef'', TString), (''Direction'', TString), (''TriggeredBy'', TString)]"

definition FailoverEventSpec_DeepCopyInto :: copy where
  "FailoverEventSpec_DeepCopyInto = copyStruct []"

definition FailoverEventSpec_DeepCopy :: "ptr \<Rightarrow> store \<Rightarrow> (ptr \<times> store) option" where
  "FailoverEventSpec_DeepCopy = deepCopy FailoverEventSpec_T FailoverEventSpec_DeepCopyInto"

definition FailoverEventStatus_T :: "metav1 \<Rightarrow> ty" where
  "FailoverEventStatus_T X = TStruct
     [(''StartedAt'', TPtr (mv_Time X)), (''CompletedAt'', TPtr (mv_Time X)), (''Outcome'', TString),
      (''PreActionResults'', TSlice (ActionResult_T X)), (''PostActionResults'', TSlice (ActionResult_T X)),
      (''ConnectionKillResult'', TPtr (ConnectionKillStatus_T X)), (''ActiveGenerationBefore'', TInt),
      (''ActiveGenerationAfter'', TInt)]"

definition FailoverEventStatus_DeepCopyInto :: "metav1 \<Rightarrow> copy" where
  "FailoverEventStatus_DeepCopyInto X = copyStruct
     [IfNotNil ''StartedAt'' (mv_Time_DeepCopy X),
      IfNotNil ''CompletedAt'' (mv_Time_DeepCopy X),
      IfNotNil ''PreActionResults'' (makeEach (ActionResult_T X) (ActionResult_DeepCopyInto X)),
      IfNotNil ''PostActionResults'' (makeEach (ActionResult_T X) (ActionResult_DeepCopyInto X)),
      IfNotNil ''ConnectionKillResult'' (newInto (ConnectionKillStatus_T X) (ConnectionKillStatus_DeepCopyInto X))]"

definition FailoverEventStatus_DeepCopy :: "metav1 \<Rightarrow> ptr \<Rightarrow> store \<Rightarrow> (ptr \<times> store) option" where
  "FailoverEventStatus_DeepCopy X = deepCopy (FailoverEventStatus_T X) (FailoverEventStatus_DeepCopyInto X)"

definition FailoverEvent_T :: "metav1 \<Rightarrow> ty" where
  "FailoverEvent_T X = TStruct
     [(''TypeMeta'', mv_TypeMeta X), (''ObjectMeta'', mv_ObjectMeta X), (''Spec'', FailoverEventSpec_T),
      (''Status'', FailoverEventStatus_T X)]"

definition FailoverEvent_DeepCopyInto :: "metav1 \<Rightarrow> copy" where
  "FailoverEvent_DeepCopyInto X = copyStruct
     [Into ''TypeMeta'' same,
      Into ''ObjectMeta'' (mv_ObjectMeta_DeepCopyInto X),
      Into ''Spec'' same,
      Into ''Status'' (FailoverEventStatus_DeepCopyInto X)]"

definition FailoverEvent_DeepCopy :: "metav1 \<Rightarrow> ptr \<Rightarrow> store \<Rightarrow> (ptr \<times> store) option" where
  "FailoverEvent_DeepCopy X = deepCopy (FailoverEvent_T X) (FailoverEvent_DeepCopyInto X)"

definition FailoverEventList_T :: "metav1 \<Rightarrow> ty" where
  "FailoverEventList_T X = TStruct
     [(''TypeMeta'', mv_TypeMeta X), (''ListMeta'', mv_ListMeta X), (''Items'', TSlice (FailoverEvent_T X))]"

definition FailoverEventList_DeepCopyInto :: "metav1 \<Rightarrow> copy" where
  "FailoverEventList_DeepCopyInto X = copyStruct
     [Into ''TypeMeta'' same,
      Into ''ListMeta'' (mv_ListMeta_DeepCopyInto X),
      IfNotNil ''Items'' (makeEach (FailoverEvent_T X) (FailoverEvent_DeepCopyInto X))]"

definition FailoverEventList_DeepCopy :: "metav1 \<Rightarrow> ptr \<Rightarrow> store \<Rightarrow> (ptr \<times> store) option" where
  "FailoverEventList_DeepCopy X = deepCopy (FailoverEventList_T X) (FailoverEventList_DeepCopyInto X)"

definition FailoverServiceSpec_T :: ty where
  "FailoverServiceSpec_T = TStruct
     [(''ServiceName'', TString), (''Ports'', TSlice Port_T), (''FailoverActive'', TBool),
      (''PrimaryCluster'', ClusterTarget_T), (''FailoverCluster'', ClusterTarget_T)]"

definition FailoverServiceSpec_DeepCopyInto :: copy where
  "FailoverServiceSpec_DeepCopyInto = copyStruct
     [IfNotNil ''Ports'' (makeCopy Port_T),
      Into ''PrimaryCluster'' ClusterTarget_DeepCopyInto,
      Into ''FailoverCluster'' ClusterTarget_DeepCopyInto]"

definition FailoverServiceSpec_DeepCopy :: "ptr \<Rightarrow> store \<Rightarrow> (ptr \<times> store) option" where
  "FailoverServiceSpec_DeepCopy = deepCopy FailoverServiceSpec_T FailoverServiceSpec_DeepCopyInto"

definition RemoteState_T :: "metav1 \<Rightarrow> ty" where
  "RemoteState_T X = TStruct
     [(''FailoverActive'', TBool), (''ActiveCluster'', TString), (''ActiveGeneration'', TInt),
      (''LastSyncTime'', TPtr (mv_Time X)), (''ClusterID'', TString), (''SpecChangeTime'', TPtr (mv_Time X))]"

definition RemoteState_DeepCopyInto :: "metav1 \<Rightarrow> copy" where
  "RemoteState_DeepCopyInto X = copyStruct
     [IfNotNil ''LastSyncTime'' (mv_Time_DeepCopy X),
      IfNotNil ''SpecChangeTime'' (mv_Time_DeepCopy X)]"

definition RemoteState_DeepCopy :: "metav1 \<Rightarrow> ptr \<Rightarrow> store \<Rightarrow> (ptr \<times> store) option" where
  "RemoteState_DeepCopy X = deepCopy (RemoteState_T X) (RemoteState_DeepCopyInto X)"

definition TransitionStatus_T :: "metav1 \<Rightarrow> ty" where
  "TransitionStatus_T X = TStruct
     [(''Phase'', TString), (''TargetDirection'', TString), (''OldAddressSnapshot'', TString),
      (''NewAddressSnapshot'', TString), (''TransitionID'', TString), (''CurrentActionIndex'', TInt),
      (''PreActionResults'', TSlice (ActionResult_T X)), (''PostActionResults'', TSlice (ActionResult_T X)),
      (''StartedAt'', TPtr (mv_Time X)), (''ConnectionKill'', TPtr (ConnectionKillStatus_T X)), (''EventName'', TString)]"

definition TransitionStatus_DeepCopyInto :: "metav1 \<Rightarrow> copy" where
  "TransitionStatus_DeepCopyInto X = copyStruct
     [IfNotNil ''PreActionResults'' (makeEach (ActionResult_T X) (ActionResult_DeepCopyInto X)),
      IfNotNil ''PostActionResults'' (makeEach (ActionResult_T X) (ActionResult_DeepCopyInto X)),
      IfNotNil ''StartedAt'' (mv_Time_DeepCopy X),
      IfNotNil ''ConnectionKill'' (newInto (ConnectionKillStatus_T X) (ConnectionKillStatus_DeepCopyInto X))]"

definition TransitionStatus_DeepCopy :: "metav1 \<Rightarrow> ptr \<Rightarrow> store \<Rightarrow> (ptr \<times> store) option" where
  "TransitionStatus_DeepCopy X = deepCopy (TransitionStatus_T X) (TransitionStatus_DeepCopyInto X)"

definition FailoverServiceStatus_T :: "metav1 \<Rightarrow> ty" where
  "FailoverServiceStatus_T X = TStruct
     [(''ObservedGeneration'', TInt), (''ActiveCluster'', TString), (''ActiveGeneration'', TInt),
      (''LastTransitionTime'', TPtr (mv_Time X)), (''LastKnownFailoverActive'', TPtr TBool),
      (''SpecChangeTime'', TPtr (mv_Time X)), (''Clusters'', TSlice (ClusterStatus_T X)),
      (''RemoteState'', TPtr (RemoteState_T X)), (''Transition'', TPtr (TransitionStatus_T X)),
      (''Conditions'', TSlice (mv_Condition X))]"

definition FailoverServiceStatus_DeepCopyInto :: "metav1 \<Rightarrow> copy" where
  "FailoverServiceStatus_DeepCopyInto X = copyStruct
     [IfNotNil ''LastTransitionTime'' (mv_Time_DeepCopy X),
      IfNotNil ''LastKnownFailoverActive'' (newInto TBool same),
      IfNotNil ''SpecChangeTime'' (mv_Time_DeepCopy X),
      IfNotNil ''Clusters'' (makeEach (ClusterStatus_T X) (ClusterStatus_DeepCopyInto X)),
      IfNotNil ''RemoteState'' (newInto (RemoteState_T X) (RemoteState_DeepCopyInto X)),
      IfNotNil ''Transition'' (newInto (TransitionStatus_T X) (TransitionStatus_DeepCopyInto X)),
      IfNotNil ''Conditions'' (makeEach (mv_Condition X) (mv_Condition_DeepCopyInto X))]"

definition FailoverServiceStatus_DeepCopy :: "metav1 \<Rightarrow> ptr \<Rightarrow> store \<Rightarrow> (ptr \<times> store) option" where
  "FailoverServiceStatus_DeepCopy X = deepCopy (FailoverServiceStatus_T X) (FailoverServiceStatus_DeepCopyInto X)"

definition FailoverService_T :: "metav1 \<Rightarrow> ty" where
  "FailoverService_T X = TStruct
     [(''TypeMeta'', mv_TypeMeta X), (''ObjectMeta'', mv_ObjectMeta X), (''Spec'', FailoverServiceSpec_T),
      (''Status'', FailoverServiceStatus_T X)]"

definition FailoverService_DeepCopyInto :: "metav1 \<Rightarrow> copy" where
  "FailoverService_DeepCopyInto X = copyStruct
     [Into ''TypeMeta'' same,
      Into ''ObjectMeta'' (mv_ObjectMeta_DeepCopyInto X),
      Into ''Spec'' FailoverServiceSpec_DeepCopyInto,
      Into ''Status'' (FailoverServiceStatus_DeepCopyInto X)]"

definition FailoverService_DeepCopy :: "metav1 \<Rightarrow> ptr \<Rightarrow> store \<Rightarrow> (ptr \<times> store) option" where
  "FailoverService_DeepCopy X = deepCopy (FailoverService_T X) (FailoverService_DeepCopyInto X)"

definition FailoverServiceList_T :: "metav1 \<Rightarrow> ty" where
  "FailoverServiceList_T X = TStruct
     [(''TypeMeta'', mv_TypeMeta X), (''ListMeta'', mv_ListMeta X), (''Items'', TSlice (FailoverService_T X))]"

definition FailoverServiceList_DeepCopyInto :: "metav1 \<Rightarrow> copy" where
  "FailoverServiceList_DeepCopyInto X = copyStruct
     [Into ''TypeMeta'' same,
      Into ''ListMeta'' (mv_ListMeta_DeepCopyInto X),
      IfNotNil ''Items'' (makeEach (FailoverService_T X) (FailoverService_DeepCopyInto X))]"

definition FailoverServiceList_DeepCopy :: "metav1 \<Rightarrow> ptr \<Rightarrow> store \<Rightarrow> (ptr \<times> store) option" where
  "FailoverServiceList_DeepCopy X = deepCopy (FailoverServiceList_T X) (FailoverServiceList_DeepCopyInto X)"

text \<open>A \<^verbatim>\<open>runtime.Object\<close> is an interface: nil, or a dynamic type and a pointer, which may be nil itself.\<close>

type_synonym object = "(string \<times> ptr) option"

definition FailoverEvent_DeepCopyObject :: "metav1 \<Rightarrow> ptr \<Rightarrow> store \<Rightarrow> (object \<times> store) option" where
  "FailoverEvent_DeepCopyObject X inn h =
     do { (c, h1) \<leftarrow> FailoverEvent_DeepCopy X inn h;
          if c \<noteq> None then Some (Some (''FailoverEvent'', c), h1) else Some (None, h1) }"

definition FailoverEventList_DeepCopyObject :: "metav1 \<Rightarrow> ptr \<Rightarrow> store \<Rightarrow> (object \<times> store) option" where
  "FailoverEventList_DeepCopyObject X inn h =
     do { (c, h1) \<leftarrow> FailoverEventList_DeepCopy X inn h;
          if c \<noteq> None then Some (Some (''FailoverEventList'', c), h1) else Some (None, h1) }"

definition FailoverService_DeepCopyObject :: "metav1 \<Rightarrow> ptr \<Rightarrow> store \<Rightarrow> (object \<times> store) option" where
  "FailoverService_DeepCopyObject X inn h =
     do { (c, h1) \<leftarrow> FailoverService_DeepCopy X inn h;
          if c \<noteq> None then Some (Some (''FailoverService'', c), h1) else Some (None, h1) }"

definition FailoverServiceList_DeepCopyObject :: "metav1 \<Rightarrow> ptr \<Rightarrow> store \<Rightarrow> (object \<times> store) option" where
  "FailoverServiceList_DeepCopyObject X inn h =
     do { (c, h1) \<leftarrow> FailoverServiceList_DeepCopy X inn h;
          if c \<noteq> None then Some (Some (''FailoverServiceList'', c), h1) else Some (None, h1) }"

section \<open>They are deep copies\<close>

lemmas copier_rules = copier_makeMap copier_makeCopy copier_makeEach copier_newInto copier_same

lemma metav1_rules:
  assumes "metav1_copies X"
  shows "plain (mv_TypeMeta X)" "copier (mv_ObjectMeta X) (mv_ObjectMeta_DeepCopyInto X)"
    "copier (mv_ListMeta X) (mv_ListMeta_DeepCopyInto X)" "copier (mv_Condition X) (mv_Condition_DeepCopyInto X)"
    "copier_some (TPtr (mv_Time X)) (mv_Time_DeepCopy X)"
  using assms by (auto simp: metav1_copies_def)

lemma plain_types: "plain Port_T" "plain EnvVar_T" "plain FailoverEventSpec_T"
  by (simp_all add: Port_T_def EnvVar_T_def FailoverEventSpec_T_def)

lemma Port_copier: "copier Port_T Port_DeepCopyInto"
  unfolding Port_T_def Port_DeepCopyInto_def
  by (rule copier_struct) (auto intro!: plain_types copier_rules)

lemma EnvVar_copier: "copier EnvVar_T EnvVar_DeepCopyInto"
  unfolding EnvVar_T_def EnvVar_DeepCopyInto_def
  by (rule copier_struct) (auto intro!: plain_types copier_rules)

lemma HTTPAction_copier: "copier HTTPAction_T HTTPAction_DeepCopyInto"
  unfolding HTTPAction_T_def HTTPAction_DeepCopyInto_def
  by (rule copier_struct) (auto intro!: plain_types copier_rules)

lemma JobAction_copier: "copier JobAction_T JobAction_DeepCopyInto"
  unfolding JobAction_T_def JobAction_DeepCopyInto_def
  by (rule copier_struct) (auto intro!: plain_types copier_rules)

lemma ScaleAction_copier: "copier ScaleAction_T ScaleAction_DeepCopyInto"
  unfolding ScaleAction_T_def ScaleAction_DeepCopyInto_def
  by (rule copier_struct) (auto intro!: plain_types copier_rules)

lemma WaitReadyAction_copier: "copier WaitReadyAction_T WaitReadyAction_DeepCopyInto"
  unfolding WaitReadyAction_T_def WaitReadyAction_DeepCopyInto_def
  by (rule copier_struct) (auto intro!: plain_types copier_rules)

lemma WaitRemoteAction_copier: "copier WaitRemoteAction_T WaitRemoteAction_DeepCopyInto"
  unfolding WaitRemoteAction_T_def WaitRemoteAction_DeepCopyInto_def
  by (rule copier_struct) (auto intro!: plain_types copier_rules)

lemma FailoverAction_copier: "copier FailoverAction_T FailoverAction_DeepCopyInto"
  unfolding FailoverAction_T_def FailoverAction_DeepCopyInto_def
  by (rule copier_struct) (auto intro!: plain_types copier_rules HTTPAction_copier JobAction_copier ScaleAction_copier WaitReadyAction_copier WaitRemoteAction_copier)

lemma TransitionActions_copier: "copier TransitionActions_T TransitionActions_DeepCopyInto"
  unfolding TransitionActions_T_def TransitionActions_DeepCopyInto_def
  by (rule copier_struct) (auto intro!: plain_types copier_rules FailoverAction_copier)

lemma ClusterTarget_copier: "copier ClusterTarget_T ClusterTarget_DeepCopyInto"
  unfolding ClusterTarget_T_def ClusterTarget_DeepCopyInto_def
  by (rule copier_struct) (auto intro!: plain_types copier_rules TransitionActions_copier)

lemma ActionResult_copier: "metav1_copies X \<Longrightarrow> copier (ActionResult_T X) (ActionResult_DeepCopyInto X)"
  unfolding ActionResult_T_def ActionResult_DeepCopyInto_def
  by (rule copier_struct) (auto intro!: plain_types copier_rules metav1_rules)

lemma ClusterStatus_copier: "metav1_copies X \<Longrightarrow> copier (ClusterStatus_T X) (ClusterStatus_DeepCopyInto X)"
  unfolding ClusterStatus_T_def ClusterStatus_DeepCopyInto_def
  by (rule copier_struct) (auto intro!: plain_types copier_rules metav1_rules)

lemma ConnectionKillStatus_copier: "metav1_copies X \<Longrightarrow> copier (ConnectionKillStatus_T X) (ConnectionKillStatus_DeepCopyInto X)"
  unfolding ConnectionKillStatus_T_def ConnectionKillStatus_DeepCopyInto_def
  by (rule copier_struct) (auto intro!: plain_types copier_rules metav1_rules)

lemma FailoverEventSpec_copier: "copier FailoverEventSpec_T FailoverEventSpec_DeepCopyInto"
  unfolding FailoverEventSpec_T_def FailoverEventSpec_DeepCopyInto_def
  by (rule copier_struct) (auto intro!: plain_types copier_rules)

lemma FailoverEventStatus_copier: "metav1_copies X \<Longrightarrow> copier (FailoverEventStatus_T X) (FailoverEventStatus_DeepCopyInto X)"
  unfolding FailoverEventStatus_T_def FailoverEventStatus_DeepCopyInto_def
  by (rule copier_struct) (auto intro!: plain_types copier_rules ActionResult_copier ConnectionKillStatus_copier metav1_rules)

lemma FailoverEvent_copier: "metav1_copies X \<Longrightarrow> copier (FailoverEvent_T X) (FailoverEvent_DeepCopyInto X)"
  unfolding FailoverEvent_T_def FailoverEvent_DeepCopyInto_def
  by (rule copier_struct) (auto intro!: plain_types copier_rules FailoverEventStatus_copier metav1_rules)

lemma FailoverEventList_copier: "metav1_copies X \<Longrightarrow> copier (FailoverEventList_T X) (FailoverEventList_DeepCopyInto X)"
  unfolding FailoverEventList_T_def FailoverEventList_DeepCopyInto_def
  by (rule copier_struct) (auto intro!: plain_types copier_rules FailoverEvent_copier metav1_rules)

lemma FailoverServiceSpec_copier: "copier FailoverServiceSpec_T FailoverServiceSpec_DeepCopyInto"
  unfolding FailoverServiceSpec_T_def FailoverServiceSpec_DeepCopyInto_def
  by (rule copier_struct) (auto intro!: plain_types copier_rules ClusterTarget_copier)

lemma RemoteState_copier: "metav1_copies X \<Longrightarrow> copier (RemoteState_T X) (RemoteState_DeepCopyInto X)"
  unfolding RemoteState_T_def RemoteState_DeepCopyInto_def
  by (rule copier_struct) (auto intro!: plain_types copier_rules metav1_rules)

lemma TransitionStatus_copier: "metav1_copies X \<Longrightarrow> copier (TransitionStatus_T X) (TransitionStatus_DeepCopyInto X)"
  unfolding TransitionStatus_T_def TransitionStatus_DeepCopyInto_def
  by (rule copier_struct) (auto intro!: plain_types copier_rules ActionResult_copier ConnectionKillStatus_copier metav1_rules)

lemma FailoverServiceStatus_copier: "metav1_copies X \<Longrightarrow> copier (FailoverServiceStatus_T X) (FailoverServiceStatus_DeepCopyInto X)"
  unfolding FailoverServiceStatus_T_def FailoverServiceStatus_DeepCopyInto_def
  by (rule copier_struct) (auto intro!: plain_types copier_rules ClusterStatus_copier RemoteState_copier TransitionStatus_copier metav1_rules)

lemma FailoverService_copier: "metav1_copies X \<Longrightarrow> copier (FailoverService_T X) (FailoverService_DeepCopyInto X)"
  unfolding FailoverService_T_def FailoverService_DeepCopyInto_def
  by (rule copier_struct) (auto intro!: plain_types copier_rules FailoverServiceSpec_copier FailoverServiceStatus_copier metav1_rules)

lemma FailoverServiceList_copier: "metav1_copies X \<Longrightarrow> copier (FailoverServiceList_T X) (FailoverServiceList_DeepCopyInto X)"
  unfolding FailoverServiceList_T_def FailoverServiceList_DeepCopyInto_def
  by (rule copier_struct) (auto intro!: plain_types copier_rules FailoverService_copier metav1_rules)

lemmas copiers = Port_copier EnvVar_copier HTTPAction_copier JobAction_copier ScaleAction_copier WaitReadyAction_copier
  WaitRemoteAction_copier FailoverAction_copier TransitionActions_copier ClusterTarget_copier ActionResult_copier ClusterStatus_copier
  ConnectionKillStatus_copier FailoverEventSpec_copier FailoverEventStatus_copier FailoverEvent_copier FailoverEventList_copier FailoverServiceSpec_copier
  RemoteState_copier TransitionStatus_copier FailoverServiceStatus_copier FailoverService_copier FailoverServiceList_copier

lemmas deepCopy_defs = Port_DeepCopy_def EnvVar_DeepCopy_def HTTPAction_DeepCopy_def JobAction_DeepCopy_def ScaleAction_DeepCopy_def WaitReadyAction_DeepCopy_def
  WaitRemoteAction_DeepCopy_def FailoverAction_DeepCopy_def TransitionActions_DeepCopy_def ClusterTarget_DeepCopy_def ActionResult_DeepCopy_def ClusterStatus_DeepCopy_def
  ConnectionKillStatus_DeepCopy_def FailoverEventSpec_DeepCopy_def FailoverEventStatus_DeepCopy_def FailoverEvent_DeepCopy_def FailoverEventList_DeepCopy_def FailoverServiceSpec_DeepCopy_def
  RemoteState_DeepCopy_def TransitionStatus_DeepCopy_def FailoverServiceStatus_DeepCopy_def FailoverService_DeepCopy_def FailoverServiceList_DeepCopy_def

lemmas deepCopyObject_defs = FailoverEvent_DeepCopyObject_def FailoverEventList_DeepCopyObject_def FailoverService_DeepCopyObject_def FailoverServiceList_DeepCopyObject_def

text \<open>All of them, each with its type.\<close>

definition deepCopies :: "metav1 \<Rightarrow> (ty \<times> (ptr \<Rightarrow> store \<Rightarrow> (ptr \<times> store) option)) list" where
  "deepCopies X = [
     (Port_T, Port_DeepCopy),
     (EnvVar_T, EnvVar_DeepCopy),
     (HTTPAction_T, HTTPAction_DeepCopy),
     (JobAction_T, JobAction_DeepCopy),
     (ScaleAction_T, ScaleAction_DeepCopy),
     (WaitReadyAction_T, WaitReadyAction_DeepCopy),
     (WaitRemoteAction_T, WaitRemoteAction_DeepCopy),
     (FailoverAction_T, FailoverAction_DeepCopy),
     (TransitionActions_T, TransitionActions_DeepCopy),
     (ClusterTarget_T, ClusterTarget_DeepCopy),
     (ActionResult_T X, ActionResult_DeepCopy X),
     (ClusterStatus_T X, ClusterStatus_DeepCopy X),
     (ConnectionKillStatus_T X, ConnectionKillStatus_DeepCopy X),
     (FailoverEventSpec_T, FailoverEventSpec_DeepCopy),
     (FailoverEventStatus_T X, FailoverEventStatus_DeepCopy X),
     (FailoverEvent_T X, FailoverEvent_DeepCopy X),
     (FailoverEventList_T X, FailoverEventList_DeepCopy X),
     (FailoverServiceSpec_T, FailoverServiceSpec_DeepCopy),
     (RemoteState_T X, RemoteState_DeepCopy X),
     (TransitionStatus_T X, TransitionStatus_DeepCopy X),
     (FailoverServiceStatus_T X, FailoverServiceStatus_DeepCopy X),
     (FailoverService_T X, FailoverService_DeepCopy X),
     (FailoverServiceList_T X, FailoverServiceList_DeepCopy X)]"

definition objectCopies :: "metav1 \<Rightarrow> (string \<times> ty \<times> (ptr \<Rightarrow> store \<Rightarrow> (object \<times> store) option)) list" where
  "objectCopies X = [
     (''FailoverEvent'', FailoverEvent_T X, FailoverEvent_DeepCopyObject X),
     (''FailoverEventList'', FailoverEventList_T X, FailoverEventList_DeepCopyObject X),
     (''FailoverService'', FailoverService_T X, FailoverService_DeepCopyObject X),
     (''FailoverServiceList'', FailoverServiceList_T X, FailoverServiceList_DeepCopyObject X)]"

lemma deepCopies_copier:
  assumes "metav1_copies X"
  shows "(t, dc) \<in> set (deepCopies X) \<Longrightarrow> \<exists>f. dc = deepCopy t f \<and> copier t f"
proof -
  have of_copier: "copier u f \<Longrightarrow> \<exists>g. deepCopy u f = deepCopy u g \<and> copier u g" for u f by blast
  have "list_all (\<lambda>(u, c). \<exists>f. c = deepCopy u f \<and> copier u f) (deepCopies X)"
    unfolding deepCopies_def deepCopy_defs list.pred_inject prod.case
    by (intro conjI list.pred_inject(1) of_copier copiers assms)
  then show "(t, dc) \<in> set (deepCopies X) \<Longrightarrow> \<exists>f. dc = deepCopy t f \<and> copier t f" by (auto simp: list_all_iff)
qed

definition objectOf :: "string \<Rightarrow> (ptr \<Rightarrow> store \<Rightarrow> (ptr \<times> store) option) \<Rightarrow> ptr \<Rightarrow> store \<Rightarrow> (object \<times> store) option" where
  "objectOf kind dc p h = do { (c, h1) \<leftarrow> dc p h; if c \<noteq> None then Some (Some (kind, c), h1) else Some (None, h1) }"

lemma objectCopies_copier:
  assumes "metav1_copies X" "(kind, t, f) \<in> set (objectCopies X)"
  shows "\<exists>g. f = objectOf kind (deepCopy t g) \<and> copier t g"
proof -
  have objects: "FailoverEvent_DeepCopyObject X = objectOf ''FailoverEvent'' (FailoverEvent_DeepCopy X)"
    "FailoverEventList_DeepCopyObject X = objectOf ''FailoverEventList'' (FailoverEventList_DeepCopy X)"
    "FailoverService_DeepCopyObject X = objectOf ''FailoverService'' (FailoverService_DeepCopy X)"
    "FailoverServiceList_DeepCopyObject X = objectOf ''FailoverServiceList'' (FailoverServiceList_DeepCopy X)"
    by (simp_all add: fun_eq_iff objectOf_def deepCopyObject_defs)
  have of_copier: "copier u f \<Longrightarrow> \<exists>g. objectOf k (deepCopy u f) = objectOf k (deepCopy u g) \<and> copier u g" for u f k by blast
  have "list_all (\<lambda>(k, u, c). \<exists>g. c = objectOf k (deepCopy u g) \<and> copier u g) (objectCopies X)"
    unfolding objectCopies_def objects deepCopy_defs list.pred_inject prod.case
    by (intro conjI list.pred_inject(1) of_copier copiers assms(1))
  with assms(2) show ?thesis by (auto simp: list_all_iff)
qed

text \<open>The specification has no part of \<^verbatim>\<open>metav1\<close>, so its copy keeps the contract outright.\<close>

interpretation spec: deep_copy FailoverServiceSpec_T FailoverServiceSpec_DeepCopyInto
  by unfold_locales (rule FailoverServiceSpec_copier)

lemma spec_copy_independent:
  assumes "observe h (TPtr FailoverServiceSpec_T) (VPtr p) = Some (d, A)"
  shows "\<exists>q e. FailoverServiceSpec_DeepCopy p h = Some (q, h @ e) \<and> independent FailoverServiceSpec_T p q (h @ e)"
  unfolding FailoverServiceSpec_DeepCopy_def using assms by (rule spec.copy_independent)

section \<open>Properties\<close>

text \<open>C31: The generated deep copies of all API types are deep copies: applied to a pointer to a value of the type, \<^verbatim>\<open>DeepCopy\<close>
  returns a pointer that stands for the same value, nothing that was allocated before is changed, and the two share
  nothing: after any writes into the memory of one of them the other one still stands for that value.\<close>

theorem deep_copies_independent:
  assumes "metav1_copies X" "(t, dc) \<in> set (deepCopies X)" "observe h (TPtr t) (VPtr p) = Some (d, A)"
  shows "\<exists>q e. dc p h = Some (q, h @ e) \<and> (q = None \<longleftrightarrow> p = None) \<and> independent t p q (h @ e)"
proof -
  from deepCopies_copier [OF assms(1,2)] obtain f where f: "dc = deepCopy t f" "copier t f" by blast
  from deep_copy.copy_independent [OF deep_copy.intro [OF f(2)] assms(3)] obtain q e where q: "dc p h = Some (q, h @ e)" "independent t p q (h @ e)"
    by (auto simp: f(1))
  then have "q = None \<longleftrightarrow> p = None" by (auto simp: independent_def bind_eq_Some_conv split: option.splits)
  with q show ?thesis by blast
qed

text \<open>A stand-in for \<^verbatim>\<open>metav1\<close> with some of its fields, and a ConnectionKillStatus in memory, with a slice of a longer array.\<close>

definition sampleMetav1 :: metav1 where
  "sampleMetav1 = \<lparr>mv_TypeMeta = TStruct [(''Kind'', TString), (''APIVersion'', TString)],
     mv_ObjectMeta = TStruct [(''Name'', TString), (''Annotations'', TMap), (''Finalizers'', TSlice TString)],
     mv_ListMeta = TStruct [(''ResourceVersion'', TString)],
     mv_Condition = TStruct [(''Type'', TString), (''Status'', TString)],
     mv_Time = TInt,
     mv_ObjectMeta_DeepCopyInto = copyStruct [IfNotNil ''Annotations'' makeMap, IfNotNil ''Finalizers'' (makeCopy TString)],
     mv_ListMeta_DeepCopyInto = copyStruct [], mv_Condition_DeepCopyInto = copyStruct [],
     mv_Time_DeepCopy = newInto TInt same\<rparr>"

lemma sampleMetav1_copies: "metav1_copies sampleMetav1"
  by (auto simp: metav1_copies_def sampleMetav1_def intro!: copier_struct copier_rules)

definition killStatus :: val where
  "killStatus = VStruct [(''SignalSent'', VBool True), (''KillToken'', VString ''t1''), (''ExpectedNodes'', VSlice (Some (1, 1, 2))),
     (''AckedNodes'', VSlice None), (''SignaledAt'', VPtr (Some (2, 0)))]"

definition killStore :: store where
  "killStore = [Vars [killStatus], Vars [VString ''n0'', VString ''n1'', VString ''n2''], Vars [VInt 7]]"

theorem deep_copies_independent_witness:
  "\<exists>q e. ConnectionKillStatus_DeepCopy sampleMetav1 (Some (0, 0)) killStore = Some (q, killStore @ e) \<and>
     independent (ConnectionKillStatus_T sampleMetav1) (Some (0, 0)) q (killStore @ e)"
proof -
  have "(ConnectionKillStatus_T sampleMetav1, ConnectionKillStatus_DeepCopy sampleMetav1) \<in> set (deepCopies sampleMetav1)"
    by (simp add: deepCopies_def)
  moreover have "observe killStore (TPtr (ConnectionKillStatus_T sampleMetav1)) (VPtr (Some (0, 0))) =
      Some (DRef (DStruct [(''SignalSent'', DBool True), (''KillToken'', DString ''t1''),
        (''ExpectedNodes'', DList [DString ''n1'', DString ''n2'']), (''AckedNodes'', DNil), (''SignaledAt'', DRef (DInt 7))]), [0, 1, 2])"
    by (simp add: ConnectionKillStatus_T_def sampleMetav1_def killStore_def killStatus_def load_def vars_def slice_def)
  ultimately show ?thesis
    using deep_copies_independent [OF sampleMetav1_copies, of "ConnectionKillStatus_T sampleMetav1"] by blast
qed

text \<open>\<^verbatim>\<open>DeepCopyObject\<close> returns a nil interface exactly for a nil pointer, never an interface that holds a nil pointer, and
  otherwise an independent copy under its own type.\<close>

theorem object_copies_never_hold_nil:
  assumes "metav1_copies X" "(kind, t, f) \<in> set (objectCopies X)" "observe h (TPtr t) (VPtr p) = Some (d, A)"
  shows "\<exists>ob e. f p h = Some (ob, h @ e) \<and>
    (case ob of None \<Rightarrow> p = None | Some (k, q) \<Rightarrow> k = kind \<and> q \<noteq> None \<and> independent t p q (h @ e))"
proof -
  from objectCopies_copier [OF assms(1,2)] obtain g where g: "f = objectOf kind (deepCopy t g)" "copier t g" by blast
  from deep_copy.copy_independent [OF deep_copy.intro [OF g(2)] assms(3)] obtain q e where q: "deepCopy t g p h = Some (q, h @ e)" "independent t p q (h @ e)"
    by blast
  have "p = None" if "q = None" using q(2) that by (auto simp: independent_def bind_eq_Some_conv split: option.splits)
  with q show ?thesis by (cases q) (auto simp: g(1) objectOf_def)
qed

end
