(* ===== verification/RemoteEvents.thy ===== *)
theory RemoteEvents
  imports DeepCopy Actions
begin

text \<open>
  \<^verbatim>\<open>findRecentRemoteEvent\<close> of \<^verbatim>\<open>src/internal/action/waitremote.go\<close> once more, with pointers.  The source walks through a
  listing by pointers to its elements and keeps a deep copy of the best one so far; theory \<open>Actions\<close> models it on
  values.  Here the loop runs on memory, and is shown to return a pointer to what the value-level loop returns, which
  shares nothing with the listing.
\<close>

section \<open>Events read from memory\<close>

text \<open>How the metadata and times of \<^verbatim>\<open>metav1\<close> are to be read is a parameter.\<close>

record reading =
  rd_Time :: "datum \<Rightarrow> time"
  rd_ObjectMeta :: "datum \<Rightarrow> ObjectMeta"

fun member :: "string \<Rightarrow> datum \<Rightarrow> datum" where
  "member f (DStruct ds) = (case map_of ds f of None \<Rightarrow> DNil | Some d \<Rightarrow> d)"
| "member f _ = DNil"

fun asString :: "datum \<Rightarrow> string" where
  "asString (DString s) = s"
| "asString _ = ''''"

fun asInt :: "datum \<Rightarrow> int" where
  "asInt (DInt i) = i"
| "asInt _ = 0"

fun asBool :: "datum \<Rightarrow> bool" where
  "asBool (DBool b) = b"
| "asBool _ = False"

fun asOption :: "(datum \<Rightarrow> 'a) \<Rightarrow> datum \<Rightarrow> 'a option" where
  "asOption f (DRef d) = Some (f d)"
| "asOption f _ = None"

fun asList :: "(datum \<Rightarrow> 'a) \<Rightarrow> datum \<Rightarrow> 'a list" where
  "asList f (DList ds) = map f ds"
| "asList f _ = []"

definition asActionResult :: "reading \<Rightarrow> datum \<Rightarrow> ActionResult" where
  "asActionResult R d = \<lparr>ar_Name = asString (member ''Name'' d), ar_Status = asString (member ''Status'' d),
     ar_Message = asString (member ''Message'' d), ar_StartedAt = asOption (rd_Time R) (member ''StartedAt'' d),
     ar_CompletedAt = asOption (rd_Time R) (member ''CompletedAt'' d), ar_JobName = asString (member ''JobName'' d),
     ar_RetryCount = asInt (member ''RetryCount'' d)\<rparr>"

definition asConnectionKillStatus :: "reading \<Rightarrow> datum \<Rightarrow> ConnectionKillStatus" where
  "asConnectionKillStatus R d = \<lparr>ck_SignalSent = asBool (member ''SignalSent'' d), ck_KillToken = asString (member ''KillToken'' d),
     ck_ExpectedNodes = asList asString (member ''ExpectedNodes'' d), ck_AckedNodes = asList asString (member ''AckedNodes'' d),
     ck_SignaledAt = asOption (rd_Time R) (member ''SignaledAt'' d)\<rparr>"

definition asFailoverEventSpec :: "datum \<Rightarrow> FailoverEventSpec" where
  "asFailoverEventSpec d = \<lparr>es_FailoverServiceRef = asString (member ''FailoverServiceRef'' d),
     es_Direction = asString (member ''Direction'' d), es_TriggeredBy = asString (member ''TriggeredBy'' d)\<rparr>"

definition asFailoverEventStatus :: "reading \<Rightarrow> datum \<Rightarrow> FailoverEventStatus" where
  "asFailoverEventStatus R d = \<lparr>et_StartedAt = asOption (rd_Time R) (member ''StartedAt'' d),
     et_CompletedAt = asOption (rd_Time R) (member ''CompletedAt'' d), et_Outcome = asString (member ''Outcome'' d),
     et_PreActionResults = asList (asActionResult R) (member ''PreActionResults'' d),
     et_PostActionResults = asList (asActionResult R) (member ''PostActionResults'' d),
     et_ConnectionKillResult = asOption (asConnectionKillStatus R) (member ''ConnectionKillResult'' d),
     et_ActiveGenerationBefore = asInt (member ''ActiveGenerationBefore'' d),
     et_ActiveGenerationAfter = asInt (member ''ActiveGenerationAfter'' d)\<rparr>"

definition asFailoverEvent :: "reading \<Rightarrow> datum \<Rightarrow> FailoverEvent" where
  "asFailoverEvent R d = \<lparr>fe_Meta = rd_ObjectMeta R (member ''ObjectMeta'' d), fe_Spec = asFailoverEventSpec (member ''Spec'' d),
     fe_Status = asFailoverEventStatus R (member ''Status'' d)\<rparr>"

section \<open>The loop with pointers\<close>

definition readEvent :: "metav1 \<Rightarrow> reading \<Rightarrow> addr \<times> nat \<Rightarrow> store \<Rightarrow> FailoverEvent option" where
  "readEvent X R p h = do { v \<leftarrow> load p h; (d, _) \<leftarrow> observe h (FailoverEvent_T X) v; Some (asFailoverEvent R d) }"

fun bestEventCopy ::
    "metav1 \<Rightarrow> reading \<Rightarrow> string \<Rightarrow> time \<Rightarrow> string \<Rightarrow> addr \<times> nat \<Rightarrow> nat \<Rightarrow> ptr \<Rightarrow> time \<Rightarrow> store \<Rightarrow> (ptr \<times> store) option" where
  "bestEventCopy X R fsName localStartedAt expectedDirection p 0 best bestTime h = Some (best, h)"
| "bestEventCopy X R fsName localStartedAt expectedDirection p (Suc n) best bestTime h =
     do { event \<leftarrow> readEvent X R p h;
          let following = (fst p, Suc (snd p));
          if es_FailoverServiceRef (fe_Spec event) \<noteq> fsName
          then bestEventCopy X R fsName localStartedAt expectedDirection following n best bestTime h
          else if \<not> eventMatchesTransition event localStartedAt expectedDirection
          then bestEventCopy X R fsName localStartedAt expectedDirection following n best bestTime h
          else if best = None \<or> eventTimestamp event > bestTime then do {
            (copy, h1) \<leftarrow> FailoverEvent_DeepCopy X (Some p) h;
            bestEventCopy X R fsName localStartedAt expectedDirection following n copy (eventTimestamp event) h1 }
          else bestEventCopy X R fsName localStartedAt expectedDirection following n best bestTime h }"

definition findRecentEventCopy ::
    "metav1 \<Rightarrow> reading \<Rightarrow> string \<Rightarrow> time \<Rightarrow> string \<Rightarrow> val \<Rightarrow> store \<Rightarrow> (ptr \<times> store) option" where
  "findRecentEventCopy X R fsName localStartedAt expectedDirection items h =
     (case items of
        VSlice None \<Rightarrow> Some (None, h)
      | VSlice (Some (a, i, n)) \<Rightarrow> bestEventCopy X R fsName localStartedAt expectedDirection (a, i) n None zeroTime h
      | _ \<Rightarrow> None)"

text \<open>\<open>best\<close> points to a copy of \<open>event\<close>, in memory from address \<open>k\<close> on.\<close>

definition holds :: "metav1 \<Rightarrow> reading \<Rightarrow> nat \<Rightarrow> store \<Rightarrow> ptr \<Rightarrow> FailoverEvent option \<Rightarrow> bool" where
  "holds X R k h best event \<longleftrightarrow> (case event of None \<Rightarrow> best = None
     | Some ev \<Rightarrow> \<exists>d. reads h (TPtr (FailoverEvent_T X)) (VPtr best) (DRef d) {k..} \<and> asFailoverEvent R d = ev)"

lemma holds_nil: "holds X R k h best event \<Longrightarrow> best = None \<longleftrightarrow> event = None"
  by (cases best) (auto simp: holds_def split: option.splits)

lemma holds_append: "holds X R k h best event \<Longrightarrow> holds X R k (h @ e) best event"
  unfolding holds_def by (auto split: option.splits intro: reads_append simp del: reads_ptr)

lemma bestEventCopy:
  assumes "metav1_copies X" "slice (a, i, n) h = Some xs" "list_all2 (\<lambda>x d. reads h (FailoverEvent_T X) x d UNIV) xs ds"
  shows "j + m = n \<Longrightarrow> holds X R (length h) (h @ e) best bestV \<Longrightarrow>
    \<exists>q c. bestEventCopy X R fsName ls dir (a, i + j) m best bestTime (h @ e) = Some (q, h @ c) \<and>
      holds X R (length h) (h @ c) q (bestEvent fsName ls dir (map (asFailoverEvent R) (drop j ds)) bestV bestTime)"
proof (induction m arbitrary: j e best bestV bestTime)
  case 0
  with assms(3) slice_length [OF assms(2)] show ?case by (auto dest: list_all2_lengthD)
next
  case (Suc m)
  let ?T = "FailoverEvent_T X"
  have len: "j < length xs" "j < length ds" using Suc.prems(1) slice_length [OF assms(2)] list_all2_lengthD [OF assms(3)] by auto
  define ev where "ev = asFailoverEvent R (ds ! j)"
  have x: "load (a, i + j) (h @ e) = Some (xs ! j)" using slice_load [OF assms(2)] Suc.prems(1) by (simp add: load_append)
  have d: "reads (h @ e) ?T (xs ! j) (ds ! j) UNIV" using assms(3) len by (auto simp: list_all2_conv_all_nth intro: reads_append)
  then have ev: "readEvent X R (a, i + j) (h @ e) = Some ev" by (auto simp: readEvent_def x ev_def reads_def)
  have drop: "map (asFailoverEvent R) (drop j ds) = ev # map (asFailoverEvent R) (drop (Suc j) ds)"
    using len(2) by (simp add: Cons_nth_drop_Suc [symmetric] ev_def)
  have "reads (h @ e) (TPtr ?T) (VPtr (Some (a, i + j))) (DRef (ds ! j)) UNIV" using x d by simp
  from deep_copy.copy_reads [OF deep_copy.intro [OF FailoverEvent_copier [OF assms(1)]] this] obtain q c where
    q: "FailoverEvent_DeepCopy X (Some (a, i + j)) (h @ e) = Some (q, h @ e @ c)"
    "reads (h @ e @ c) (TPtr ?T) (VPtr q) (DRef (ds ! j)) {length (h @ e)..}"
    by (auto simp: FailoverEvent_DeepCopy_def simp del: reads_ptr)
  have new: "holds X R (length h) (h @ e @ c) q (Some ev)"
    using reads_mono [OF q(2), of "{length h..}"] by (auto simp: holds_def ev_def simp del: reads_ptr)
  have skip: "\<exists>q c. bestEventCopy X R fsName ls dir (a, Suc (i + j)) m best bestTime (h @ e) = Some (q, h @ c) \<and>
      holds X R (length h) (h @ c) q (bestEvent fsName ls dir (map (asFailoverEvent R) (drop (Suc j) ds)) bestV bestTime)"
    using Suc.IH [of "Suc j" e best bestV bestTime] Suc.prems by simp
  have take: "\<exists>r c'. bestEventCopy X R fsName ls dir (a, Suc (i + j)) m q (eventTimestamp ev) (h @ e @ c) = Some (r, h @ c') \<and>
      holds X R (length h) (h @ c') r (bestEvent fsName ls dir (map (asFailoverEvent R) (drop (Suc j) ds)) (Some ev) (eventTimestamp ev))"
    using Suc.IH [of "Suc j" "e @ c" q "Some ev" "eventTimestamp ev"] Suc.prems(1) new by simp
  show ?case
    using skip take holds_nil [OF Suc.prems(2)] by (simp add: ev drop q(1) Let_def)
qed

section \<open>Properties\<close>

text \<open>C32: The search for the other cluster's latest event, with its pointers and copies, returns what the value-level model
  of \<^verbatim>\<open>findRecentRemoteEvent\<close> returns: nil if no listed event matches, and otherwise a pointer to the newest matching event,
  which reads the same as the listed one but shares no memory with the listing, all of which is unchanged.\<close>

theorem recent_event_is_a_copy:
  assumes "metav1_copies X" "observe h (TSlice (FailoverEvent_T X)) items = Some (listing, A)"
  shows "\<exists>best e. findRecentEventCopy X R fsName localStartedAt expectedDirection items h = Some (best, h @ e) \<and>
    (case bestEvent fsName localStartedAt expectedDirection (asList (asFailoverEvent R) listing) None zeroTime of
       None \<Rightarrow> best = None
     | Some event \<Rightarrow> \<exists>d B. observe (h @ e) (TPtr (FailoverEvent_T X)) (VPtr best) = Some (DRef d, B) \<and>
         asFailoverEvent R d = event \<and> set A \<inter> set B = {})"
proof (cases "isNil items")
  case True
  with assms(2) show ?thesis by (cases items) (auto simp: findRecentEventCopy_def)
next
  case False
  have "reads h (TSlice (FailoverEvent_T X)) items listing UNIV" using assms(2) by (simp add: reads_def)
  from this False obtain a i n xs ds where xs: "items = VSlice (Some (a, i, n))" "slice (a, i, n) h = Some xs" "listing = DList ds"
    "list_all2 (\<lambda>x d. reads h (FailoverEvent_T X) x d UNIV) xs ds"
    by (rule reads_sliceE)
  let ?best = "bestEvent fsName localStartedAt expectedDirection (map (asFailoverEvent R) ds) None zeroTime"
  have "holds X R (length h) (h @ []) None None" by (simp add: holds_def)
  from bestEventCopy [OF assms(1) xs(2,4) _ this, of 0 n fsName localStartedAt expectedDirection zeroTime] obtain q c where
    q: "findRecentEventCopy X R fsName localStartedAt expectedDirection items h = Some (q, h @ c)"
    "holds X R (length h) (h @ c) q ?best"
    by (auto simp: findRecentEventCopy_def xs(1))
  show ?thesis
  proof (cases ?best)
    case None
    with q show ?thesis by (simp add: holds_def xs(3))
  next
    case (Some ev)
    with q(2) obtain d B where d: "observe (h @ c) (TPtr (FailoverEvent_T X)) (VPtr q) = Some (DRef d, B)" "set B \<subseteq> {length h..}"
      "asFailoverEvent R d = ev"
      by (auto simp: holds_def reads_def simp del: reads_ptr observe.simps)
    with Some q(1) reads_apart [OF assms(2) d(1,2)] show ?thesis by (auto simp: xs(3) simp del: observe.simps)
  qed
qed

text \<open>A listing of one event, which has ended.\<close>

definition sampleReading :: reading where
  "sampleReading = \<lparr>rd_Time = asInt, rd_ObjectMeta = \<lambda>_. emptyMeta\<rparr>"

definition eventVal :: val where
  "eventVal = VStruct [(''TypeMeta'', VStruct [(''Kind'', VString ''FailoverEvent''), (''APIVersion'', VString '''')]),
     (''ObjectMeta'', VStruct [(''Name'', VString ''e1''), (''Annotations'', VMap None), (''Finalizers'', VSlice None)]),
     (''Spec'', VStruct [(''FailoverServiceRef'', VString ''db''), (''Direction'', VString ''failover''),
        (''TriggeredBy'', VString ''c1'')]),
     (''Status'', VStruct [(''StartedAt'', VPtr None), (''CompletedAt'', VPtr (Some (1, 0))), (''Outcome'', VString ''Succeeded''),
        (''PreActionResults'', VSlice None), (''PostActionResults'', VSlice None), (''ConnectionKillResult'', VPtr None),
        (''ActiveGenerationBefore'', VInt 1), (''ActiveGenerationAfter'', VInt 2)])]"

theorem recent_event_is_a_copy_witness:
  "\<exists>best e d B. findRecentEventCopy sampleMetav1 sampleReading ''db'' zeroTime '''' (VSlice (Some (0, 0, 1)))
       [Vars [eventVal], Vars [VInt 9]] = Some (best, [Vars [eventVal], Vars [VInt 9]] @ e) \<and>
     observe ([Vars [eventVal], Vars [VInt 9]] @ e) (TPtr (FailoverEvent_T sampleMetav1)) (VPtr best) = Some (DRef d, B) \<and>
     et_CompletedAt (fe_Status (asFailoverEvent sampleReading d)) = Some 9"
proof -
  let ?h = "[Vars [eventVal], Vars [VInt 9]]"
  have "observe ?h (TSlice (FailoverEvent_T sampleMetav1)) (VSlice (Some (0, 0, 1))) \<noteq> None"
    by (simp add: eventVal_def FailoverEvent_T_def FailoverEventSpec_T_def FailoverEventStatus_T_def sampleMetav1_def
        load_def vars_def slice_def)
  then obtain listing A where listing: "observe ?h (TSlice (FailoverEvent_T sampleMetav1)) (VSlice (Some (0, 0, 1))) = Some (listing, A)"
    by auto
  then obtain event where event: "bestEvent ''db'' zeroTime '''' (asList (asFailoverEvent sampleReading) listing) None zeroTime = Some event"
    "et_CompletedAt (fe_Status event) = Some 9"
    by (auto simp: eventVal_def FailoverEvent_T_def FailoverEventSpec_T_def FailoverEventStatus_T_def sampleMetav1_def
        load_def vars_def slice_def asFailoverEvent_def asFailoverEventSpec_def asFailoverEventStatus_def
        eventMatchesTransition_def sampleReading_def)
  show ?thesis
    using recent_event_is_a_copy [OF sampleMetav1_copies listing, of sampleReading "''db''" zeroTime "''''"] event
    by (auto simp del: observe.simps)
qed

end
